(* ===== verification/Cask_Prelude.thy ===== *)
theory Cask_Prelude
  imports Main "HOL-Library.Word" "HOL-Library.Sublist"
begin

text \<open>
  Shared by every component: the collections that gather the facts the component
  proofs rewrite with, the names of the types the model uses throughout, and the
  generic lemmas on lists and on 64-bit integers that several components need.
\<close>

named_theorems go_simps \<open>evaluation of the Go string and number primitives\<close>
named_theorems cask_defs \<open>definitions of small pure helpers, unfolded freely\<close>

text \<open>A Go \<open>string\<close> is a sequence of bytes: one \<open>char\<close> per byte.\<close>

type_synonym bytes = string
type_synonym int64 = "64 word"
type_synonym duration = int64 \<comment> \<open>\<open>time.Duration\<close>: nanoseconds in an \<open>int64\<close>\<close>

subsection \<open>Sublists and a separating character\<close>

lemma prefix_append_char:
  "r \<notin> set p \<Longrightarrow> prefix p (a @ r # b) \<longleftrightarrow> prefix p a"
proof (induction a arbitrary: p)
  case Nil
  then show ?case by (cases p) auto
next
  case (Cons c a)
  then show ?case by (cases p) auto
qed

text \<open>A word without \<open>r\<close> occurs across an \<open>r\<close> only on one of its sides.\<close>

lemma sublist_append_char:
  "r \<notin> set p \<Longrightarrow> sublist p (a @ r # b) \<longleftrightarrow> sublist p a \<or> sublist p b"
proof (induction a)
  case Nil
  then show ?case
    by (cases p) (auto simp: sublist_Cons_right)
next
  case (Cons c a)
  then show ?case
    using prefix_append_char [of r p "c # a" b] by (auto simp: sublist_Cons_right)
qed

lemma prefix_refl_drop: "prefix p s \<Longrightarrow> s = p @ drop (length p) s"
  by (metis append_take_drop_id append_eq_conv_conj prefix_def)

subsection \<open>Lookup in association lists\<close>

lemma map_of_filter_key:
  "map_of (filter (\<lambda>(k, v). P k) xs) k = (if P k then map_of xs k else None)"
  by (induction xs) auto

subsection \<open>Folds\<close>

lemma foldl_invariant:
  "P a \<Longrightarrow> (\<And>b x. P b \<Longrightarrow> x \<in> set xs \<Longrightarrow> P (f b x)) \<Longrightarrow> P (foldl f a xs)"
  by (induction xs arbitrary: a) auto

subsection \<open>Signed 64-bit arithmetic\<close>

text \<open>
  Go's \<open>int64\<close> operations are those of \<^typ>\<open>int64\<close>; \<open>sint\<close> reads the value.
  A product that fits is the mathematical product.
\<close>

lemma sint_mult_fits:
  fixes a b :: int64
  assumes "- (2 ^ 63) \<le> sint a * sint b" "sint a * sint b < 2 ^ 63"
  shows "sint (a * b) = sint a * sint b"
  using assms by (simp add: sint_word_ariths signed_take_bit_int_eq_self)

lemma sint_of_int_fits:
  assumes "- (2 ^ 63) \<le> n" "n < (2 ^ 63 :: int)"
  shows "sint (word_of_int n :: int64) = n"
  using assms by (simp add: sint_sbintrunc' signed_take_bit_int_eq_self)

lemma sint64_bounds: "- (2 ^ 63) \<le> sint (x :: int64)" "sint (x :: int64) < 2 ^ 63"
  using sint_ge [of x] sint_lt [of x] by simp_all

subsection \<open>Counting steps\<close>

text \<open>
  A run of two kinds of steps, with the number of those of the first kind. A rank that they lower and
  that the others do not raise bounds this number.
\<close>

inductive counted :: "('a \<Rightarrow> 'a \<Rightarrow> bool) \<Rightarrow> ('a \<Rightarrow> 'a \<Rightarrow> bool) \<Rightarrow> nat \<Rightarrow> 'a \<Rightarrow> 'a \<Rightarrow> bool"
  for own :: "'a \<Rightarrow> 'a \<Rightarrow> bool" and other :: "'a \<Rightarrow> 'a \<Rightarrow> bool" where
  none_taken: "counted own other 0 c c"
| own_step: "counted own other n a b \<Longrightarrow> own b c \<Longrightarrow> counted own other (Suc n) a c"
| other_step: "counted own other n a b \<Longrightarrow> other b c \<Longrightarrow> counted own other n a c"

lemma counted_rank:
  fixes f :: "'a \<Rightarrow> int"
  assumes "counted own other n a b" "P a"
    and own: "\<And>x y. P x \<Longrightarrow> own x y \<Longrightarrow> P y \<and> f y < f x"
    and other: "\<And>x y. P x \<Longrightarrow> other x y \<Longrightarrow> P y \<and> f y \<le> f x"
  shows "P b \<and> int n + f b \<le> f a"
  using assms(1,2)
proof (induction rule: counted.induct)
  case (own_step n a b c)
  then show ?case using own [of b c] by simp
next
  case (other_step n a b c)
  then show ?case using other [of b c] by simp
qed simp

end
