(* ===== verification/Cask_Strings.thy ===== *)
theory Cask_Strings
  imports Cask_Prelude "HOL-Library.Char_ord" "HOL-Library.List_Lexorder"
begin

text \<open>
  The part of Go's standard library the program computes with: \<open>strings\<close>
  (prefixes, containment, splitting, replacing, trimming, lower case), \<open>strconv\<close>
  (decimal integers), \<open>encoding/hex\<close> and \<open>encoding/base64\<close>. Strings are byte
  sequences in UTF-8, as in Go. Each function is written for the arguments the program
  passes; the laws the components rest on follow it.
\<close>

subsection \<open>Prefixes and containment\<close>

definition HasPrefix :: "string \<Rightarrow> string \<Rightarrow> bool" where
  "HasPrefix s p = prefix p s"

definition TrimPrefix :: "string \<Rightarrow> string \<Rightarrow> string" where
  "TrimPrefix s p = (if prefix p s then drop (length p) s else s)"

definition Contains :: "string \<Rightarrow> string \<Rightarrow> bool" where
  "Contains s sub = sublist sub s"

declare HasPrefix_def [go_simps] TrimPrefix_def [go_simps] Contains_def [go_simps]

lemma HasPrefix_append [simp]: "HasPrefix (p @ s) p"
  by (simp add: HasPrefix_def)

lemma TrimPrefix_append [simp]: "TrimPrefix (p @ s) p = s"
  by (simp add: TrimPrefix_def)

lemma HasPrefix_TrimPrefix: "HasPrefix s p \<Longrightarrow> s = p @ TrimPrefix s p"
  by (simp add: HasPrefix_def TrimPrefix_def prefix_refl_drop)

subsection \<open>Splitting at a one-byte separator\<close>

fun Split :: "char \<Rightarrow> string \<Rightarrow> string list" where
  "Split d [] = [[]]"
| "Split d (c # cs) =
     (if c = d then [] # Split d cs
      else (case Split d cs of [] \<Rightarrow> [[c]] | p # ps \<Rightarrow> (c # p) # ps))"

fun Join :: "char \<Rightarrow> string list \<Rightarrow> string" where
  "Join d [] = []"
| "Join d [p] = p"
| "Join d (p # q # ps) = p @ d # Join d (q # ps)"

lemma Split_nonempty [simp]: "Split d s \<noteq> []"
  by (induction s) (auto split: list.splits)

lemma Split_no_sep: "d \<notin> set s \<Longrightarrow> Split d s = [s]"
  by (induction s) auto

lemma Split_append_sep: "d \<notin> set a \<Longrightarrow> Split d (a @ d # b) = a # Split d b"
  by (induction a) auto

lemma Join_Split: "Join d (Split d s) = s"
proof (induction s)
  case Nil
  then show ?case by simp
next
  case (Cons c s)
  obtain p ps where "Split d s = p # ps" by (cases "Split d s") auto
  with Cons show ?case by (cases ps) auto
qed

lemma Split_parts_no_sep: "p \<in> set (Split d s) \<Longrightarrow> d \<notin> set p"
  by (induction s arbitrary: p) (auto split: if_splits list.splits)

lemma length_Split: "length (Split d s) = Suc (count_list s d)"
  by (induction s) (auto split: list.splits)

text \<open>\<open>strings.SplitN(s, d, 2)\<close>: the text before and after the first separator.\<close>

fun Cut :: "char \<Rightarrow> string \<Rightarrow> (string \<times> string) option" where
  "Cut d [] = None"
| "Cut d (c # cs) =
     (if c = d then Some ([], cs) else map_option (\<lambda>(a, b). (c # a, b)) (Cut d cs))"

lemma Cut_append_sep: "d \<notin> set a \<Longrightarrow> Cut d (a @ d # b) = Some (a, b)"
  by (induction a) auto

lemma Cut_None_iff: "Cut d s = None \<longleftrightarrow> d \<notin> set s"
  by (induction s) auto

subsection \<open>Replacing all occurrences\<close>

text \<open>
  \<open>strings.ReplaceAll\<close> for a non-empty \<open>old\<close> (the program passes literals): a scan
  from the left that continues after each occurrence it replaces.
\<close>

function ReplaceAll :: "string \<Rightarrow> string \<Rightarrow> string \<Rightarrow> string" where
  "ReplaceAll [] old new = []"
| "ReplaceAll (c # cs) old new =
     (if old \<noteq> [] \<and> prefix old (c # cs)
      then new @ ReplaceAll (drop (length old) (c # cs)) old new
      else c # ReplaceAll cs old new)"
  by pat_completeness auto
termination
  by (relation "measure (\<lambda>(s, old, new). length s)") auto

text \<open>
  A rewriting that keeps the text and replaces disjoint segments of it by \<open>new\<close>.
  \<open>ReplaceAll\<close> is one, and so is every redaction pass; what they have in common is
  proved once for the relation.
\<close>

inductive segs_replaced :: "string \<Rightarrow> string \<Rightarrow> string \<Rightarrow> bool" for new :: string where
  finish: "segs_replaced new [] []"
| keep: "segs_replaced new s t \<Longrightarrow> segs_replaced new (c # s) (c # t)"
| subst: "segs_replaced new s t \<Longrightarrow> segs_replaced new (v @ s) (new @ t)"

lemma ReplaceAll_segs: "segs_replaced new s (ReplaceAll s old new)"
proof (induction s old new rule: ReplaceAll.induct)
  case (1 old new)
  then show ?case by (simp add: segs_replaced.finish)
next
  case (2 c cs old new)
  show ?case
  proof (cases "old \<noteq> [] \<and> prefix old (c # cs)")
    case True
    then have "segs_replaced new (old @ drop (length old) (c # cs))
        (new @ ReplaceAll (drop (length old) (c # cs)) old new)"
      using "2.IH"(1) by (intro segs_replaced.subst) auto
    with True show ?thesis by (metis ReplaceAll.simps(2) prefix_refl_drop)
  next
    case False
    then show ?thesis using "2.IH"(2) by (auto intro: segs_replaced.keep)
  qed
qed

lemma segs_replaced_prefix:
  "segs_replaced (l # n) s t \<Longrightarrow> prefix q t \<Longrightarrow> l \<notin> set q \<Longrightarrow> prefix q s"
proof (induction arbitrary: q rule: segs_replaced.induct)
  case finish
  then show ?case by simp
next
  case (keep s t c)
  then show ?case by (cases q) auto
next
  case (subst s t v)
  then show ?case by (cases q) auto
qed

text \<open>
  A segment replacement whose marker is delimited by two bytes that do not occur in a
  word cannot create an occurrence of that word.
\<close>

lemma segs_replaced_no_new_word:
  assumes "segs_replaced (l # mid @ [r]) s t" "l \<notin> set w" "r \<notin> set w"
    "\<not> sublist w mid" "\<not> sublist w s"
  shows "\<not> sublist w t"
  using assms(1,5)
proof (induction rule: segs_replaced.induct)
  case finish
  then show ?case .
next
  case (keep s t c)
  then have "\<not> sublist w t" by (auto simp: sublist_Cons_right)
  moreover have "\<not> prefix w (c # t)"
  proof
    assume "prefix w (c # t)"
    moreover from this keep.prems have "prefix w (c # s)"
      using segs_replaced_prefix [OF segs_replaced.keep [OF keep.hyps]] assms(2) by blast
    ultimately show False using keep.prems by (auto simp: sublist_Cons_right)
  qed
  ultimately show ?case by (auto simp: sublist_Cons_right)
next
  case (subst s t v)
  then have "\<not> sublist w s" by (auto simp: sublist_append)
  with subst.IH have "\<not> sublist w t" by blast
  moreover have "\<not> sublist w []" using assms(4) by (metis sublist_Nil_left sublist_Nil_right)
  ultimately show ?case
    using sublist_append_char [OF assms(2), of "[]" "mid @ r # t"]
      sublist_append_char [OF assms(3), of mid t] assms(4) by simp
qed

text \<open>No occurrence of \<open>old\<close> is left, if the replacement cannot take part in one.\<close>

lemma ReplaceAll_removes:
  assumes "old \<noteq> []" "l \<notin> set old" "r \<notin> set old" "\<not> sublist old mid"
  shows "\<not> sublist old (ReplaceAll s old (l # mid @ [r]))"
  using assms
proof (induction s old "l # mid @ [r]" rule: ReplaceAll.induct)
  case (1 old)
  then show ?case by simp
next
  case (2 c cs old)
  show ?case
  proof (cases "prefix old (c # cs)")
    case True
    have "\<not> sublist old (ReplaceAll (drop (length old) (c # cs)) old (l # mid @ [r]))"
      using "2.hyps"(1) True "2.prems" by blast
    with True "2.prems" show ?thesis
      using sublist_append_char [OF "2.prems"(2), of "[]"]
        sublist_append_char [OF "2.prems"(3), of mid] by simp
  next
    case False
    let ?t = "ReplaceAll cs old (l # mid @ [r])"
    have "\<not> sublist old ?t" using "2.hyps"(2) False "2.prems" by blast
    moreover have "\<not> prefix old (c # ?t)"
      using segs_replaced_prefix [OF segs_replaced.keep [OF ReplaceAll_segs]] False "2.prems"(2)
      by blast
    ultimately show ?thesis using False by (auto simp: sublist_Cons_right)
  qed
qed

subsection \<open>Trimming\<close>

text \<open>The UTF-8 encodings of the runes that \<open>unicode.IsSpace\<close> accepts.\<close>

definition white_runes :: "string list" where
  "white_runes =
    [[CHR 0x09], [CHR 0x0A], [CHR 0x0B], [CHR 0x0C], [CHR 0x0D], [CHR 0x20],
     [CHR 0xC2, CHR 0x85], [CHR 0xC2, CHR 0xA0], [CHR 0xE1, CHR 0x9A, CHR 0x80],
     [CHR 0xE2, CHR 0x80, CHR 0x80], [CHR 0xE2, CHR 0x80, CHR 0x81],
     [CHR 0xE2, CHR 0x80, CHR 0x82], [CHR 0xE2, CHR 0x80, CHR 0x83],
     [CHR 0xE2, CHR 0x80, CHR 0x84], [CHR 0xE2, CHR 0x80, CHR 0x85],
     [CHR 0xE2, CHR 0x80, CHR 0x86], [CHR 0xE2, CHR 0x80, CHR 0x87],
     [CHR 0xE2, CHR 0x80, CHR 0x88], [CHR 0xE2, CHR 0x80, CHR 0x89],
     [CHR 0xE2, CHR 0x80, CHR 0x8A], [CHR 0xE2, CHR 0x80, CHR 0xA8],
     [CHR 0xE2, CHR 0x80, CHR 0xA9], [CHR 0xE2, CHR 0x80, CHR 0xAF],
     [CHR 0xE2, CHR 0x81, CHR 0x9F], [CHR 0xE3, CHR 0x80, CHR 0x80]]"

lemma white_runes_nonempty: "w \<in> set white_runes \<Longrightarrow> w \<noteq> []"
  by (auto simp: white_runes_def)

function trim_front :: "string list \<Rightarrow> string \<Rightarrow> string" where
  "trim_front ws s =
     (case find (\<lambda>w. w \<noteq> [] \<and> prefix w s) ws of
        None \<Rightarrow> s
      | Some w \<Rightarrow> trim_front ws (drop (length w) s))"
  by pat_completeness auto
termination
proof (relation "measure (\<lambda>(ws, s). length s)", goal_cases)
  case 1
  then show ?case by simp
next
  case (2 ws s w)
  then have "w \<noteq> []" "prefix w s" by (auto simp: find_Some_iff)
  then have "0 < length w" "length w \<le> length s" by (auto dest: prefix_length_le)
  then show ?case by (simp, linarith)
qed

declare trim_front.simps [simp del]

lemma trim_front_None:
  "find (\<lambda>w. w \<noteq> [] \<and> prefix w s) ws = None \<Longrightarrow> trim_front ws s = s"
  by (simp add: trim_front.simps [of ws s])

lemma trim_front_Some:
  "find (\<lambda>w. w \<noteq> [] \<and> prefix w s) ws = Some w \<Longrightarrow>
     trim_front ws s = trim_front ws (drop (length w) s)"
  by (simp add: trim_front.simps [of ws s])

definition TrimSpace :: "string \<Rightarrow> string" where
  "TrimSpace s =
     rev (trim_front (map rev white_runes) (rev (trim_front white_runes s)))"

text \<open>\<open>strings.Trim\<close> and \<open>strings.TrimRight\<close> with a cutset of one-byte characters.\<close>

definition TrimRight :: "string \<Rightarrow> string \<Rightarrow> string" where
  "TrimRight s cs = rev (dropWhile (\<lambda>c. c \<in> set cs) (rev s))"

definition Trim :: "string \<Rightarrow> string \<Rightarrow> string" where
  "Trim s cs = TrimRight (dropWhile (\<lambda>c. c \<in> set cs) s) cs"

text \<open>After trimming the front, no word of the list starts the text.\<close>

lemma trim_front_no_prefix:
  "w \<in> set ws \<Longrightarrow> w \<noteq> [] \<Longrightarrow> \<not> prefix w (trim_front ws s)"
proof (induction ws s rule: trim_front.induct)
  case (1 ws s)
  show ?case
  proof (cases "find (\<lambda>w. w \<noteq> [] \<and> prefix w s) ws")
    case None
    with "1.prems" show ?thesis unfolding trim_front_None [OF None] by (auto simp: find_None_iff)
  next
    case (Some v)
    with 1 show ?thesis by (simp add: trim_front_Some)
  qed
qed

lemma trim_front_id:
  "(\<And>w. w \<in> set ws \<Longrightarrow> w \<noteq> [] \<Longrightarrow> \<not> prefix w s) \<Longrightarrow> trim_front ws s = s"
  by (rule trim_front_None) (auto simp: find_None_iff)

lemma trim_front_suffix: "suffix (trim_front ws s) s"
proof (induction ws s rule: trim_front.induct)
  case (1 ws s)
  show ?case
  proof (cases "find (\<lambda>w. w \<noteq> [] \<and> prefix w s) ws")
    case None
    then show ?thesis by (simp add: trim_front_None)
  next
    case (Some w)
    with 1 have "suffix (trim_front ws (drop (length w) s)) (drop (length w) s)" by simp
    then show ?thesis
      unfolding trim_front_Some [OF Some] by (meson suffix_drop suffix_order.trans)
  qed
qed

text \<open>A text that is trimmed away entirely ends in a word of the list.\<close>

lemma trim_front_Nil_suffix:
  "trim_front ws s = [] \<Longrightarrow> s \<noteq> [] \<Longrightarrow> \<exists>w \<in> set ws. w \<noteq> [] \<and> suffix w s"
proof (induction ws s rule: trim_front.induct)
  case (1 ws s)
  show ?case
  proof (cases "find (\<lambda>w. w \<noteq> [] \<and> prefix w s) ws")
    case None
    with "1.prems" show ?thesis by (simp add: trim_front.simps [of ws s])
  next
    case (Some w)
    then have w: "w \<in> set ws" "w \<noteq> []" "prefix w s"
      by (auto simp: find_Some_iff in_set_conv_nth)
    with Some "1.prems" have rest: "trim_front ws (drop (length w) s) = []"
      by (simp add: trim_front.simps [of ws s])
    show ?thesis
    proof (cases "drop (length w) s = []")
      case True
      with w(3) have "s = w" by (metis append_Nil2 prefix_refl_drop)
      with w show ?thesis by blast
    next
      case False
      with "1.IH" [OF Some rest] obtain v where
        "v \<in> set ws" "v \<noteq> []" "suffix v (drop (length w) s)" by blast
      then show ?thesis by (meson suffix_drop suffix_order.trans)
    qed
  qed
qed

lemma TrimSpace_Nil [simp]: "TrimSpace [] = []"
  by (simp add: TrimSpace_def trim_front_id)

text \<open>What \<open>TrimSpace\<close> returns does not end in white space.\<close>

lemma TrimSpace_no_white_suffix:
  assumes "w \<in> set white_runes"
  shows "\<not> suffix w (TrimSpace s)"
proof -
  have "\<not> prefix (rev w) (trim_front (map rev white_runes) (rev (trim_front white_runes s)))"
    using assms white_runes_nonempty [OF assms] by (intro trim_front_no_prefix) auto
  then show ?thesis by (simp add: TrimSpace_def suffix_to_prefix)
qed

text \<open>A blank text that is not empty ends in white space.\<close>

lemma TrimSpace_blank_suffix:
  assumes "TrimSpace s = []" "s \<noteq> []"
  shows "\<exists>w \<in> set white_runes. suffix w s"
proof (cases "trim_front white_runes s = []")
  case True
  with assms(2) show ?thesis using trim_front_Nil_suffix by blast
next
  case False
  let ?t = "trim_front white_runes s"
  have "trim_front (map rev white_runes) (rev ?t) = []"
    using assms(1) by (simp add: TrimSpace_def)
  then obtain w where w: "w \<in> set white_runes" "prefix (rev w) (rev ?t)"
    using trim_front_id [of "map rev white_runes" "rev ?t"] False
    by (metis (no_types, lifting) image_iff rev_is_Nil_conv set_map)
  then have "suffix w ?t" by (simp add: suffix_to_prefix)
  with w(1) show ?thesis using trim_front_suffix suffix_order.trans by blast
qed

text \<open>A non-empty suffix of trimmed text is not blank.\<close>

lemma TrimSpace_suffix_not_blank:
  assumes "TrimSpace s = a @ b" "b \<noteq> []"
  shows "TrimSpace b \<noteq> []"
proof
  assume "TrimSpace b = []"
  then obtain w where "w \<in> set white_runes" "suffix w b"
    using TrimSpace_blank_suffix assms(2) by blast
  with assms(1) TrimSpace_no_white_suffix [of w s] show False
    by (auto simp: suffix_def)
qed

end
