(* ===== verification/Cask_Encode.thy ===== *)
theory Cask_Encode
  imports Cask_Strings
begin

text \<open>
  Letter case, decimal integers (\<open>strconv\<close> and \<open>fmt\<close>'s \<open>%d\<close>), \<open>encoding/hex\<close>
  and the unpadded URL alphabet of \<open>encoding/base64\<close>, with the round trips and the
  facts about their alphabets that the token format rests on.
\<close>

subsection \<open>Letter case\<close>

definition code :: "char \<Rightarrow> nat" where
  "code c = of_char c"

lemma code_less_256 [simp]: "code c < 256"
  by (simp add: code_def)

lemma code_eq_iff [simp]: "code a = code b \<longleftrightarrow> a = b"
  by (simp add: code_def)

definition lower :: "char \<Rightarrow> char" where
  "lower c = (if 65 \<le> code c \<and> code c \<le> 90 then char_of (code c + 32) else c)"

text \<open>
  \<open>strings.ToLower\<close>. Two runes beyond ASCII have an ASCII lower case: U+212A (Kelvin
  sign, \<open>E2 84 AA\<close>) and U+0130 (\<open>C4 B0\<close>). The lower case of any other rune beyond
  ASCII is again beyond ASCII; such runes are kept here, which is exact for what the
  program asks of the result (does it contain a given ASCII word).
\<close>

fun ToLower :: "string \<Rightarrow> string" where
  "ToLower (a # b # c # s) =
     (if a = CHR 0xE2 \<and> b = CHR 0x84 \<and> c = CHR 0xAA then CHR ''k'' # ToLower s
      else if a = CHR 0xC4 \<and> b = CHR 0xB0 then CHR ''i'' # ToLower (c # s)
      else lower a # ToLower (b # c # s))"
| "ToLower [a, b] =
     (if a = CHR 0xC4 \<and> b = CHR 0xB0 then ''i'' else [lower a, lower b])"
| "ToLower [a] = [lower a]"
| "ToLower [] = []"

text \<open>
  Simple case folding, as \<open>strings.EqualFold\<close> and the \<open>(?i)\<close> flag of \<open>regexp\<close>
  use it against ASCII letters: besides the two ASCII cases, \<open>k\<close> matches U+212A and
  \<open>s\<close> matches U+017F (\<open>C5 BF\<close>). \<open>fold_head\<close> takes one folded character off a text.
\<close>

fun fold_head :: "string \<Rightarrow> (char \<times> string) option" where
  "fold_head [] = None"
| "fold_head (c # cs) =
     (if c = CHR 0xE2 \<and> prefix [CHR 0x84, CHR 0xAA] cs then Some (CHR ''k'', drop 2 cs)
      else if c = CHR 0xC5 \<and> prefix [CHR 0xBF] cs then Some (CHR ''s'', drop 1 cs)
      else Some (lower c, cs))"

lemma fold_head_length: "fold_head s = Some (c, r) \<Longrightarrow> length r < length s"
  by (cases s) (auto split: if_splits)

text \<open>\<open>eat_ci w s\<close>: the text after \<open>w\<close> (given in lower case) at the front of \<open>s\<close>.\<close>

fun eat_ci :: "string \<Rightarrow> string \<Rightarrow> string option" where
  "eat_ci [] s = Some s"
| "eat_ci (p # ps) s =
     (case fold_head s of
        Some (c, r) \<Rightarrow> (if c = p then eat_ci ps r else None)
      | None \<Rightarrow> None)"

definition EqualFold :: "string \<Rightarrow> string \<Rightarrow> bool" where
  \<comment> \<open>\<open>w\<close> is an ASCII constant in the program\<close>
  "EqualFold s w = (eat_ci (map lower w) s = Some [])"

text \<open>Against a text without the lead bytes of the two special runes it compares letter by letter.\<close>

definition no_special_rune :: "string \<Rightarrow> bool" where
  "no_special_rune s \<longleftrightarrow> list_all (\<lambda>c. c \<noteq> CHR 0xE2 \<and> c \<noteq> CHR 0xC5) s"

lemma eat_ci_plain: "no_special_rune s \<Longrightarrow> (eat_ci w s = Some []) = (map lower s = w)"
proof (induction w arbitrary: s)
  case (Cons p ps)
  then show ?case by (cases s) (auto simp: no_special_rune_def)
qed auto

lemma EqualFold_plain: "no_special_rune s \<Longrightarrow> EqualFold s w = (map lower s = map lower w)"
  by (simp add: EqualFold_def eat_ci_plain)

lemma eat_ci_length: "eat_ci w s = Some r \<Longrightarrow> length r + length w \<le> length s"
proof (induction w arbitrary: s)
  case Nil
  then show ?case by simp
next
  case (Cons p w)
  then obtain c r' where "fold_head s = Some (c, r')" "eat_ci w r' = Some r"
    by (auto split: option.splits if_splits)
  with Cons.IH [of r'] fold_head_length show ?case by fastforce
qed

subsection \<open>Decimal integers\<close>

definition digit :: "int \<Rightarrow> char" where
  "digit d = char_of (nat (48 + d))"

definition is_digit :: "char \<Rightarrow> bool" where
  "is_digit c \<longleftrightarrow> 48 \<le> code c \<and> code c \<le> 57"

definition digit_value :: "char \<Rightarrow> int" where
  "digit_value c = int (code c) - 48"

text \<open>The decimal digits of a non-negative integer.\<close>

function FormatUint :: "int \<Rightarrow> string" where
  "FormatUint n = (if n < 10 then [digit n] else FormatUint (n div 10) @ [digit (n mod 10)])"
  by pat_completeness auto
termination
  by (relation "measure nat") auto

declare FormatUint.simps [simp del]

text \<open>\<open>strconv.FormatInt(n, 10)\<close>, and \<open>fmt\<close>'s \<open>%d\<close>.\<close>

definition FormatInt :: "int \<Rightarrow> string" where
  "FormatInt n = (if n < 0 then CHR ''-'' # FormatUint (- n) else FormatUint n)"

fun parse_digits :: "int \<Rightarrow> string \<Rightarrow> int option" where
  "parse_digits acc [] = Some acc"
| "parse_digits acc (c # cs) =
     (if is_digit c then parse_digits (10 * acc + digit_value c) cs else None)"

text \<open>
  \<open>strconv.ParseInt(s, 10, 64)\<close>: an optional sign, at least one digit, nothing else, and
  a value that fits 64 bits; \<open>None\<close> is the error.
\<close>

definition ParseUint :: "string \<Rightarrow> int option" where
  "ParseUint s = (if s = [] then None else parse_digits 0 s)"

definition ParseInt :: "string \<Rightarrow> int option" where
  "ParseInt s =
     (let neg = (s \<noteq> [] \<and> hd s = CHR ''-'');
          body = (if s \<noteq> [] \<and> (hd s = CHR ''-'' \<or> hd s = CHR ''+'') then tl s else s)
      in case ParseUint body of
           None \<Rightarrow> None
         | Some n \<Rightarrow>
             (if neg then (if n \<le> 2 ^ 63 then Some (- n) else None)
              else (if n < 2 ^ 63 then Some n else None)))"

lemma code_digit: "0 \<le> d \<Longrightarrow> d < 10 \<Longrightarrow> code (digit d) = nat (48 + d)"
  by (simp add: code_def digit_def)

lemma is_digit_digit: "0 \<le> d \<Longrightarrow> d < 10 \<Longrightarrow> is_digit (digit d)"
  by (simp add: is_digit_def code_digit) linarith

lemma digit_value_digit: "0 \<le> d \<Longrightarrow> d < 10 \<Longrightarrow> digit_value (digit d) = d"
  by (simp add: digit_value_def code_digit)

lemma digit_value_nonneg: "is_digit c \<Longrightarrow> 0 \<le> digit_value c"
  by (simp add: is_digit_def digit_value_def)

lemma FormatUint_digits: "0 \<le> n \<Longrightarrow> \<forall>c \<in> set (FormatUint n). is_digit c"
proof (induction n rule: FormatUint.induct)
  case (1 n)
  then show ?case by (subst FormatUint.simps) (auto simp: is_digit_digit)
qed

lemma FormatUint_nonempty: "FormatUint n \<noteq> []"
  by (subst FormatUint.simps) simp

lemma parse_digits_append:
  "parse_digits acc (s @ t) = Option.bind (parse_digits acc s) (\<lambda>a. parse_digits a t)"
  by (induction s arbitrary: acc) auto

lemma parse_digits_nonneg: "parse_digits acc s = Some n \<Longrightarrow> 0 \<le> acc \<Longrightarrow> 0 \<le> n"
  by (induction s arbitrary: acc) (auto simp: digit_value_nonneg split: if_splits)

lemma parse_FormatUint: "0 \<le> n \<Longrightarrow> parse_digits 0 (FormatUint n) = Some n"
proof (induction n rule: FormatUint.induct)
  case (1 n)
  show ?case
  proof (cases "n < 10")
    case True
    with 1 show ?thesis
      by (subst FormatUint.simps) (simp add: is_digit_digit digit_value_digit)
  next
    case False
    with 1 show ?thesis
      by (subst FormatUint.simps)
        (simp add: parse_digits_append is_digit_digit digit_value_digit)
  qed
qed

lemma not_is_digit: "\<not> is_digit (CHR ''-'')" "\<not> is_digit (CHR ''+'')" "\<not> is_digit (CHR ''.'')"
  by (simp_all add: is_digit_def code_def)

lemma FormatUint_hd:
  "0 \<le> n \<Longrightarrow> hd (FormatUint n) \<noteq> CHR ''-'' \<and> hd (FormatUint n) \<noteq> CHR ''+''"
  using FormatUint_digits [of n] hd_in_set [OF FormatUint_nonempty, of n] not_is_digit
  by metis

lemma ParseInt_FormatInt:
  assumes "- (2 ^ 63) \<le> n" "n < 2 ^ 63"
  shows "ParseInt (FormatInt n) = Some n"
proof (cases "n < 0")
  case True
  with assms show ?thesis
    by (simp add: ParseInt_def FormatInt_def ParseUint_def FormatUint_nonempty parse_FormatUint)
next
  case False
  with assms show ?thesis
    by (simp add: ParseInt_def FormatInt_def ParseUint_def FormatUint_nonempty parse_FormatUint
        FormatUint_hd)
qed

lemma FormatInt_no_dot: "CHR ''.'' \<notin> set (FormatInt n)"
proof -
  have "CHR ''.'' \<notin> set (FormatUint m)" if "0 \<le> m" for m
    using FormatUint_digits [OF that] not_is_digit(3) by blast
  then show ?thesis by (simp add: FormatInt_def)
qed

lemma ParseInt_bounds:
  "ParseInt s = Some n \<Longrightarrow> - (2 ^ 63) \<le> n \<and> n < 2 ^ 63"
  by (auto simp: ParseInt_def ParseUint_def Let_def dest!: parse_digits_nonneg
      split: option.splits if_splits)

subsection \<open>Hexadecimal\<close>

definition hex_digit :: "nat \<Rightarrow> char" where
  "hex_digit n = ''0123456789abcdef'' ! n"

definition EncodeHex :: "string \<Rightarrow> string" where
  "EncodeHex bs = concat (map (\<lambda>b. [hex_digit (code b div 16), hex_digit (code b mod 16)]) bs)"

lemma hex_digit_set: "n < 16 \<Longrightarrow> hex_digit n \<in> set ''0123456789abcdef''"
  unfolding hex_digit_def by (rule nth_mem) simp

lemma EncodeHex_set: "set (EncodeHex bs) \<subseteq> set ''0123456789abcdef''"
proof (induction bs)
  case Nil
  then show ?case by (simp add: EncodeHex_def)
next
  case (Cons b bs)
  have "code b div 16 < 16" using code_less_256 [of b] by linarith
  then have "hex_digit (code b div 16) \<in> set ''0123456789abcdef''" by (rule hex_digit_set)
  moreover have "hex_digit (code b mod 16) \<in> set ''0123456789abcdef''"
    by (rule hex_digit_set) simp
  ultimately show ?case using Cons by (simp add: EncodeHex_def)
qed

lemma length_EncodeHex: "length (EncodeHex bs) = 2 * length bs"
  by (induction bs) (auto simp: EncodeHex_def)

subsection \<open>Base64, URL alphabet, no padding\<close>

definition b64_alphabet :: string where
  "b64_alphabet = ''ABCDEFGHIJKLMNOPQRSTUVWXYZabcdefghijklmnopqrstuvwxyz0123456789-_''"

definition b64_char :: "nat \<Rightarrow> char" where
  "b64_char n = b64_alphabet ! n"

fun base64 :: "string \<Rightarrow> string" where
  "base64 [] = []"
| "base64 [a] = [b64_char (code a div 4), b64_char (code a mod 4 * 16)]"
| "base64 [a, b] =
     [b64_char (code a div 4), b64_char (code a mod 4 * 16 + code b div 16),
      b64_char (code b mod 16 * 4)]"
| "base64 (a # b # c # r) =
     b64_char (code a div 4) # b64_char (code a mod 4 * 16 + code b div 16) #
     b64_char (code b mod 16 * 4 + code c div 64) # b64_char (code c mod 64) # base64 r"

lemma b64_alphabet_length: "length b64_alphabet = 64"
  by (simp add: b64_alphabet_def)

lemma b64_alphabet_distinct: "distinct b64_alphabet"
  unfolding b64_alphabet_def by code_simp

lemma b64_char_inj: "m < 64 \<Longrightarrow> n < 64 \<Longrightarrow> b64_char m = b64_char n \<longleftrightarrow> m = n"
  by (simp add: b64_char_def nth_eq_iff_index_eq b64_alphabet_distinct b64_alphabet_length)

lemma b64_char_set: "n < 64 \<Longrightarrow> b64_char n \<in> set b64_alphabet"
  by (simp add: b64_char_def b64_alphabet_length)

text \<open>The four sextets of three bytes are below 64, and mixed-radix digits are unique.\<close>

lemma sextet_bounds:
  "code a div 4 < 64" "code a mod 4 * 16 < 64" "code a mod 4 * 16 + code b div 16 < 64"
  "code a mod 16 * 4 < 64" "code a mod 16 * 4 + code b div 64 < 64" "code a mod 64 < 64"
proof -
  have "code a < 256" "code b < 256" by simp_all
  then have "code a div 4 < 64" "code b div 16 < 16" "code b div 64 < 4" by linarith+
  moreover have "code a mod 4 \<le> 3" "code a mod 16 \<le> 15" "code a mod 64 < 64" by simp_all
  ultimately show "code a div 4 < 64" "code a mod 4 * 16 < 64"
    "code a mod 4 * 16 + code b div 16 < 64" "code a mod 16 * 4 < 64"
    "code a mod 16 * 4 + code b div 64 < 64" "code a mod 64 < 64"
    by linarith+
qed

lemma radix_unique:
  fixes k :: nat
  assumes "x * k + q = x' * k + q'" "q < k" "q' < k"
  shows "x = x' \<and> q = q'"
proof -
  have "x = (x * k + q) div k" "x' = (x' * k + q') div k" using assms(2,3) by simp_all
  with assms(1) have "x = x'" by simp
  with assms(1) show ?thesis by simp
qed

lemma div_mod_eqI: "a div k = b div k \<Longrightarrow> a mod k = b mod k \<Longrightarrow> a = (b :: nat)"
  by (metis div_mult_mod_eq)

lemma base64_set: "set (base64 s) \<subseteq> set b64_alphabet"
  by (induction s rule: base64.induct) (simp_all add: b64_char_set sextet_bounds)

text \<open>Distinct byte strings have distinct encodings.\<close>

lemma sextet_step:
  assumes "code a div 4 = code a' div 4"
    "code a mod 4 * 16 + code b div 16 = code a' mod 4 * 16 + code b' div 16"
  shows "a = a' \<and> code b div 16 = code b' div 16"
proof -
  have "code b div 16 < 16" "code b' div 16 < 16"
    using code_less_256 [of b] code_less_256 [of b'] by linarith+
  with radix_unique [OF assms(2)] have "code a mod 4 = code a' mod 4" "code b div 16 = code b' div 16"
    by simp_all
  with assms(1) div_mod_eqI [of "code a" 4 "code a'"] show ?thesis by simp
qed

lemma sextet_last:
  assumes "code b div 16 = code b' div 16"
    "code b mod 16 * 4 + code c div 64 = code b' mod 16 * 4 + code c' div 64"
    "code c mod 64 = code c' mod 64"
  shows "b = b' \<and> c = c'"
proof -
  have "code c div 64 < 4" "code c' div 64 < 4"
    using code_less_256 [of c] code_less_256 [of c'] by linarith+
  with radix_unique [OF assms(2)] have "code b mod 16 = code b' mod 16" "code c div 64 = code c' div 64"
    by simp_all
  with assms div_mod_eqI [of "code b" 16 "code b'"] div_mod_eqI [of "code c" 64 "code c'"]
  show ?thesis by simp
qed

lemma base64_inj: "base64 s = base64 t \<Longrightarrow> s = t"
proof (induction s arbitrary: t rule: base64.induct)
  case 1
  then show ?case by (cases t rule: base64.cases) auto
next
  case (2 a)
  then obtain a' where t: "t = [a']" by (cases t rule: base64.cases) auto
  with 2 have "code a div 4 = code a' div 4"
      "code a mod 4 * 16 + 0 div 16 = code a' mod 4 * 16 + 0 div 16"
    by (simp_all add: b64_char_inj sextet_bounds)
  then show ?case using div_mod_eqI [of "code a" 4 "code a'"] t by simp
next
  case (3 a b)
  then obtain a' b' where t: "t = [a', b']" by (cases t rule: base64.cases) auto
  with 3 have eqs: "code a div 4 = code a' div 4"
      "code a mod 4 * 16 + code b div 16 = code a' mod 4 * 16 + code b' div 16"
      "code b mod 16 = code b' mod 16"
    by (simp_all add: b64_char_inj sextet_bounds)
  with sextet_step [OF eqs(1,2)] div_mod_eqI [of "code b" 16 "code b'"] t show ?case by simp
next
  case (4 a b c r)
  then obtain a' b' c' r' where t: "t = a' # b' # c' # r'"
    by (cases t rule: base64.cases) auto
  with 4 have eqs: "code a div 4 = code a' div 4"
      "code a mod 4 * 16 + code b div 16 = code a' mod 4 * 16 + code b' div 16"
      "code b mod 16 * 4 + code c div 64 = code b' mod 16 * 4 + code c' div 64"
      "code c mod 64 = code c' mod 64" "base64 r = base64 r'"
    by (simp_all add: b64_char_inj sextet_bounds)
  with sextet_step [OF eqs(1,2)] sextet_last [OF _ eqs(3,4)] "4.IH" t show ?case by simp
qed

lemma base64_no_dot: "CHR ''.'' \<notin> set (base64 s)"
proof -
  have "CHR ''.'' \<notin> set b64_alphabet" unfolding b64_alphabet_def by simp
  with base64_set show ?thesis by blast
qed

subsection \<open>Quoted strings\<close>

text \<open>
  \<open>%q\<close> writes a Go string literal: quotes and backslashes escaped, control bytes as
  escape sequences. Bytes from 128 on are kept (they are, for printable UTF-8).
\<close>

definition quote_char :: "char \<Rightarrow> string" where
  "quote_char c =
     (if c = CHR 0x22 then [CHR 0x5C, CHR 0x22]
      else if c = CHR 0x5C then [CHR 0x5C, CHR 0x5C]
      else if c = CHR 0x07 then [CHR 0x5C, CHR ''a'']
      else if c = CHR 0x08 then [CHR 0x5C, CHR ''b'']
      else if c = CHR 0x0C then [CHR 0x5C, CHR ''f'']
      else if c = CHR 0x0A then [CHR 0x5C, CHR ''n'']
      else if c = CHR 0x0D then [CHR 0x5C, CHR ''r'']
      else if c = CHR 0x09 then [CHR 0x5C, CHR ''t'']
      else if c = CHR 0x0B then [CHR 0x5C, CHR ''v'']
      else if code c < 32 \<or> code c = 127
        then [CHR 0x5C, CHR ''x'', hex_digit (code c div 16), hex_digit (code c mod 16)]
      else [c])"

definition Quote :: "string \<Rightarrow> string" where
  "Quote s = [CHR 0x22] @ concat (map quote_char s) @ [CHR 0x22]"

end
