(* ===== verification/Cask_Time.thy ===== *)
theory Cask_Time
  imports Cask_Encode "HOL-Library.Monad_Syntax"
begin

text \<open>
  Go's \<open>time.Time\<close> as the program uses it (comparison, \<open>Add\<close>, \<open>Unix\<close>,
  \<open>IsZero\<close>) and its RFC 3339 text form (\<open>Format\<close> and \<open>Parse\<close>), on a proleptic
  Gregorian calendar. A time is an instant in nanoseconds since the Unix epoch together
  with the offset it is displayed in; only the text form looks at the offset. \<open>UnixTime\<close> wraps
  like \<open>time.Unix\<close>, whose seconds are 64 bits wide; \<open>ParseRFC3339\<close> takes all that \<open>time.Parse\<close> takes.
\<close>

record gtime =
  nanos :: int   \<comment> \<open>since 1970-01-01T00:00:00Z\<close>
  zone :: int    \<comment> \<open>minutes east of UTC\<close>

definition After :: "gtime \<Rightarrow> gtime \<Rightarrow> bool" where
  "After t u \<longleftrightarrow> nanos t > nanos u"

definition Before :: "gtime \<Rightarrow> gtime \<Rightarrow> bool" where
  "Before t u \<longleftrightarrow> nanos t < nanos u"

definition Add :: "gtime \<Rightarrow> duration \<Rightarrow> gtime" where
  "Add t d = t\<lparr>nanos := nanos t + sint d\<rparr>"

definition Unix :: "gtime \<Rightarrow> int" where
  "Unix t = nanos t div 1000000000"

definition UTC :: "gtime \<Rightarrow> gtime" where
  "UTC t = t\<lparr>zone := 0\<rparr>"

text \<open>
  \<open>time.Unix(s, 0).UTC()\<close>. Go counts the seconds from the start of year 1 in 64 bits, so the
  sum wraps around for an \<open>s\<close> within 62135596800 seconds of the largest one.
\<close>

definition UnixTime :: "int \<Rightarrow> gtime" where
  "UnixTime s =
     (let internal = (s + 62135596800 + 2 ^ 63) mod 2 ^ 64 - 2 ^ 63
      in \<lparr>nanos = (internal - 62135596800) * 1000000000, zone = 0\<rparr>)"

lemma UnixTime_exact:
  assumes "- (2 ^ 63) \<le> s" "s < 2 ^ 63 - 62135596800"
  shows "UnixTime s = \<lparr>nanos = s * 1000000000, zone = 0\<rparr>"
proof -
  have "(s + 62135596800 + 2 ^ 63) mod 2 ^ 64 = s + 62135596800 + 2 ^ 63"
    using assms by (intro mod_pos_pos_trivial) simp_all
  then show ?thesis by (simp add: UnixTime_def)
qed

lemma UnixTime_le:
  assumes "- (2 ^ 63) \<le> s"
  shows "nanos (UnixTime s) \<le> s * 1000000000"
proof -
  have "(s + 62135596800 + 2 ^ 63) mod 2 ^ 64 \<le> s + 62135596800 + 2 ^ 63"
    using assms by (intro zmod_le_nonneg_dividend) simp
  then show ?thesis by (simp add: UnixTime_def)
qed

text \<open>The zero \<open>time.Time\<close> is the start of year 1.\<close>

definition zero_time :: gtime where
  "zero_time = \<lparr>nanos = - 62135596800 * 1000000000, zone = 0\<rparr>"

definition IsZero :: "gtime \<Rightarrow> bool" where
  "IsZero t \<longleftrightarrow> nanos t = nanos zero_time"

definition Second :: duration where "Second = 1000000000"
definition Minute :: duration where "Minute = 60 * Second"
definition Hour :: duration where "Hour = 60 * Minute"

text \<open>\<open>time.Duration(n) * time.Second\<close> wraps around at 64 bits; in range it is exact.\<close>

definition seconds :: "int64 \<Rightarrow> duration" where
  "seconds n = n * Second"

lemma sint_Second [simp]: "sint Second = 1000000000"
  by (simp add: Second_def)

lemma sint_seconds:
  assumes "- 9223372036 \<le> sint n" "sint n \<le> 9223372036"
  shows "sint (seconds n) = sint n * 1000000000"
  unfolding seconds_def using assms by (subst sint_mult_fits) auto

subsection \<open>The calendar\<close>

definition leap :: "int \<Rightarrow> bool" where
  "leap y \<longleftrightarrow> y mod 4 = 0 \<and> y mod 100 \<noteq> 0 \<or> y mod 400 = 0"

definition year_len :: "int \<Rightarrow> int" where
  "year_len y = (if leap y then 366 else 365)"

definition month_len :: "int \<Rightarrow> int \<Rightarrow> int" where
  "month_len y m =
     (if m = 2 then (if leap y then 29 else 28)
      else if m = 4 \<or> m = 6 \<or> m = 9 \<or> m = 11 then 30 else 31)"

lemma year_len_pos: "0 < year_len y" by (simp add: year_len_def)
lemma month_len_pos: "0 < month_len y m" by (simp add: month_len_def)

text \<open>Days before the \<open>k\<close>-th year after \<open>y\<close>, and before month \<open>k + 1\<close> of a year.\<close>

fun days_before_year :: "int \<Rightarrow> nat \<Rightarrow> int" where
  "days_before_year y 0 = 0"
| "days_before_year y (Suc k) = days_before_year y k + year_len (y + int k)"

fun days_before_month :: "int \<Rightarrow> nat \<Rightarrow> int" where
  "days_before_month y 0 = 0"
| "days_before_month y (Suc k) = days_before_month y k + month_len y (1 + int k)"

text \<open>The year (month) that a day count from the start of a year (of January) falls in.\<close>

function find_year :: "int \<Rightarrow> int \<Rightarrow> int \<times> int" where
  "find_year y d = (if d < year_len y then (y, d) else find_year (y + 1) (d - year_len y))"
  by pat_completeness auto
termination
  by (relation "measure (\<lambda>(y, d). nat d)")
    (auto simp: year_len_def split: if_splits)

function find_month :: "int \<Rightarrow> int \<Rightarrow> int \<Rightarrow> int \<times> int" where
  "find_month y m d =
     (if d < month_len y m then (m, d) else find_month y (m + 1) (d - month_len y m))"
  by pat_completeness auto
termination
  by (relation "measure (\<lambda>(y, m, d). nat d)")
    (auto simp: month_len_def split: if_splits)

declare find_year.simps [simp del] find_month.simps [simp del]

text \<open>400 years have 146097 days; counting restarts from 1970 in each such cycle.\<close>

definition civil :: "int \<Rightarrow> int \<times> int \<times> int" where
  "civil days =
     (let (y, dy) = find_year (1970 + 400 * (days div 146097)) (days mod 146097);
          (m, dm) = find_month y 1 dy
      in (y, m, dm + 1))"

definition days_of :: "int \<Rightarrow> int \<Rightarrow> int \<Rightarrow> int" where
  "days_of y m d =
     146097 * ((y - 1970) div 400) + days_before_year 1970 (nat ((y - 1970) mod 400))
     + days_before_month y (nat (m - 1)) + (d - 1)"

lemma leap_cycle: "leap (y + 400 * q) = leap y"
proof -
  have "(y + 4 * (100 * q)) mod 4 = y mod 4" "(y + 100 * (4 * q)) mod 100 = y mod 100"
    by (simp_all only: mod_mult_self2)
  then show ?thesis by (simp add: leap_def)
qed

lemma days_before_year_cycle: "days_before_year (y + 400 * q) k = days_before_year y k"
proof (induction k)
  case 0
  then show ?case by simp
next
  case (Suc k)
  have "leap (y + 400 * q + int k) = leap (y + int k)"
    using leap_cycle [of "y + int k" q] by (simp add: algebra_simps)
  with Suc show ?case by (simp add: year_len_def)
qed

lemma days_before_year_400: "days_before_year 1970 400 = 146097"
  by code_simp

lemma days_before_year_mono: "j \<le> k \<Longrightarrow> days_before_year y j \<le> days_before_year y k"
proof (induction k)
  case 0
  then show ?case by simp
next
  case (Suc k)
  then show ?case using year_len_pos [of "y + int k"] by (cases "j = Suc k") auto
qed

lemma find_year_spec:
  "0 \<le> d \<Longrightarrow> find_year y d = (y', d') \<Longrightarrow>
    y \<le> y' \<and> 0 \<le> d' \<and> d' < year_len y' \<and> d = days_before_year y (nat (y' - y)) + d'"
proof (induction y d rule: find_year.induct)
  case (1 y d)
  show ?case
  proof (cases "d < year_len y")
    case True
    with "1.prems" show ?thesis by (simp add: find_year.simps [of y d])
  next
    case False
    have shift: "days_before_year y (Suc k) = year_len y + days_before_year (y + 1) k" for k
      by (induction k) (simp_all add: algebra_simps)
    from False 1 have IH: "y + 1 \<le> y'" "0 \<le> d'" "d' < year_len y'"
      "d - year_len y = days_before_year (y + 1) (nat (y' - (y + 1))) + d'"
      by (simp_all add: find_year.simps [of y d])
    then have "nat (y' - y) = Suc (nat (y' - (y + 1)))" by simp
    with IH shift [of "nat (y' - (y + 1))"] show ?thesis by simp
  qed
qed

lemma find_month_spec:
  "0 \<le> d \<Longrightarrow> 1 \<le> m \<Longrightarrow> find_month y m d = (m', d') \<Longrightarrow>
    m \<le> m' \<and> 0 \<le> d' \<and> d' < month_len y m' \<and>
    days_before_month y (nat (m - 1)) + d = days_before_month y (nat (m' - 1)) + d'"
proof (induction y m d rule: find_month.induct)
  case (1 y m d)
  show ?case
  proof (cases "d < month_len y m")
    case True
    with "1.prems" show ?thesis by (simp add: find_month.simps [of y m d])
  next
    case False
    have "nat m = Suc (nat (m - 1))" using "1.prems"(2) by simp
    then have "days_before_month y (nat m) = days_before_month y (nat (m - 1)) + month_len y m"
      using "1.prems"(2) by simp
    with False 1 show ?thesis by (simp add: find_month.simps [of y m d])
  qed
qed

lemma days_before_month_13: "days_before_month y 12 = year_len y"
  by (simp add: eval_nat_numeral month_len_def year_len_def)

lemma days_before_month_mono: "j \<le> k \<Longrightarrow> days_before_month y j \<le> days_before_month y k"
proof (induction k)
  case 0
  then show ?case by simp
next
  case (Suc k)
  then show ?case using month_len_pos [of y "1 + int k"] by (cases "j = Suc k") auto
qed

text \<open>The civil date of a day number is a valid date and determines the day number.\<close>

lemma civil_spec:
  assumes "civil days = (y, m, d)"
  shows "days_of y m d = days" "1 \<le> m" "m \<le> 12" "1 \<le> d" "d \<le> month_len y m"
proof -
  define q where "q = days div 146097"
  define r where "r = days mod 146097"
  have r: "0 \<le> r" "r < 146097" by (simp_all add: r_def)
  obtain y' dy where fy: "find_year (1970 + 400 * q) r = (y', dy)" by fastforce
  obtain m' dm where fm: "find_month y' 1 dy = (m', dm)" by fastforce
  from assms fy fm have eqs: "y = y'" "m = m'" "d = dm + 1"
    by (auto simp: civil_def q_def r_def Let_def)
  from find_year_spec [OF r(1) fy] eqs(1)
  have Y: "1970 + 400 * q \<le> y" "0 \<le> dy" "dy < year_len y"
    "r = days_before_year 1970 (nat (y - (1970 + 400 * q))) + dy"
    by (simp_all add: days_before_year_cycle)
  from find_month_spec [OF _ _ fm] Y(2) eqs
  have M: "1 \<le> m" "0 \<le> dm" "dm < month_len y m" "dy = days_before_month y (nat (m - 1)) + dm"
    by simp_all
  have "nat (y - (1970 + 400 * q)) < 400"
  proof (rule ccontr)
    assume "\<not> ?thesis"
    then have "146097 \<le> days_before_year 1970 (nat (y - (1970 + 400 * q)))"
      using days_before_year_mono [of 400 _ 1970] by (simp add: days_before_year_400)
    with Y r show False by linarith
  qed
  then have "y - (1970 + 400 * q) < 400" by linarith
  moreover have "y - 1970 = (y - (1970 + 400 * q)) + q * 400" by simp
  ultimately have "(y - 1970) div 400 = q" "(y - 1970) mod 400 = y - (1970 + 400 * q)"
    using Y(1) by (metis add.commute add_0 diff_ge_0_iff_ge div_mult_self1 div_pos_pos_trivial
        zero_neq_numeral, metis diff_ge_0_iff_ge mod_mult_self1 mod_pos_pos_trivial)
  with Y M eqs have "days_of y m d = 146097 * q + r" by (simp add: days_of_def)
  then show "days_of y m d = days" by (simp add: q_def r_def)
  show "m \<le> 12"
  proof (rule ccontr)
    assume "\<not> m \<le> 12"
    then have "year_len y \<le> days_before_month y (nat (m - 1))"
      using days_before_month_mono [of 12 "nat (m - 1)" y] by (simp add: days_before_month_13)
    with M Y show False by linarith
  qed
  show "1 \<le> m" "1 \<le> d" "d \<le> month_len y m" using M eqs by simp_all
qed

subsection \<open>RFC 3339\<close>

text \<open>\<open>pad w x\<close> writes a non-negative \<open>x\<close> with at least \<open>w\<close> digits.\<close>

definition pad :: "nat \<Rightarrow> int \<Rightarrow> string" where
  "pad w x = (let s = FormatUint x in replicate (w - length s) (CHR ''0'') @ s)"

definition FormatZone :: "int \<Rightarrow> string" where
  "FormatZone z =
     (if z = 0 then ''Z''
      else (if z < 0 then CHR ''-'' else CHR ''+'') #
        pad 2 (\<bar>z\<bar> div 60) @ '':'' @ pad 2 (\<bar>z\<bar> mod 60))"

definition FormatYear :: "int \<Rightarrow> string" where
  "FormatYear y = (if y < 0 then CHR ''-'' # pad 4 (- y) else pad 4 y)"

text \<open>\<open>t.Format(time.RFC3339)\<close>: whole seconds, in the time's own offset.\<close>

definition FormatRFC3339 :: "gtime \<Rightarrow> string" where
  "FormatRFC3339 t =
     (let l = Unix t + 60 * zone t;
          (y, m, d) = civil (l div 86400);
          sec = l mod 86400
      in FormatYear y @ ''-'' @ pad 2 m @ ''-'' @ pad 2 d @ ''T'' @
         pad 2 (sec div 3600) @ '':'' @ pad 2 (sec div 60 mod 60) @ '':'' @ pad 2 (sec mod 60) @
         FormatZone (zone t))"

text \<open>
  \<open>time.Parse(time.RFC3339, s)\<close>, field by field as Go's general parser reads the layout; its
  fast path for strict RFC 3339 text gives the same times. The hour may have one digit, the
  fraction may follow a comma, and an offset may go up to 24 hours and 60 minutes. \<open>None\<close> is
  the error; the day is checked against the month at the end.
\<close>

definition getnum :: "bool \<Rightarrow> string \<Rightarrow> (int \<times> string) option" where
  "getnum fixed s =
     (case s of
        [] \<Rightarrow> None
      | c # r \<Rightarrow>
          (if \<not> is_digit c then None
           else (case r of
                   d # r' \<Rightarrow>
                     (if is_digit d then Some (digit_value c * 10 + digit_value d, r')
                      else if fixed then None else Some (digit_value c, r))
                 | [] \<Rightarrow> (if fixed then None else Some (digit_value c, r)))))"

text \<open>A number within its range, and the separator of the layout that follows it.\<close>

definition numfield :: "bool \<Rightarrow> int \<Rightarrow> int \<Rightarrow> string \<Rightarrow> (int \<times> string) option" where
  "numfield fixed lo hi s =
     (case getnum fixed s of
        Some (x, r) \<Rightarrow> (if lo \<le> x \<and> x \<le> hi then Some (x, r) else None)
      | None \<Rightarrow> None)"

definition skip_char :: "char \<Rightarrow> string \<Rightarrow> string option" where
  "skip_char c s = (case s of x # r \<Rightarrow> (if x = c then Some r else None) | [] \<Rightarrow> None)"

definition getyear :: "string \<Rightarrow> (int \<times> string) option" where
  "getyear s =
     (if length s < 4 then None
      else (case parse_digits 0 (take 4 s) of Some y \<Rightarrow> Some (y, drop 4 s) | None \<Rightarrow> None))"

text \<open>The fraction of a second: the nanoseconds of its first nine digits, and the rest.\<close>

definition ParseFraction :: "string \<Rightarrow> int \<times> string" where
  "ParseFraction s =
     (case s of
        p # c # r \<Rightarrow>
          (if (p = CHR ''.'' \<or> p = CHR '','') \<and> is_digit c then
             (let ds = takeWhile is_digit (c # r); k = take 9 ds in
              (case parse_digits 0 k of
                 Some x \<Rightarrow> (x * 10 ^ (9 - length k), dropWhile is_digit (c # r))
               | None \<Rightarrow> (0, s)))
           else (0, s))
      | _ \<Rightarrow> (0, s))"

definition ParseZone :: "string \<Rightarrow> (int \<times> string) option" where
  "ParseZone s =
     (if take 1 s = ''Z'' then Some (0, drop 1 s)
      else if length s < 6 \<or> s ! 3 \<noteq> CHR '':'' then None
      else do {
        (h, _) \<leftarrow> getnum True (take 2 (drop 1 s));
        (m, _) \<leftarrow> getnum True (take 2 (drop 4 s));
        (if h > 24 \<or> m > 60 then None
         else if s ! 0 = CHR ''+'' then Some (60 * h + m, drop 6 s)
         else if s ! 0 = CHR ''-'' then Some (- (60 * h + m), drop 6 s)
         else None)
      })"

definition ParseRFC3339 :: "string \<Rightarrow> gtime option" where
  "ParseRFC3339 s =
     do {
       (y, s) \<leftarrow> getyear s;
       s \<leftarrow> skip_char (CHR ''-'') s;
       (m, s) \<leftarrow> numfield True 1 12 s;
       s \<leftarrow> skip_char (CHR ''-'') s;
       (d, s) \<leftarrow> getnum True s;
       s \<leftarrow> skip_char (CHR ''T'') s;
       (h, s) \<leftarrow> numfield False 0 23 s;
       s \<leftarrow> skip_char (CHR '':'') s;
       (mi, s) \<leftarrow> numfield True 0 59 s;
       s \<leftarrow> skip_char (CHR '':'') s;
       (sec, s) \<leftarrow> numfield True 0 59 s;
       (let (frac, s) = ParseFraction s in do {
         (z, s) \<leftarrow> ParseZone s;
         (if s \<noteq> [] \<or> d < 1 \<or> month_len y m < d then None
          else Some \<lparr>nanos = (days_of y m d * 86400 + h * 3600 + mi * 60 + sec - 60 * z) * 1000000000
                           + frac,
                     zone = z\<rparr>)
       })
     }"

lemma length_FormatUint: "0 < w \<Longrightarrow> 0 \<le> x \<Longrightarrow> x < 10 ^ w \<Longrightarrow> length (FormatUint x) \<le> w"
proof (induction w arbitrary: x)
  case 0
  then show ?case by simp
next
  case (Suc w)
  show ?case
  proof (cases "x < 10")
    case True
    then show ?thesis by (simp add: FormatUint.simps [of x])
  next
    case False
    with Suc.prems have "0 < w" by (cases w) auto
    moreover have "x div 10 < 10 ^ w" using Suc.prems(3) by simp
    ultimately have "length (FormatUint (x div 10)) \<le> w" using Suc.IH Suc.prems(2) by simp
    with False show ?thesis by (simp add: FormatUint.simps [of x])
  qed
qed

lemma length_pad: "0 < w \<Longrightarrow> 0 \<le> x \<Longrightarrow> x < 10 ^ w \<Longrightarrow> length (pad w x) = w"
  using length_FormatUint [of w x] by (simp add: pad_def Let_def)

lemma parse_zeros: "parse_digits 0 (replicate k (CHR ''0'') @ s) = parse_digits 0 s"
  by (induction k) (simp_all add: is_digit_def digit_value_def code_def)

lemma parse_pad: "0 \<le> x \<Longrightarrow> parse_digits 0 (pad w x) = Some x"
  by (simp add: pad_def Let_def parse_zeros parse_FormatUint)

lemma parse_two: "parse_digits 0 [a, b] = Some x \<Longrightarrow>
    is_digit a \<and> is_digit b \<and> digit_value a * 10 + digit_value b = x"
  by (auto split: if_splits)

lemma getnum_pad:
  assumes "0 \<le> x" "x < 100"
  shows "getnum f (pad 2 x @ s) = Some (x, s)"
proof -
  have "length (pad 2 x) = 2" using assms by (simp add: length_pad)
  then obtain a b where ab: "pad 2 x = [a, b]" by (auto simp: numeral_eq_Suc length_Suc_conv)
  with parse_pad [OF assms(1), of 2] have "parse_digits 0 [a, b] = Some x" by simp
  from parse_two [OF this] show ?thesis by (simp add: ab getnum_def)
qed

lemma numfield_pad:
  "0 \<le> x \<Longrightarrow> x < 100 \<Longrightarrow> lo \<le> x \<Longrightarrow> x \<le> hi \<Longrightarrow> numfield f lo hi (pad 2 x @ s) = Some (x, s)"
  by (simp add: numfield_def getnum_pad)

lemma getyear_pad: "0 \<le> y \<Longrightarrow> y \<le> 9999 \<Longrightarrow> getyear (pad 4 y @ s) = Some (y, s)"
  using length_pad [of 4 y] parse_pad [of y 4] by (simp add: getyear_def)

lemma skip_sep: "skip_char c (c # s) = Some s"
  by (simp add: skip_char_def)

lemma ParseZone_FormatZone:
  assumes "\<bar>z\<bar> < 1440"
  shows "ParseZone (FormatZone z) = Some (z, [])"
proof (cases "z = 0")
  case True
  then show ?thesis by (simp add: ParseZone_def FormatZone_def)
next
  case False
  define h m where "h = \<bar>z\<bar> div 60" and "m = \<bar>z\<bar> mod 60"
  have hm: "0 \<le> h" "h \<le> 23" "0 \<le> m" "m \<le> 59" "60 * h + m = \<bar>z\<bar>"
    using assms by (auto simp: h_def m_def)
  have "length (pad 2 h) = 2" "length (pad 2 m) = 2"
    using hm by (simp_all add: length_pad)
  then obtain a b c d where ab: "pad 2 h = [a, b]" "pad 2 m = [c, d]"
    by (auto simp: numeral_eq_Suc length_Suc_conv)
  have "getnum True [a, b] = Some (h, [])" "getnum True [c, d] = Some (m, [])"
    using getnum_pad [of h True "[]"] getnum_pad [of m True "[]"] hm by (simp_all add: ab)
  moreover have "FormatZone z = (if z < 0 then CHR ''-'' else CHR ''+'') # [a, b] @ '':'' @ [c, d]"
    using False by (simp add: FormatZone_def h_def [symmetric] m_def [symmetric] ab)
  ultimately show ?thesis using hm by (auto simp: ParseZone_def)
qed

lemma ParseFraction_FormatZone: "ParseFraction (FormatZone z) = (0, FormatZone z)"
  by (simp add: ParseFraction_def FormatZone_def split: list.split)

text \<open>
  Formatting and parsing loses the fraction of a second and nothing else, for every time
  whose year has four digits and every offset below a day.
\<close>

lemma ParseRFC3339_FormatRFC3339:
  assumes civ: "civil ((Unix t + 60 * zone t) div 86400) = (y, m, d)"
    and y: "0 \<le> y" "y \<le> 9999" and z: "\<bar>zone t\<bar> < 1440"
  shows "ParseRFC3339 (FormatRFC3339 t) = Some (t\<lparr>nanos := Unix t * 1000000000\<rparr>)"
proof -
  define l sec where "l = Unix t + 60 * zone t" and "sec = l mod 86400"
  define h mi s where "h = sec div 3600" and "mi = sec div 60 mod 60" and "s = sec mod 60"
  note c = civil_spec [OF civ]
  have sec: "0 \<le> sec" "sec < 86400" by (simp_all add: sec_def)
  have "mi < 60" "s < 60" "0 \<le> mi" "0 \<le> s" by (simp_all add: mi_def s_def)
  moreover have "0 \<le> h" "h < 24" unfolding h_def using sec by linarith+
  ultimately have r: "0 \<le> h" "h \<le> 23" "0 \<le> mi" "mi \<le> 59" "0 \<le> s" "s \<le> 59"
    by linarith+
  have "sec div 3600 = sec div 60 div 60" using zdiv_zmult2_eq [of 60 sec 60] by simp
  then have "sec div 60 = h * 60 + mi"
    using div_mult_mod_eq [of "sec div 60" 60] by (simp add: h_def mi_def)
  then have "sec = h * 3600 + mi * 60 + s" using div_mult_mod_eq [of sec 60] s_def by linarith
  then have l: "days_of y m d * 86400 + h * 3600 + mi * 60 + s = l"
    using c(1) div_mult_mod_eq [of l 86400] by (simp add: l_def sec_def)
  have "month_len y m \<le> 31" by (simp add: month_len_def)
  with c have d31: "d \<le> 31" by simp
  have fmt: "FormatRFC3339 t = pad 4 y @ ''-'' @ pad 2 m @ ''-'' @ pad 2 d @ ''T'' @
      pad 2 h @ '':'' @ pad 2 mi @ '':'' @ pad 2 s @ FormatZone (zone t)"
    using civ y by (simp add: FormatRFC3339_def FormatYear_def Let_def l_def sec_def h_def mi_def s_def)
  have "ParseRFC3339 (FormatRFC3339 t) = Some \<lparr>nanos = (l - 60 * zone t) * 1000000000, zone = zone t\<rparr>"
    using c r y d31 unfolding fmt
    by (simp add: ParseRFC3339_def getyear_pad skip_sep numfield_pad getnum_pad
        ParseFraction_FormatZone ParseZone_FormatZone z l [symmetric])
  then show ?thesis by (simp add: l_def)
qed

end
