(* ===== verification/Cask_Types.thy ===== *)
theory Cask_Types
  imports Cask_Time
begin

text \<open>
  \<open>api/v1alpha1/types.go\<close>: the \<open>AgentSession\<close> custom resource, its constants, the
  constructor \<open>NewAgentSession\<close> and the validation of a specification. A Go struct is a
  record whose fields carry the struct's initials (\<open>sp_\<close> for \<open>AgentSessionSpec\<close>,
  \<open>st_\<close> for \<open>AgentSessionStatus\<close>, \<open>m_\<close> for the embedded \<open>ObjectMeta\<close>); a
  \<open>*metav1.Time\<close> is a \<open>gtime option\<close>, a \<open>map[string]string\<close> an association list
  with distinct keys.
\<close>

subsection \<open>Constants\<close>

definition GroupName :: string where "GroupName = ''agentcask.aidev.samsungds.net''"
definition Version :: string where "Version = ''v1alpha1''"
definition Kind :: string where "Kind = ''AgentSession''"
definition Finalizer :: string where "Finalizer = GroupName @ ''/finalizer''"
definition LabelSessionID :: string where "LabelSessionID = GroupName @ ''/session-id''"
definition LabelUserID :: string where "LabelUserID = GroupName @ ''/user-id''"
definition LabelComponent :: string where "LabelComponent = GroupName @ ''/component''"
definition ContainerName :: string where "ContainerName = ''agent''"

definition PhasePending :: string where "PhasePending = ''Pending''"
definition PhaseProvisioning :: string where "PhaseProvisioning = ''Provisioning''"
definition PhaseRunning :: string where "PhaseRunning = ''Running''"
definition PhaseFailed :: string where "PhaseFailed = ''Failed''"
definition PhaseTerminating :: string where "PhaseTerminating = ''Terminating''"
definition PhaseExpired :: string where "PhaseExpired = ''Expired''"

definition ReasonUnsupportedIsolationProfile :: string where
  "ReasonUnsupportedIsolationProfile = ''UnsupportedIsolationProfile''"
definition ReasonRuntimeClassNotFound :: string where
  "ReasonRuntimeClassNotFound = ''RuntimeClassNotFound''"
definition ReasonPodCreateFailed :: string where "ReasonPodCreateFailed = ''PodCreateFailed''"
definition ReasonExpired :: string where "ReasonExpired = ''Expired''"

text \<open>\<open>GroupVersion.String()\<close>\<close>

definition GroupVersion :: string where "GroupVersion = GroupName @ ''/'' @ Version"

lemmas phase_defs [cask_defs] =
  PhasePending_def PhaseProvisioning_def PhaseRunning_def PhaseFailed_def
  PhaseTerminating_def PhaseExpired_def

definition AllowedTools :: "string set" where
  "AllowedTools =
     {''opencode'', ''claude-code'', ''codex'', ''openclaw'', ''hermes'', ''stub''}"

definition AllowedModelRefs :: "string set" where
  "AllowedModelRefs = {''default''}"

definition AllowedResourceProfiles :: "string set" where
  "AllowedResourceProfiles = {''small'', ''medium'', ''large''}"

definition AllowedIsolationProfiles :: "string set" where
  "AllowedIsolationProfiles = {''default'', ''kata''}"

lemmas allowed_defs [cask_defs] =
  AllowedTools_def AllowedModelRefs_def AllowedResourceProfiles_def AllowedIsolationProfiles_def

subsection \<open>The resource\<close>

record RepoSpec =
  repo_URL :: string
  repo_Branch :: string

record IsolationSpec =
  iso_Profile :: string

record AgentSessionSpec =
  sp_UserID :: string
  sp_Tool :: string
  sp_Repo :: RepoSpec
  sp_ModelRef :: string
  sp_ResourceProfile :: string
  sp_Isolation :: IsolationSpec
  sp_TTLSeconds :: int64

record AgentSessionStatus =
  st_Phase :: string
  st_Reason :: string
  st_Message :: string
  st_PodName :: string
  st_ContainerName :: string
  st_TerminalReady :: bool
  st_CreatedAt :: "gtime option"
  st_ExpiresAt :: "gtime option"

record ObjectMeta =
  m_Name :: string
  m_Namespace :: string
  m_UID :: string
  m_Labels :: "(string \<times> string) list"
  m_Finalizers :: "string list"
  m_CreationTimestamp :: gtime
  m_DeletionTimestamp :: "gtime option"

record AgentSession =
  s_APIVersion :: string
  s_Kind :: string
  s_Meta :: ObjectMeta
  s_Spec :: AgentSessionSpec
  s_Status :: AgentSessionStatus

abbreviation s_Name :: "AgentSession \<Rightarrow> string" where "s_Name s \<equiv> m_Name (s_Meta s)"
abbreviation s_UserID :: "AgentSession \<Rightarrow> string" where "s_UserID s \<equiv> sp_UserID (s_Spec s)"

text \<open>The zero values Go gives to fields that a composite literal leaves out.\<close>

definition zero_spec :: AgentSessionSpec where
  "zero_spec = \<lparr>sp_UserID = [], sp_Tool = [], sp_Repo = \<lparr>repo_URL = [], repo_Branch = []\<rparr>,
     sp_ModelRef = [], sp_ResourceProfile = [], sp_Isolation = \<lparr>iso_Profile = []\<rparr>,
     sp_TTLSeconds = 0\<rparr>"

definition zero_status :: AgentSessionStatus where
  "zero_status = \<lparr>st_Phase = [], st_Reason = [], st_Message = [], st_PodName = [],
     st_ContainerName = [], st_TerminalReady = False, st_CreatedAt = None, st_ExpiresAt = None\<rparr>"

definition zero_meta :: ObjectMeta where
  "zero_meta = \<lparr>m_Name = [], m_Namespace = [], m_UID = [], m_Labels = [],
     m_Finalizers = [], m_CreationTimestamp = zero_time, m_DeletionTimestamp = None\<rparr>"

definition NewAgentSession ::
    "string \<Rightarrow> string \<Rightarrow> AgentSessionSpec \<Rightarrow> gtime \<Rightarrow> AgentSession" where
  "NewAgentSession name namespace spec now =
     (let expires = Add now (seconds (sp_TTLSeconds spec)) in
      \<lparr>s_APIVersion = GroupVersion,
       s_Kind = Kind,
       s_Meta = zero_meta\<lparr>m_Name := name, m_Namespace := namespace,
         m_Labels := [(LabelSessionID, name), (LabelUserID, sp_UserID spec)]\<rparr>,
       s_Spec = spec,
       s_Status = zero_status\<lparr>st_Phase := PhasePending, st_ContainerName := ContainerName,
         st_CreatedAt := Some now, st_ExpiresAt := Some expires\<rparr>\<rparr>)"

subsection \<open>Validation\<close>

datatype spec_error =
    UserIdRequired
  | UnsupportedTool string
  | UnsupportedModelRef string
  | UnsupportedResourceProfile string
  | UnsupportedIsolationProfile string
  | TTLOutOfRange

fun spec_error_text :: "spec_error \<Rightarrow> string" where
  "spec_error_text UserIdRequired = ''userId is required''"
| "spec_error_text (UnsupportedTool v) = ''unsupported tool '' @ Quote v"
| "spec_error_text (UnsupportedModelRef v) = ''unsupported modelRef '' @ Quote v"
| "spec_error_text (UnsupportedResourceProfile v) = ''unsupported resourceProfile '' @ Quote v"
| "spec_error_text (UnsupportedIsolationProfile v) = ''unsupported isolationProfile '' @ Quote v"
| "spec_error_text TTLOutOfRange = ''ttlSeconds must be between 1 and 86400''"

text \<open>\<open>None\<close> is Go's \<open>nil\<close> error.\<close>

definition Validate :: "AgentSessionSpec \<Rightarrow> spec_error option" where
  "Validate s =
     (if TrimSpace (sp_UserID s) = [] then Some UserIdRequired
      else if sp_Tool s \<notin> AllowedTools then Some (UnsupportedTool (sp_Tool s))
      else if sp_ModelRef s \<notin> AllowedModelRefs then Some (UnsupportedModelRef (sp_ModelRef s))
      else if sp_ResourceProfile s \<notin> AllowedResourceProfiles
        then Some (UnsupportedResourceProfile (sp_ResourceProfile s))
      else if iso_Profile (sp_Isolation s) \<notin> AllowedIsolationProfiles
        then Some (UnsupportedIsolationProfile (iso_Profile (sp_Isolation s)))
      else if sint (sp_TTLSeconds s) \<le> 0 \<or> sint (sp_TTLSeconds s) > 24 * 60 * 60
        then Some TTLOutOfRange
      else None)"

text \<open>The specifications a session may have, whatever the order of the checks.\<close>

definition valid_spec :: "AgentSessionSpec \<Rightarrow> bool" where
  "valid_spec s \<longleftrightarrow>
     TrimSpace (sp_UserID s) \<noteq> [] \<and> sp_Tool s \<in> AllowedTools \<and> sp_ModelRef s \<in> AllowedModelRefs \<and>
     sp_ResourceProfile s \<in> AllowedResourceProfiles \<and>
     iso_Profile (sp_Isolation s) \<in> AllowedIsolationProfiles \<and>
     0 < sint (sp_TTLSeconds s) \<and> sint (sp_TTLSeconds s) \<le> 86400"

lemma Validate_iff_valid: "Validate s = None \<longleftrightarrow> valid_spec s"
  by (auto simp: Validate_def valid_spec_def)

text \<open>In a valid specification the lifetime does not wrap around as a duration.\<close>

lemma valid_spec_seconds:
  "valid_spec s \<Longrightarrow> sint (seconds (sp_TTLSeconds s)) = sint (sp_TTLSeconds s) * 1000000000"
  by (rule sint_seconds) (auto simp: valid_spec_def)

lemma NewAgentSession_simps [simp]:
  "s_Name (NewAgentSession n ns sp t) = n"
  "m_Namespace (s_Meta (NewAgentSession n ns sp t)) = ns"
  "m_Finalizers (s_Meta (NewAgentSession n ns sp t)) = []"
  "m_DeletionTimestamp (s_Meta (NewAgentSession n ns sp t)) = None"
  "s_Spec (NewAgentSession n ns sp t) = sp"
  "st_Phase (s_Status (NewAgentSession n ns sp t)) = PhasePending"
  "st_PodName (s_Status (NewAgentSession n ns sp t)) = []"
  "st_TerminalReady (s_Status (NewAgentSession n ns sp t)) = False"
  "st_CreatedAt (s_Status (NewAgentSession n ns sp t)) = Some t"
  "st_ExpiresAt (s_Status (NewAgentSession n ns sp t)) = Some (Add t (seconds (sp_TTLSeconds sp)))"
  by (simp_all add: NewAgentSession_def Let_def zero_meta_def zero_status_def)

subsection \<open>Properties\<close>

text \<open>
  Claim C39. A specification that \<open>Validate\<close> accepts gives a session whose expiry,
  computed with wrapping 64-bit durations, is its creation time plus exactly the requested
  number of seconds: strictly after creation and at most one day later.
\<close>

theorem Validate_expiry_bounds:
  assumes "Validate spec = None"
  shows "\<exists>e. st_ExpiresAt (s_Status (NewAgentSession name ns spec now)) = Some e \<and>
    nanos e = nanos now + sint (sp_TTLSeconds spec) * 1000000000 \<and>
    nanos now < nanos e \<and> nanos e \<le> nanos now + 86400 * 1000000000"
  using assms valid_spec_seconds [of spec]
  by (auto simp: Validate_iff_valid valid_spec_def Add_def)

definition sample_spec :: AgentSessionSpec where
  "sample_spec = \<lparr>sp_UserID = ''dev-user'', sp_Tool = ''opencode'',
     sp_Repo = \<lparr>repo_URL = ''https://example.invalid/repo.git'', repo_Branch = ''main''\<rparr>,
     sp_ModelRef = ''default'', sp_ResourceProfile = ''small'',
     sp_Isolation = \<lparr>iso_Profile = ''default''\<rparr>, sp_TTLSeconds = 7200\<rparr>"

lemma sample_spec_valid: "Validate sample_spec = None"
proof -
  have "TrimSpace ''dev-user'' \<noteq> []" by code_simp
  then show ?thesis by (simp add: Validate_def sample_spec_def cask_defs)
qed

theorem Validate_expiry_bounds_witness:
  "\<exists>e. st_ExpiresAt (s_Status (NewAgentSession ''sess-1'' ''ns'' sample_spec (UnixTime 1000))) = Some e
    \<and> nanos e = 8200 * 1000000000"
  using Validate_expiry_bounds [OF sample_spec_valid, of "''sess-1''" "''ns''" "UnixTime 1000"]
  by (auto simp: sample_spec_def UnixTime_def)

end
