(* ===== verification/Cask_Http.thy ===== *)
theory Cask_Http
  imports Cask_Types
begin

text \<open>
  What the handlers use of \<open>net/http\<close>: header maps with their canonical names, the
  request a handler reads and the responses it writes.
\<close>

text \<open>
  \<open>http.Header\<close> is a map from names to value lists. An association list (with at most
  one entry per name) also fixes the order in which a \<open>range\<close> loop meets the entries;
  no result below depends on that order.
\<close>

type_synonym header = "(string \<times> string list) list"

definition upper :: "char \<Rightarrow> char" where
  "upper c = (if 97 \<le> code c \<and> code c \<le> 122 then char_of (code c - 32) else c)"

text \<open>The bytes of an RFC 7230 token.\<close>

definition token_char :: "char \<Rightarrow> bool" where
  "token_char c \<longleftrightarrow>
     48 \<le> code c \<and> code c \<le> 57 \<or> 65 \<le> code c \<and> code c \<le> 90 \<or> 97 \<le> code c \<and> code c \<le> 122 \<or>
     code c \<in> set [33, 35, 36, 37, 38, 39, 42, 43, 45, 46, 94, 95, 96, 124, 126]"

fun capitalise :: "bool \<Rightarrow> string \<Rightarrow> string" where
  "capitalise up [] = []"
| "capitalise up (c # cs) = (if up then upper c else lower c) # capitalise (c = CHR ''-'') cs"

text \<open>\<open>http.CanonicalHeaderKey\<close>: names that are not tokens are left alone.\<close>

definition CanonicalHeaderKey :: "string \<Rightarrow> string" where
  "CanonicalHeaderKey k = (if list_all token_char k then capitalise True k else k)"

definition hdr_values :: "header \<Rightarrow> string \<Rightarrow> string list" where
  "hdr_values h k = (case map_of h (CanonicalHeaderKey k) of None \<Rightarrow> [] | Some vs \<Rightarrow> vs)"

definition hdr_Get :: "header \<Rightarrow> string \<Rightarrow> string" where
  "hdr_Get h k = (case hdr_values h k of [] \<Rightarrow> [] | v # _ \<Rightarrow> v)"

definition hdr_Del :: "header \<Rightarrow> string \<Rightarrow> header" where
  "hdr_Del h k = filter (\<lambda>(key, vs). key \<noteq> CanonicalHeaderKey k) h"

definition hdr_Set :: "header \<Rightarrow> string \<Rightarrow> string \<Rightarrow> header" where
  "hdr_Set h k v = (CanonicalHeaderKey k, [v]) # hdr_Del h k"

definition hdr_Add :: "header \<Rightarrow> string \<Rightarrow> string \<Rightarrow> header" where
  "hdr_Add h k v = (CanonicalHeaderKey k, hdr_values h k @ [v]) # hdr_Del h k"

lemma map_of_hdr_Del:
  "map_of (hdr_Del h k) key = (if key = CanonicalHeaderKey k then None else map_of h key)"
  unfolding hdr_Del_def using map_of_filter_key [of "\<lambda>key. key \<noteq> CanonicalHeaderKey k" h key]
  by simp

lemma map_of_hdr_Set:
  "map_of (hdr_Set h k v) key = (if key = CanonicalHeaderKey k then Some [v] else map_of h key)"
  by (simp add: hdr_Set_def map_of_hdr_Del)

lemma map_of_hdr_Add:
  "map_of (hdr_Add h k v) key =
     (if key = CanonicalHeaderKey k then Some (hdr_values h k @ [v]) else map_of h key)"
  by (simp add: hdr_Add_def map_of_hdr_Del)

text \<open>Canonical names differ from the names they stand for in letter case only.\<close>

lemma lower_upper: "lower (upper c) = lower c"
  by (auto simp: lower_def upper_def code_def)

lemma lower_lower: "lower (lower c) = lower c"
  by (auto simp: lower_def code_def)

lemma token_char_ascii: "token_char c \<Longrightarrow> code c < 128"
  by (auto simp: token_char_def)

lemma ToLower_ascii: "\<forall>c \<in> set s. code c < 128 \<Longrightarrow> ToLower s = map lower s"
  by (induction s rule: ToLower.induct) (auto simp: code_def)

lemma map_lower_capitalise: "map lower (capitalise up s) = map lower s"
  by (induction up s rule: capitalise.induct) (auto simp: lower_upper lower_lower)

lemma case_ascii: "code c < 128 \<Longrightarrow> code (lower c) < 128 \<and> code (upper c) < 128"
  by (auto simp: lower_def upper_def code_def)

lemma capitalise_ascii: "\<forall>c \<in> set s. code c < 128 \<Longrightarrow> \<forall>c \<in> set (capitalise up s). code c < 128"
  by (induction up s rule: capitalise.induct) (auto simp: case_ascii)

lemma ToLower_CanonicalHeaderKey: "ToLower (CanonicalHeaderKey k) = ToLower k"
proof (cases "list_all token_char k")
  case True
  then have "\<forall>c \<in> set k. code c < 128" by (auto simp: list_all_iff token_char_ascii)
  with capitalise_ascii [OF this, of True] True show ?thesis
    by (simp add: CanonicalHeaderKey_def ToLower_ascii map_lower_capitalise)
qed (simp add: CanonicalHeaderKey_def)

lemma canonical_names:
  "CanonicalHeaderKey ''Authorization'' = ''Authorization''"
  "CanonicalHeaderKey ''Set-Cookie'' = ''Set-Cookie''"
  by code_simp+

subsection \<open>Requests and status codes\<close>

record request =
  rq_Method :: string
  rq_EscapedPath :: string  \<comment> \<open>\<open>URL.EscapedPath()\<close>, as the client sent it\<close>
  rq_Path :: string         \<comment> \<open>\<open>URL.Path\<close>\<close>
  rq_Header :: header
  rq_Body :: string

definition StatusOK :: int where "StatusOK = 200"
definition StatusCreated :: int where "StatusCreated = 201"
definition StatusBadRequest :: int where "StatusBadRequest = 400"
definition StatusUnauthorized :: int where "StatusUnauthorized = 401"
definition StatusForbidden :: int where "StatusForbidden = 403"
definition StatusNotFound :: int where "StatusNotFound = 404"
definition StatusMethodNotAllowed :: int where "StatusMethodNotAllowed = 405"
definition StatusConflict :: int where "StatusConflict = 409"
definition StatusInternalServerError :: int where "StatusInternalServerError = 500"
definition StatusBadGateway :: int where "StatusBadGateway = 502"
definition StatusServiceUnavailable :: int where "StatusServiceUnavailable = 503"

lemmas status_defs [cask_defs] =
  StatusOK_def StatusCreated_def StatusBadRequest_def StatusUnauthorized_def StatusForbidden_def
  StatusNotFound_def StatusMethodNotAllowed_def StatusConflict_def StatusInternalServerError_def
  StatusBadGateway_def StatusServiceUnavailable_def

end
