(* ===== verification/Cask_Json.thy ===== *)
theory Cask_Json
  imports Complex_Main Cask_Http
begin

text \<open>
  Dynamically typed values: the \<open>map[string]any\<close> that \<open>encoding/json\<close> and the
  Kubernetes dynamic client produce, and the accessors of \<open>internal/kube/client.go\<close> and
  \<open>internal/api/server.go\<close> that read them with a default for every other type.
\<close>

datatype json =
    JNull
  | JBool bool
  | JInt int64
  | JFloat rat           \<comment> \<open>a finite \<open>float64\<close>\<close>
  | JString string
  | JArray "json list"
  | JObject "(string \<times> json) list"

text \<open>
  A \<open>map[string]any\<close>: an association list with distinct keys, whose order is the order
  in which a \<open>range\<close> loop visits it. Indexing a missing key gives \<open>nil\<close>.
\<close>

type_synonym jmap = "(string \<times> json) list"

definition jget :: "jmap \<Rightarrow> string \<Rightarrow> json" where
  "jget m k = (case map_of m k of None \<Rightarrow> JNull | Some v \<Rightarrow> v)"

lemma jget_Nil [simp]: "jget [] k = JNull"
  by (simp add: jget_def)

lemma jget_Cons [simp]: "jget ((k', v) # m) k = (if k = k' then v else jget m k)"
  by (simp add: jget_def)

fun stringValue :: "json \<Rightarrow> string" where
  "stringValue (JString s) = s"
| "stringValue _ = []"

fun boolValue :: "json \<Rightarrow> bool" where
  "boolValue (JBool b) = b"
| "boolValue _ = False"

text \<open>
  \<open>int64(f)\<close> truncates towards zero. For a value that does not fit, the language leaves
  the result to the implementation: \<open>oor\<close> is that result, a parameter of everything that
  converts, and no theorem assumes anything of it.
\<close>

definition truncate :: "rat \<Rightarrow> int" where
  "truncate x = (if 0 \<le> x then \<lfloor>x\<rfloor> else \<lceil>x\<rceil>)"

definition int64_of_float :: "(rat \<Rightarrow> int64) \<Rightarrow> rat \<Rightarrow> int64" where
  "int64_of_float oor x =
     (if - (2 ^ 63) \<le> truncate x \<and> truncate x < 2 ^ 63 then word_of_int (truncate x) else oor x)"

fun int64Value :: "(rat \<Rightarrow> int64) \<Rightarrow> json \<Rightarrow> int64" where
  "int64Value oor (JInt n) = n"
| "int64Value oor (JFloat x) = int64_of_float oor x"
| "int64Value oor _ = 0"

definition defaultString :: "string \<Rightarrow> string \<Rightarrow> string" where
  "defaultString v fallback = (if v = [] then fallback else v)"

lemma sint_int64_of_float:
  "- (2 ^ 63) \<le> truncate x \<Longrightarrow> truncate x < 2 ^ 63 \<Longrightarrow> sint (int64_of_float oor x) = truncate x"
  by (simp add: int64_of_float_def sint_of_int_fits)

definition stringMapToInterface :: "(string \<times> string) list \<Rightarrow> jmap" where
  "stringMapToInterface m = map (\<lambda>(k, v). (k, JString v)) m"

text \<open>\<open>parseTimePtr\<close>: text that is empty or not RFC 3339 is a missing time.\<close>

definition parseTimePtr :: "string \<Rightarrow> gtime option" where
  "parseTimePtr s = (if s = [] then None else ParseRFC3339 s)"

subsection \<open>Decoding into a struct\<close>

text \<open>
  \<open>json.Unmarshal\<close> into a struct, from the syntax tree of the text, in which integer
  literals are \<open>JInt\<close> and all other numbers \<open>JFloat\<close>: field names match in any letter
  case, unknown fields and nulls are skipped, the last of several values wins, and a value
  of the wrong type is reported as an error after all fields have been read. A struct is
  described by a setter for each field, which says whether the value had the right type.
\<close>

definition set_string :: "json \<Rightarrow> string \<Rightarrow> string \<times> bool" where
  "set_string v old = (case v of JString s \<Rightarrow> (s, True) | JNull \<Rightarrow> (old, True) | _ \<Rightarrow> (old, False))"

definition set_bool :: "json \<Rightarrow> bool \<Rightarrow> bool \<times> bool" where
  "set_bool v old = (case v of JBool b \<Rightarrow> (b, True) | JNull \<Rightarrow> (old, True) | _ \<Rightarrow> (old, False))"

type_synonym 'm setters = "(string \<times> (json \<Rightarrow> 'm \<Rightarrow> 'm \<times> bool)) list"

fun set_struct :: "'m setters \<Rightarrow> jmap \<Rightarrow> 'm \<Rightarrow> 'm \<times> bool" where
  "set_struct ss [] m = (m, True)"
| "set_struct ss ((k, v) # rest) m =
     (case find (\<lambda>(name, _). EqualFold k name) ss of
        None \<Rightarrow> set_struct ss rest m
      | Some (_, f) \<Rightarrow>
          (case f v m of (m1, ok) \<Rightarrow> (case set_struct ss rest m1 of (m2, ok2) \<Rightarrow> (m2, ok \<and> ok2))))"

definition unmarshal_struct :: "'m setters \<Rightarrow> 'm \<Rightarrow> json \<Rightarrow> 'm option" where
  "unmarshal_struct ss old doc =
     (case doc of
        JNull \<Rightarrow> Some old
      | JObject fs \<Rightarrow> (case set_struct ss fs old of (m, ok) \<Rightarrow> (if ok then Some m else None))
      | _ \<Rightarrow> None)"

lemma set_struct_append:
  "set_struct ss (xs @ ys) m =
     (case set_struct ss xs m of (m1, ok) \<Rightarrow>
        (case set_struct ss ys m1 of (m2, ok2) \<Rightarrow> (m2, ok \<and> ok2)))"
  by (induction xs arbitrary: m) (auto split: option.split prod.split)

text \<open>A field the encoder leaves out when it is empty (\<open>omitempty\<close>).\<close>

definition omit_empty :: "string \<Rightarrow> string \<Rightarrow> jmap" where
  "omit_empty name v = (if v = [] then [] else [(name, JString v)])"

end
