(* ===== verification/Cask_Cluster.thy ===== *)
theory Cask_Cluster
  imports Cask_Json
begin

text \<open>
  What the program uses of Kubernetes, none of which is part of the repository: the Pod
  type of \<open>k8s.io/api/core/v1\<close> (the fields the controller sets or reads), the accessors of
  \<open>unstructured.Unstructured\<close>, the dynamic client, the typed clientset and the wall clock.
  The operations are a parameter of the model, the record \<open>cluster\<close>: they run in a world
  of an arbitrary type and may change it in any way, so a statement about every cluster
  also covers failing calls and other clients that act between two calls. The documented
  behaviour some properties rely on is stated by the locales at the end.
\<close>

subsection \<open>Pods\<close>

record Toleration =
  tol_Key :: string
  tol_Operator :: string
  tol_Value :: string
  tol_Effect :: string

record EnvVar =
  ev_Name :: string
  ev_Value :: string

text \<open>Quantities (\<open>resource.MustParse\<close>) are kept as their literals.\<close>

type_synonym resource_list = "(string \<times> string) list"

record ResourceRequirements =
  rr_Requests :: resource_list
  rr_Limits :: resource_list

record SecurityContext =
  sc_Privileged :: "bool option"
  sc_RunAsNonRoot :: "bool option"
  sc_RunAsUser :: "int option"
  sc_RunAsGroup :: "int option"
  sc_AllowPrivilegeEscalation :: "bool option"
  sc_ReadOnlyRootFilesystem :: "bool option"
  sc_DropCapabilities :: "string list"
  sc_AddCapabilities :: "string list"

record Container =
  c_Name :: string
  c_Image :: string
  c_ImagePullPolicy :: string
  c_Command :: "string list"
  c_Stdin :: bool
  c_TTY :: bool
  c_Env :: "EnvVar list"
  c_Resources :: ResourceRequirements
  c_SecurityContext :: SecurityContext

record PodSpec =
  ps_RestartPolicy :: string
  ps_ServiceAccountName :: string
  ps_Containers :: "Container list"
  ps_SeccompProfile :: "string option"
  ps_RuntimeClassName :: "string option"
  ps_NodeSelector :: "(string \<times> string) list"
  ps_Tolerations :: "Toleration list"
  ps_HostNetwork :: bool
  ps_HostPID :: bool
  ps_HostIPC :: bool
  ps_Volumes :: "string list"

record OwnerReference =
  or_APIVersion :: string
  or_Kind :: string
  or_Name :: string
  or_UID :: string

record Pod =
  pod_Name :: string
  pod_Namespace :: string
  pod_Labels :: "(string \<times> string) list"
  pod_OwnerReferences :: "OwnerReference list"
  pod_Spec :: PodSpec
  pod_Phase :: string   \<comment> \<open>\<open>Status.Phase\<close>\<close>

subsection \<open>Errors and operations\<close>

text \<open>An error has a text; \<open>apierrors.IsNotFound\<close> singles out one kind.\<close>

datatype kerr = NotFound (err_text: string) | OtherError (err_text: string)

fun IsNotFound :: "kerr \<Rightarrow> bool" where
  "IsNotFound (NotFound _) = True"
| "IsNotFound (OtherError _) = False"

record 'w cluster =
  \<comment> \<open>accessors of \<open>unstructured.Unstructured\<close>; \<open>None\<close> is "not found"\<close>
  k_NestedMap :: "jmap \<Rightarrow> string \<Rightarrow> kerr + jmap option"
  k_Name :: "jmap \<Rightarrow> string"
  k_Namespace :: "jmap \<Rightarrow> string"
  k_UID :: "jmap \<Rightarrow> string"
  k_Labels :: "jmap \<Rightarrow> (string \<times> string) list"
  k_Finalizers :: "jmap \<Rightarrow> string list"
  k_CreationTimestamp :: "jmap \<Rightarrow> gtime"
  k_DeletionTimestamp :: "jmap \<Rightarrow> gtime option"
  k_SetFinalizers :: "jmap \<Rightarrow> string list \<Rightarrow> jmap"
  k_SetUID :: "jmap \<Rightarrow> string \<Rightarrow> jmap"
  \<comment> \<open>the dynamic client on AgentSessions: namespace first; a list has a limit, 0 for none\<close>
  k_List :: "string \<Rightarrow> int \<Rightarrow> 'w \<Rightarrow> (kerr + jmap list) \<times> 'w"
  k_Get :: "string \<Rightarrow> string \<Rightarrow> 'w \<Rightarrow> (kerr + jmap) \<times> 'w"
  k_Create :: "string \<Rightarrow> jmap \<Rightarrow> 'w \<Rightarrow> (kerr + jmap) \<times> 'w"
  k_Delete :: "string \<Rightarrow> string \<Rightarrow> 'w \<Rightarrow> kerr option \<times> 'w"
  k_Patch :: "string \<Rightarrow> string \<Rightarrow> jmap \<Rightarrow> string list \<Rightarrow> 'w \<Rightarrow> (kerr + jmap) \<times> 'w"
  \<comment> \<open>the clientset\<close>
  k_PodGet :: "string \<Rightarrow> string \<Rightarrow> 'w \<Rightarrow> (kerr + Pod) \<times> 'w"
  k_PodCreate :: "string \<Rightarrow> Pod \<Rightarrow> 'w \<Rightarrow> (kerr + Pod) \<times> 'w"
  k_PodDelete :: "string \<Rightarrow> string \<Rightarrow> 'w \<Rightarrow> kerr option \<times> 'w"
  k_RuntimeClassGet :: "string \<Rightarrow> 'w \<Rightarrow> kerr option \<times> 'w"
  \<comment> \<open>\<open>time.Now\<close>, and the conversion of out-of-range floats\<close>
  k_Now :: "'w \<Rightarrow> gtime"
  k_oor :: "rat \<Rightarrow> int64"

subsection \<open>Recording the calls\<close>

text \<open>
  \<open>logged K\<close> behaves as \<open>K\<close> and records every call to the API server. What a component
  asks of an arbitrary cluster is what it does to the record of its logged version.
\<close>

datatype call =
    CList string int
  | CGet string string
  | CCreate string jmap
  | CDelete string string
  | CPatch string string jmap "string list"
  | CPodGet string string
  | CPodCreate string Pod
  | CPodDelete string string
  | CRuntimeClassGet string

definition log_call ::
    "call \<Rightarrow> ('w \<Rightarrow> 'r \<times> 'w) \<Rightarrow> 'w \<times> call list \<Rightarrow> 'r \<times> 'w \<times> call list" where
  "log_call c f = (\<lambda>(w, cs). case f w of (r, w') \<Rightarrow> (r, (w', cs @ [c])))"

definition logged :: "'w cluster \<Rightarrow> ('w \<times> call list) cluster" where
  "logged K =
     \<lparr>k_NestedMap = k_NestedMap K, k_Name = k_Name K, k_Namespace = k_Namespace K,
      k_UID = k_UID K, k_Labels = k_Labels K, k_Finalizers = k_Finalizers K,
      k_CreationTimestamp = k_CreationTimestamp K, k_DeletionTimestamp = k_DeletionTimestamp K,
      k_SetFinalizers = k_SetFinalizers K, k_SetUID = k_SetUID K,
      k_List = (\<lambda>ns n. log_call (CList ns n) (k_List K ns n)),
      k_Get = (\<lambda>ns n. log_call (CGet ns n) (k_Get K ns n)),
      k_Create = (\<lambda>ns u. log_call (CCreate ns u) (k_Create K ns u)),
      k_Delete = (\<lambda>ns n. log_call (CDelete ns n) (k_Delete K ns n)),
      k_Patch = (\<lambda>ns n p sub. log_call (CPatch ns n p sub) (k_Patch K ns n p sub)),
      k_PodGet = (\<lambda>ns n. log_call (CPodGet ns n) (k_PodGet K ns n)),
      k_PodCreate = (\<lambda>ns p. log_call (CPodCreate ns p) (k_PodCreate K ns p)),
      k_PodDelete = (\<lambda>ns n. log_call (CPodDelete ns n) (k_PodDelete K ns n)),
      k_RuntimeClassGet = (\<lambda>n. log_call (CRuntimeClassGet n) (k_RuntimeClassGet K n)),
      k_Now = (\<lambda>(w, cs). k_Now K w),
      k_oor = k_oor K\<rparr>"

subsection \<open>What the accessors promise\<close>

text \<open>
  \<open>k8s.io/apimachinery/pkg/apis/meta/v1/unstructured\<close> documents its accessors as reads
  and writes of nested fields: a field that is missing reads as absent or as the zero
  value, and a write changes the field it names and leaves every other one alone.
\<close>

definition metadata :: "jmap \<Rightarrow> jmap" where
  "metadata u = (case jget u ''metadata'' of JObject m \<Rightarrow> m | _ \<Rightarrow> [])"

definition other_fields_kept :: "string \<Rightarrow> jmap \<Rightarrow> jmap \<Rightarrow> bool" where
  "other_fields_kept f u u' \<longleftrightarrow>
     (\<forall>k. k \<noteq> ''metadata'' \<longrightarrow> map_of u' k = map_of u k) \<and>
     (\<forall>k. k \<noteq> f \<longrightarrow> map_of (metadata u') k = map_of (metadata u) k)"

definition lawful_accessors :: "'w cluster \<Rightarrow> bool" where
  "lawful_accessors K \<longleftrightarrow>
     (\<forall>m k. map_of m k = None \<longrightarrow> k_NestedMap K m k = Inr None) \<and>
     (\<forall>m k v. map_of m k = Some (JObject v) \<longrightarrow> k_NestedMap K m k = Inr (Some v)) \<and>
     (\<forall>u. k_Name K u = stringValue (jget (metadata u) ''name'')) \<and>
     (\<forall>u. k_Namespace K u = stringValue (jget (metadata u) ''namespace'')) \<and>
     (\<forall>u. k_UID K u = stringValue (jget (metadata u) ''uid'')) \<and>
     (\<forall>u l. jget (metadata u) ''labels'' = JObject (stringMapToInterface l) \<longrightarrow> k_Labels K u = l) \<and>
     (\<forall>u. map_of (metadata u) ''finalizers'' = None \<longrightarrow> k_Finalizers K u = []) \<and>
     (\<forall>u fs. jget (metadata u) ''finalizers'' = JArray (map JString fs) \<longrightarrow> k_Finalizers K u = fs) \<and>
     (\<forall>u. map_of (metadata u) ''creationTimestamp'' = None \<longrightarrow> k_CreationTimestamp K u = zero_time) \<and>
     (\<forall>u. map_of (metadata u) ''deletionTimestamp'' = None \<longrightarrow> k_DeletionTimestamp K u = None) \<and>
     (\<forall>u md fs. jget u ''metadata'' = JObject md \<longrightarrow> fs \<noteq> [] \<longrightarrow>
        jget (metadata (k_SetFinalizers K u fs)) ''finalizers'' = JArray (map JString fs) \<and>
        other_fields_kept ''finalizers'' u (k_SetFinalizers K u fs)) \<and>
     (\<forall>u md x. jget u ''metadata'' = JObject md \<longrightarrow> x \<noteq> [] \<longrightarrow>
        jget (metadata (k_SetUID K u x)) ''uid'' = JString x \<and>
        other_fields_kept ''uid'' u (k_SetUID K u x))"

end
