(* ===== verification/Cask_TestCluster.thy ===== *)
theory Cask_TestCluster
  imports Cask_Cluster "HOL-Library.AList"
begin

text \<open>
  A small in-memory cluster for the concrete inputs of the witnesses: objects by name in
  one namespace, JSON merge patches (RFC 7386), Pods by name, the runtime classes that
  exist and a clock. It plays the part of the fake clients of the repository's tests and
  shows that the behaviour the properties rely on can be had; no theorem about the program
  mentions it except as an example.
\<close>

record world =
  w_objects :: "(string \<times> jmap) list"
  w_pods :: "(string \<times> Pod) list"
  w_classes :: "string list"
  w_now :: gtime

subsection \<open>Objects\<close>

definition jset :: "jmap \<Rightarrow> string \<Rightarrow> json \<Rightarrow> jmap" where
  "jset m k v = AList.update k v m"

definition jdel :: "jmap \<Rightarrow> string \<Rightarrow> jmap" where
  "jdel m k = AList.delete k m"

fun merge_value :: "json \<Rightarrow> json \<Rightarrow> json" and merge_fields :: "jmap \<Rightarrow> jmap \<Rightarrow> jmap" where
  "merge_value old (JObject p) = JObject (merge_fields (case old of JObject m \<Rightarrow> m | _ \<Rightarrow> []) p)"
| "merge_value old v = v"
| "merge_fields m [] = m"
| "merge_fields m ((k, JNull) # p) = merge_fields (jdel m k) p"
| "merge_fields m ((k, v) # p) = merge_fields (jset m k (merge_value (jget m k) v)) p"

definition t_NestedMap :: "jmap \<Rightarrow> string \<Rightarrow> kerr + jmap option" where
  "t_NestedMap m k =
     (case map_of m k of
        None \<Rightarrow> Inr None
      | Some (JObject v) \<Rightarrow> Inr (Some v)
      | Some _ \<Rightarrow> Inl (OtherError ''accessor error''))"

definition t_strings :: "json \<Rightarrow> string list" where
  "t_strings v = (case v of JArray vs \<Rightarrow> map stringValue vs | _ \<Rightarrow> [])"

definition t_labels :: "json \<Rightarrow> (string \<times> string) list" where
  "t_labels v = (case v of JObject l \<Rightarrow> map (\<lambda>(k, x). (k, stringValue x)) l | _ \<Rightarrow> [])"

definition t_set :: "string \<Rightarrow> json \<Rightarrow> jmap \<Rightarrow> jmap" where
  "t_set f v u = jset u ''metadata'' (JObject (jset (metadata u) f v))"

subsection \<open>Operations\<close>

definition t_remove_if_done :: "string \<Rightarrow> world \<Rightarrow> world" where
  "t_remove_if_done n w =
     (case map_of (w_objects w) n of
        None \<Rightarrow> w
      | Some u \<Rightarrow>
          if jget (metadata u) ''deletionTimestamp'' \<noteq> JNull \<and>
             t_strings (jget (metadata u) ''finalizers'') = []
          then w\<lparr>w_objects := AList.delete n (w_objects w)\<rparr> else w)"

definition t_missing :: kerr where "t_missing = NotFound ''not found''"

definition t_Patch :: "string \<Rightarrow> jmap \<Rightarrow> world \<Rightarrow> (kerr + jmap) \<times> world" where
  "t_Patch n p w =
     (case map_of (w_objects w) n of
        None \<Rightarrow> (Inl t_missing, w)
      | Some u \<Rightarrow>
          (Inr (merge_fields u p),
           t_remove_if_done n (w\<lparr>w_objects := AList.update n (merge_fields u p) (w_objects w)\<rparr>)))"

definition t_Delete :: "string \<Rightarrow> world \<Rightarrow> kerr option \<times> world" where
  "t_Delete n w =
     (case map_of (w_objects w) n of
        None \<Rightarrow> (Some t_missing, w)
      | Some u \<Rightarrow>
          (None, t_remove_if_done n
             (w\<lparr>w_objects := AList.update n
                  (t_set ''deletionTimestamp'' (JString (FormatRFC3339 (UTC (w_now w)))) u)
                  (w_objects w)\<rparr>)))"

definition test_cluster :: "world cluster" where
  "test_cluster =
     \<lparr>k_NestedMap = t_NestedMap,
      k_Name = (\<lambda>u. stringValue (jget (metadata u) ''name'')),
      k_Namespace = (\<lambda>u. stringValue (jget (metadata u) ''namespace'')),
      k_UID = (\<lambda>u. stringValue (jget (metadata u) ''uid'')),
      k_Labels = (\<lambda>u. t_labels (jget (metadata u) ''labels'')),
      k_Finalizers = (\<lambda>u. t_strings (jget (metadata u) ''finalizers'')),
      k_CreationTimestamp = (\<lambda>u.
        case parseTimePtr (stringValue (jget (metadata u) ''creationTimestamp'')) of
          None \<Rightarrow> zero_time | Some t \<Rightarrow> t),
      k_DeletionTimestamp = (\<lambda>u.
        parseTimePtr (stringValue (jget (metadata u) ''deletionTimestamp''))),
      k_SetFinalizers = (\<lambda>u fs. t_set ''finalizers'' (JArray (map JString fs)) u),
      k_SetUID = (\<lambda>u x. t_set ''uid'' (JString x) u),
      k_List = (\<lambda>ns n w. (Inr (map snd (w_objects w)), w)),
      k_Get = (\<lambda>ns n w.
        (case map_of (w_objects w) n of None \<Rightarrow> Inl t_missing | Some u \<Rightarrow> Inr u, w)),
      k_Create = (\<lambda>ns u w. let n = stringValue (jget (metadata u) ''name'') in
        if map_of (w_objects w) n \<noteq> None then (Inl (OtherError ''already exists''), w)
        else (Inr u, w\<lparr>w_objects := AList.update n u (w_objects w)\<rparr>)),
      k_Delete = (\<lambda>ns. t_Delete),
      k_Patch = (\<lambda>ns n p sub. t_Patch n p),
      k_PodGet = (\<lambda>ns n w.
        (case map_of (w_pods w) n of None \<Rightarrow> Inl t_missing | Some p \<Rightarrow> Inr p, w)),
      k_PodCreate = (\<lambda>ns p w. (Inr p, w\<lparr>w_pods := AList.update (pod_Name p) p (w_pods w)\<rparr>)),
      k_PodDelete = (\<lambda>ns n w.
        (if map_of (w_pods w) n = None then Some t_missing else None,
         w\<lparr>w_pods := AList.delete n (w_pods w)\<rparr>)),
      k_RuntimeClassGet = (\<lambda>n w. (if n \<in> set (w_classes w) then None else Some t_missing, w)),
      k_Now = w_now,
      k_oor = (\<lambda>_. 0)\<rparr>"

subsection \<open>Its accessors behave as documented\<close>

lemma metadata_t_set [simp]: "metadata (t_set f v u) = jset (metadata u) f v"
  by (simp add: t_set_def metadata_def jset_def jget_def update_conv)

lemma t_set_kept: "other_fields_kept f u (t_set f v u)"
  unfolding other_fields_kept_def metadata_t_set
  by (simp add: t_set_def jset_def update_conv)

lemma test_cluster_lawful: "lawful_accessors test_cluster"
  unfolding lawful_accessors_def test_cluster_def
  by (auto simp: t_NestedMap_def t_strings_def t_labels_def t_set_kept jset_def jget_def
      update_conv parseTimePtr_def stringMapToInterface_def comp_def case_prod_beta)

end
