(* ===== verification/Cask_Kube.thy ===== *)
theory Cask_Kube
  imports Cask_Types Cask_TestCluster
begin

text \<open>
  \<open>internal/kube/client.go\<close>: the conversion of sessions to and from unstructured
  objects and the operations of \<open>SessionClient\<close> over the dynamic client of a cluster
  \<open>K\<close> (the fields \<open>Dynamic\<close> and \<open>Namespace\<close> are the arguments \<open>K\<close> and \<open>ns\<close>).
\<close>

definition DefaultSessionNamespace :: string where
  "DefaultSessionNamespace = ''agentcask-sessions''"

subsection \<open>Specification and status\<close>

definition SpecToMap :: "AgentSessionSpec \<Rightarrow> jmap" where
  "SpecToMap spec =
     [(''userId'', JString (sp_UserID spec)),
      (''tool'', JString (sp_Tool spec)),
      (''repo'', JObject [(''url'', JString (repo_URL (sp_Repo spec))),
                          (''branch'', JString (repo_Branch (sp_Repo spec)))]),
      (''modelRef'', JString (sp_ModelRef spec)),
      (''resourceProfile'', JString (sp_ResourceProfile spec)),
      (''isolation'', JObject [(''profile'', JString (iso_Profile (sp_Isolation spec)))]),
      (''ttlSeconds'', JInt (sp_TTLSeconds spec))]"

text \<open>\<open>m, _, _ := NestedMap(...)\<close>: a nil map, which reads as empty, unless there is one.\<close>

definition nested_or_nil :: "'w cluster \<Rightarrow> jmap \<Rightarrow> string \<Rightarrow> jmap" where
  "nested_or_nil K m k =
     (case k_NestedMap K m k of Inr (Some v) \<Rightarrow> v | Inr None \<Rightarrow> [] | Inl _ \<Rightarrow> [])"

definition SpecFromMap :: "'w cluster \<Rightarrow> jmap \<Rightarrow> AgentSessionSpec" where
  "SpecFromMap K m =
     (let repo = nested_or_nil K m ''repo'';
          isolation = nested_or_nil K m ''isolation''
      in \<lparr>sp_UserID = stringValue (jget m ''userId''),
          sp_Tool = stringValue (jget m ''tool''),
          sp_Repo = \<lparr>repo_URL = stringValue (jget repo ''url''),
                     repo_Branch = stringValue (jget repo ''branch'')\<rparr>,
          sp_ModelRef = stringValue (jget m ''modelRef''),
          sp_ResourceProfile = stringValue (jget m ''resourceProfile''),
          sp_Isolation = \<lparr>iso_Profile = stringValue (jget isolation ''profile'')\<rparr>,
          sp_TTLSeconds = int64Value (k_oor K) (jget m ''ttlSeconds'')\<rparr>)"

definition time_field :: "string \<Rightarrow> gtime option \<Rightarrow> jmap" where
  "time_field k t = (case t of None \<Rightarrow> [] | Some t' \<Rightarrow> [(k, JString (FormatRFC3339 t'))])"

definition StatusToMap :: "AgentSessionStatus \<Rightarrow> jmap" where
  "StatusToMap status =
     [(''phase'', JString (st_Phase status)),
      (''reason'', JString (st_Reason status)),
      (''message'', JString (st_Message status)),
      (''podName'', JString (st_PodName status)),
      (''containerName'', JString (st_ContainerName status)),
      (''terminalReady'', JBool (st_TerminalReady status))]
     @ time_field ''createdAt'' (st_CreatedAt status)
     @ time_field ''expiresAt'' (st_ExpiresAt status)"

definition StatusFromMap :: "jmap \<Rightarrow> AgentSessionStatus" where
  "StatusFromMap m =
     \<lparr>st_Phase = stringValue (jget m ''phase''),
      st_Reason = stringValue (jget m ''reason''),
      st_Message = stringValue (jget m ''message''),
      st_PodName = stringValue (jget m ''podName''),
      st_ContainerName = defaultString (stringValue (jget m ''containerName'')) ContainerName,
      st_TerminalReady = boolValue (jget m ''terminalReady''),
      st_CreatedAt = parseTimePtr (stringValue (jget m ''createdAt'')),
      st_ExpiresAt = parseTimePtr (stringValue (jget m ''expiresAt''))\<rparr>"

subsection \<open>Objects\<close>

definition base_object :: "AgentSession \<Rightarrow> jmap" where
  "base_object s =
     [(''apiVersion'', JString GroupVersion),
      (''kind'', JString Kind),
      (''metadata'', JObject
        [(''name'', JString (s_Name s)),
         (''namespace'', JString (m_Namespace (s_Meta s))),
         (''labels'', JObject (stringMapToInterface (m_Labels (s_Meta s))))]),
      (''spec'', JObject (SpecToMap (s_Spec s)))]"

definition ToUnstructured :: "'w cluster \<Rightarrow> AgentSession \<Rightarrow> jmap" where
  "ToUnstructured K s =
     (let u = base_object s;
          u = (if m_Finalizers (s_Meta s) \<noteq> [] then k_SetFinalizers K u (m_Finalizers (s_Meta s)) else u);
          u = (if m_UID (s_Meta s) \<noteq> [] then k_SetUID K u (m_UID (s_Meta s)) else u)
      in if st_Phase (s_Status s) \<noteq> []
         then AList.update ''status'' (JObject (StatusToMap (s_Status s))) u else u)"

text \<open>The argument is a pointer: \<open>None\<close> is \<open>nil\<close>.\<close>

definition FromUnstructured :: "'w cluster \<Rightarrow> jmap option \<Rightarrow> kerr + AgentSession" where
  "FromUnstructured K p =
     (case p of
        None \<Rightarrow> Inl (OtherError ''nil AgentSession object'')
      | Some u \<Rightarrow>
          (let s = \<lparr>s_APIVersion = GroupVersion, s_Kind = Kind,
                    s_Meta = \<lparr>m_Name = k_Name K u, m_Namespace = k_Namespace K u,
                      m_UID = k_UID K u, m_Labels = k_Labels K u,
                      m_Finalizers = k_Finalizers K u,
                      m_CreationTimestamp = k_CreationTimestamp K u,
                      m_DeletionTimestamp = k_DeletionTimestamp K u\<rparr>,
                    s_Spec = zero_spec, s_Status = zero_status\<rparr>
           in case k_NestedMap K u ''spec'' of
                Inl err \<Rightarrow> Inl err
              | Inr spec \<Rightarrow>
                  (let s = (case spec of None \<Rightarrow> s | Some m \<Rightarrow> s\<lparr>s_Spec := SpecFromMap K m\<rparr>)
                   in case k_NestedMap K u ''status'' of
                        Inl err \<Rightarrow> Inl err
                      | Inr status \<Rightarrow>
                          Inr (case status of None \<Rightarrow> s
                               | Some m \<Rightarrow> s\<lparr>s_Status := StatusFromMap m\<rparr>))))"

subsection \<open>The session client\<close>

definition kube_Ready :: "'w cluster \<Rightarrow> string \<Rightarrow> 'w \<Rightarrow> kerr option \<times> 'w" where
  "kube_Ready K ns w =
     (case k_List K ns 1 w of (Inl err, w') \<Rightarrow> (Some err, w') | (Inr _, w') \<Rightarrow> (None, w'))"

definition kube_Create ::
    "'w cluster \<Rightarrow> string \<Rightarrow> AgentSession \<Rightarrow> 'w \<Rightarrow> (kerr + AgentSession) \<times> 'w" where
  "kube_Create K ns session w =
     (case k_Create K ns (ToUnstructured K session) w of
        (Inl err, w') \<Rightarrow> (Inl err, w')
      | (Inr created, w') \<Rightarrow>
          (case FromUnstructured K (Some created) of
             Inl err \<Rightarrow> (Inl err, w')
           | Inr out \<Rightarrow>
               (Inr (if st_Phase (s_Status out) = [] then out\<lparr>s_Status := s_Status session\<rparr> else out), w')))"

fun convert_items :: "'w cluster \<Rightarrow> string \<Rightarrow> jmap list \<Rightarrow> kerr + AgentSession list" where
  "convert_items K userID [] = Inr []"
| "convert_items K userID (u # us) =
     (case FromUnstructured K (Some u) of
        Inl err \<Rightarrow> Inl err
      | Inr s \<Rightarrow>
          (case convert_items K userID us of
             Inl err \<Rightarrow> Inl err
           | Inr ss \<Rightarrow> Inr (if userID = [] \<or> s_UserID s = userID then s # ss else ss)))"

definition kube_List ::
    "'w cluster \<Rightarrow> string \<Rightarrow> string \<Rightarrow> 'w \<Rightarrow> (kerr + AgentSession list) \<times> 'w" where
  "kube_List K ns userID w =
     (case k_List K ns 0 w of
        (Inl err, w') \<Rightarrow> (Inl err, w')
      | (Inr items, w') \<Rightarrow> (convert_items K userID items, w'))"

definition kube_Get ::
    "'w cluster \<Rightarrow> string \<Rightarrow> string \<Rightarrow> 'w \<Rightarrow> (kerr + AgentSession) \<times> 'w" where
  "kube_Get K ns name w =
     (case k_Get K ns name w of
        (Inl err, w') \<Rightarrow> (Inl err, w')
      | (Inr u, w') \<Rightarrow> (FromUnstructured K (Some u), w'))"

definition kube_Delete :: "'w cluster \<Rightarrow> string \<Rightarrow> string \<Rightarrow> 'w \<Rightarrow> kerr option \<times> 'w" where
  "kube_Delete K ns name w = k_Delete K ns name w"

definition patch_error :: "(kerr + jmap) \<times> 'w \<Rightarrow> kerr option \<times> 'w" where
  "patch_error r = (case r of (Inl err, w) \<Rightarrow> (Some err, w) | (Inr _, w) \<Rightarrow> (None, w))"

definition status_patch :: "AgentSessionStatus \<Rightarrow> jmap" where
  "status_patch status = [(''status'', JObject (StatusToMap status))]"

definition PatchStatus ::
    "'w cluster \<Rightarrow> string \<Rightarrow> string \<Rightarrow> AgentSessionStatus \<Rightarrow> 'w \<Rightarrow> kerr option \<times> 'w" where
  "PatchStatus K ns name status w = patch_error (k_Patch K ns name (status_patch status) [''status''] w)"

text \<open>No caller passes a nil slice; an empty one is marshalled as an empty array.\<close>

definition finalizers_patch :: "string list \<Rightarrow> jmap" where
  "finalizers_patch finalizers =
     [(''metadata'', JObject [(''finalizers'', JArray (map JString finalizers))])]"

definition PatchFinalizers ::
    "'w cluster \<Rightarrow> string \<Rightarrow> string \<Rightarrow> string list \<Rightarrow> 'w \<Rightarrow> kerr option \<times> 'w" where
  "PatchFinalizers K ns name finalizers w =
     patch_error (k_Patch K ns name (finalizers_patch finalizers) [] w)"

text \<open>The package's own \<open>IsNotFound\<close> reads the text of the error; \<open>nil\<close> prints as \<open><nil>\<close>.\<close>

definition kube_IsNotFound :: "kerr option \<Rightarrow> bool" where
  "kube_IsNotFound err =
     Contains (case err of None \<Rightarrow> ''<nil>'' | Some e \<Rightarrow> err_text e) ''not found''"

subsection \<open>Round trips\<close>

text \<open>
  A time that RFC 3339 can write: a four-digit year, an offset within a day. Writing drops
  the fraction of a second.
\<close>

definition printable_time :: "gtime \<Rightarrow> bool" where
  "printable_time t \<longleftrightarrow>
     (case civil ((Unix t + 60 * zone t) div 86400) of (y, _, _) \<Rightarrow> 0 \<le> y \<and> y \<le> 9999) \<and>
     \<bar>zone t\<bar> < 1440"

definition whole_seconds :: "gtime \<Rightarrow> gtime" where
  "whole_seconds t = t\<lparr>nanos := Unix t * 1000000000\<rparr>"

definition printable_status :: "AgentSessionStatus \<Rightarrow> bool" where
  "printable_status st \<longleftrightarrow>
     (case st_CreatedAt st of None \<Rightarrow> True | Some t \<Rightarrow> printable_time t) \<and>
     (case st_ExpiresAt st of None \<Rightarrow> True | Some t \<Rightarrow> printable_time t)"

text \<open>What a reader sees of a status that was written.\<close>

definition stored_status :: "AgentSessionStatus \<Rightarrow> AgentSessionStatus" where
  "stored_status st = st\<lparr>
     st_ContainerName := defaultString (st_ContainerName st) ContainerName,
     st_CreatedAt := map_option whole_seconds (st_CreatedAt st),
     st_ExpiresAt := map_option whole_seconds (st_ExpiresAt st)\<rparr>"

lemma Format_not_empty: "FormatRFC3339 t \<noteq> []"
  by (simp add: FormatRFC3339_def Let_def split: prod.splits)

lemma parseTimePtr_Format: "printable_time t \<Longrightarrow> parseTimePtr (FormatRFC3339 t) = Some (whole_seconds t)"
  unfolding parseTimePtr_def printable_time_def whole_seconds_def
  by (auto simp: Format_not_empty ParseRFC3339_FormatRFC3339 split: prod.splits)

lemma jget_append: "jget (a @ b) k = (case map_of a k of None \<Rightarrow> jget b k | Some v \<Rightarrow> v)"
  by (simp add: jget_def map_add_def split: option.splits)

lemma parse_time_field:
  "(case t of None \<Rightarrow> True | Some t' \<Rightarrow> printable_time t') \<Longrightarrow>
   parseTimePtr (stringValue (jget (time_field k t) k)) = map_option whole_seconds t"
  by (cases t) (simp_all add: time_field_def parseTimePtr_Format, simp add: parseTimePtr_def)

lemma keys_time_field: "k' \<noteq> k \<Longrightarrow> jget (time_field k t) k' = JNull"
  by (cases t) (simp_all add: time_field_def)

lemma jget_StatusToMap:
  "jget (StatusToMap st) ''phase'' = JString (st_Phase st)"
  "jget (StatusToMap st) ''reason'' = JString (st_Reason st)"
  "jget (StatusToMap st) ''message'' = JString (st_Message st)"
  "jget (StatusToMap st) ''podName'' = JString (st_PodName st)"
  "jget (StatusToMap st) ''containerName'' = JString (st_ContainerName st)"
  "jget (StatusToMap st) ''terminalReady'' = JBool (st_TerminalReady st)"
  "jget (StatusToMap st) ''createdAt'' = jget (time_field ''createdAt'' (st_CreatedAt st)) ''createdAt''"
  "jget (StatusToMap st) ''expiresAt'' = jget (time_field ''expiresAt'' (st_ExpiresAt st)) ''expiresAt''"
  by (simp_all add: StatusToMap_def jget_append)
    (simp_all add: time_field_def split: option.split)

lemma StatusFromMap_StatusToMap:
  "printable_status st \<Longrightarrow> StatusFromMap (StatusToMap st) = stored_status st"
  by (simp add: StatusFromMap_def jget_StatusToMap parse_time_field printable_status_def
      stored_status_def)

lemma SpecFromMap_SpecToMap:
  assumes "lawful_accessors K"
  shows "SpecFromMap K (SpecToMap spec) = spec"
proof -
  have n: "map_of m k = Some (JObject v) \<Longrightarrow> nested_or_nil K m k = v" for m k v
    using assms by (simp add: nested_or_nil_def lawful_accessors_def)
  have "nested_or_nil K (SpecToMap spec) ''repo'' =
      [(''url'', JString (repo_URL (sp_Repo spec))), (''branch'', JString (repo_Branch (sp_Repo spec)))]"
    "nested_or_nil K (SpecToMap spec) ''isolation'' =
      [(''profile'', JString (iso_Profile (sp_Isolation spec)))]"
    by (rule n, simp add: SpecToMap_def)+
  then show ?thesis by (simp add: SpecFromMap_def Let_def) (simp add: SpecToMap_def)
qed

text \<open>What a reader sees of a session that was written as a new object.\<close>

definition stored_session :: "AgentSession \<Rightarrow> AgentSession" where
  "stored_session s =
     \<lparr>s_APIVersion = GroupVersion, s_Kind = Kind,
      s_Meta = (s_Meta s)\<lparr>m_CreationTimestamp := zero_time, m_DeletionTimestamp := None\<rparr>,
      s_Spec = s_Spec s,
      s_Status = (if st_Phase (s_Status s) = [] then zero_status else stored_status (s_Status s))\<rparr>"

lemma metadata_object: "jget (metadata u) k \<noteq> JNull \<Longrightarrow> \<exists>md. jget u ''metadata'' = JObject md"
  by (auto simp: metadata_def split: json.splits)

lemma other_fields_kept_refl: "other_fields_kept f u u"
  by (simp add: other_fields_kept_def)

lemma write_finalizers:
  fixes fs :: "string list"
  assumes "lawful_accessors K" "jget u ''metadata'' = JObject md" "map_of (metadata u) ''finalizers'' = None"
  defines "u' \<equiv> (if fs \<noteq> [] then k_SetFinalizers K u fs else u)"
  shows "\<exists>md'. jget u' ''metadata'' = JObject md'"
    and "other_fields_kept ''finalizers'' u u'"
    and "fs \<noteq> [] \<Longrightarrow> jget (metadata u') ''finalizers'' = JArray (map JString fs)"
    and "fs = [] \<Longrightarrow> map_of (metadata u') ''finalizers'' = None"
proof -
  have set: "fs \<noteq> [] \<Longrightarrow> jget (metadata u') ''finalizers'' = JArray (map JString fs) \<and>
      other_fields_kept ''finalizers'' u u'"
    using assms unfolding lawful_accessors_def by auto
  then show "fs \<noteq> [] \<Longrightarrow> jget (metadata u') ''finalizers'' = JArray (map JString fs)" by simp
  show "fs = [] \<Longrightarrow> map_of (metadata u') ''finalizers'' = None" using assms by simp
  show "other_fields_kept ''finalizers'' u u'"
    using set by (cases "fs = []") (auto simp: u'_def other_fields_kept_refl)
  show "\<exists>md'. jget u' ''metadata'' = JObject md'"
    using set assms(2) metadata_object [of u' "''finalizers''"] by (cases "fs = []") (simp_all add: u'_def)
qed

lemma write_uid:
  fixes x :: string
  assumes "lawful_accessors K" "jget u ''metadata'' = JObject md" "map_of (metadata u) ''uid'' = None"
  defines "u' \<equiv> (if x \<noteq> [] then k_SetUID K u x else u)"
  shows "other_fields_kept ''uid'' u u'" and "k_UID K u' = x"
proof -
  have set: "x \<noteq> [] \<Longrightarrow> jget (metadata u') ''uid'' = JString x \<and> other_fields_kept ''uid'' u u'"
    using assms unfolding lawful_accessors_def by auto
  have uid: "k_UID K v = stringValue (jget (metadata v) ''uid'')" for v
    using assms(1) unfolding lawful_accessors_def by simp
  show "other_fields_kept ''uid'' u u'"
    using set by (cases "x = []") (auto simp: u'_def other_fields_kept_refl)
  show "k_UID K u' = x"
    using set assms(3) by (cases "x = []") (simp_all add: uid u'_def jget_def)
qed

lemma written_metadata:
  fixes s :: AgentSession
  assumes "lawful_accessors K"
  defines "u \<equiv> ToUnstructured K s"
  shows "k_Name K u = s_Name s" "k_Namespace K u = m_Namespace (s_Meta s)"
    "k_UID K u = m_UID (s_Meta s)" "k_Labels K u = m_Labels (s_Meta s)"
    "k_Finalizers K u = m_Finalizers (s_Meta s)"
    "k_CreationTimestamp K u = zero_time" "k_DeletionTimestamp K u = None"
    "map_of u ''spec'' = Some (JObject (SpecToMap (s_Spec s)))"
    "map_of u ''status'' = (if st_Phase (s_Status s) = [] then None
       else Some (JObject (StatusToMap (s_Status s))))"
proof -
  define f where "f = (if m_Finalizers (s_Meta s) \<noteq> []
    then k_SetFinalizers K (base_object s) (m_Finalizers (s_Meta s)) else base_object s)"
  define g where "g = (if m_UID (s_Meta s) \<noteq> [] then k_SetUID K f (m_UID (s_Meta s)) else f)"
  have base: "jget (base_object s) ''metadata'' = JObject (metadata (base_object s))"
    "map_of (metadata (base_object s)) ''finalizers'' = None"
    "map_of (metadata (base_object s)) ''uid'' = None"
    by (simp_all add: base_object_def metadata_def)
  note wf = write_finalizers [OF assms(1) base(1,2), of "m_Finalizers (s_Meta s)", folded f_def]
  obtain md where md: "jget f ''metadata'' = JObject md" using wf(1) by blast
  have "map_of (metadata f) ''uid'' = None"
    using wf(2) base(3) by (simp add: other_fields_kept_def)
  note wu = write_uid [OF assms(1) md this, of "m_UID (s_Meta s)", folded g_def]
  have u: "u = (if st_Phase (s_Status s) \<noteq> []
      then AList.update ''status'' (JObject (StatusToMap (s_Status s))) g else g)"
    by (simp add: u_def ToUnstructured_def f_def g_def Let_def)
  have m: "metadata u = metadata g" by (simp add: u metadata_def jget_def update_conv)
  have field: "map_of (metadata u) k = map_of (metadata (base_object s)) k"
    if "k \<noteq> ''uid''" "k \<noteq> ''finalizers''" for k
    using that wf(2) wu(1) m by (simp add: other_fields_kept_def)
  have fin: "map_of (metadata u) ''finalizers'' = map_of (metadata f) ''finalizers''"
    using wu(1) m by (simp add: other_fields_kept_def)
  have top: "map_of g k = map_of (base_object s) k" if "k \<noteq> ''metadata''" for k
    using that wf(2) wu(1) by (simp add: other_fields_kept_def)
  note K = assms(1) [unfolded lawful_accessors_def]
  show "k_Name K u = s_Name s" "k_Namespace K u = m_Namespace (s_Meta s)"
    "k_CreationTimestamp K u = zero_time" "k_DeletionTimestamp K u = None"
    using K field by (simp_all add: jget_def) (simp_all add: metadata_def base_object_def)
  show "k_Labels K u = m_Labels (s_Meta s)"
    using K field [of "''labels''"] by (simp add: jget_def) (simp add: metadata_def base_object_def)
  show "k_UID K u = m_UID (s_Meta s)"
    using wu(2) K m by simp
  show "k_Finalizers K u = m_Finalizers (s_Meta s)"
    using wf(3,4) fin K by (cases "m_Finalizers (s_Meta s) = []") (simp_all add: jget_def)
  show "map_of u ''spec'' = Some (JObject (SpecToMap (s_Spec s)))"
    using top [of "''spec''"] by (simp add: u update_conv) (simp add: base_object_def)
  show "map_of u ''status'' = (if st_Phase (s_Status s) = [] then None
       else Some (JObject (StatusToMap (s_Status s))))"
    using top [of "''status''"] by (simp add: u update_conv) (simp add: base_object_def)
qed

text \<open>
  Claim C31. Reading back the object written for a session gives the
  session: its name, namespace, identity, labels, finalizers and specification as they
  were, its status with the times cut to whole seconds and the container name filled in,
  or no status at all when its phase was empty.
\<close>

theorem unstructured_roundtrip:
  assumes "lawful_accessors K" "printable_status (s_Status s)"
  shows "FromUnstructured K (Some (ToUnstructured K s)) = Inr (stored_session s)"
proof -
  note w = written_metadata [OF assms(1), of s]
  have "k_NestedMap K (ToUnstructured K s) ''spec'' = Inr (Some (SpecToMap (s_Spec s)))"
    using assms(1) w(8) by (simp add: lawful_accessors_def)
  moreover have "k_NestedMap K (ToUnstructured K s) ''status'' =
      Inr (if st_Phase (s_Status s) = [] then None else Some (StatusToMap (s_Status s)))"
    using assms(1) w(9) by (simp add: lawful_accessors_def)
  ultimately show ?thesis
    using w(1-7) SpecFromMap_SpecToMap [OF assms(1)] StatusFromMap_StatusToMap [OF assms(2)]
    by (simp add: FromUnstructured_def stored_session_def)
qed

definition example_session :: AgentSession where
  "example_session = NewAgentSession ''sess-1'' DefaultSessionNamespace sample_spec (UnixTime 1700000000)"

lemma example_printable: "printable_status (s_Status example_session)"
  by code_simp

theorem unstructured_roundtrip_witness:
  "FromUnstructured test_cluster (Some (ToUnstructured test_cluster example_session)) =
   Inr (stored_session example_session)"
  by (rule unstructured_roundtrip [OF test_cluster_lawful example_printable])

subsection \<open>Listing\<close>

lemma convert_items_owned:
  "convert_items K userID us = Inr ss \<Longrightarrow> userID \<noteq> [] \<Longrightarrow> s \<in> set ss \<Longrightarrow> s_UserID s = userID"
  by (induction us arbitrary: ss) (auto split: sum.splits if_splits)

lemma kube_List_owned:
  "kube_List K ns userID w = (Inr ss, w') \<Longrightarrow> userID \<noteq> [] \<Longrightarrow> s \<in> set ss \<Longrightarrow> s_UserID s = userID"
  by (auto simp: kube_List_def convert_items_owned split: prod.splits sum.splits)

end
