(* ===== verification/Cask_Store.thy ===== *)
theory Cask_Store
  imports Cask_Kube
begin

text \<open>
  The \<open>Store\<close> interface of \<open>internal/api/server.go\<close>, as a record of operations and as
  two locales: what every store promises (a list for a user holds that user's sessions
  only) and what a reliable one promises besides (its operations read and change a map of
  sessions by name, one session at a time). The clients of the interface are verified in the
  locales; the in-memory store of \<open>internal/api/memory_store.go\<close> is reliable, and the
  Kubernetes store of \<open>internal/kube/client.go\<close> keeps the weaker contract over every
  cluster.
\<close>

record 'w store =
  so_Ready :: "'w \<Rightarrow> kerr option \<times> 'w"
  so_Create :: "AgentSession \<Rightarrow> 'w \<Rightarrow> (kerr + AgentSession) \<times> 'w"
  so_List :: "string \<Rightarrow> 'w \<Rightarrow> (kerr + AgentSession list) \<times> 'w"
  so_Get :: "string \<Rightarrow> 'w \<Rightarrow> (kerr + AgentSession) \<times> 'w"
  so_Delete :: "string \<Rightarrow> 'w \<Rightarrow> kerr option \<times> 'w"

locale session_store =
  fixes S :: "'w store"
  assumes list_owned:
    "so_List S userID w = (Inr ss, w') \<Longrightarrow> userID \<noteq> [] \<Longrightarrow> s \<in> set ss \<Longrightarrow> s_UserID s = userID"

text \<open>
  \<open>view\<close> is what the store holds. Listing may keep any order; creating may complete the
  status the caller passed but neither the name, the owner nor the rest of the specification.
\<close>

locale reliable_store = session_store S for S :: "'w store" +
  fixes view :: "'w \<Rightarrow> string \<Rightarrow> AgentSession option"
    and inv :: "'w \<Rightarrow> bool"
  assumes ready: "inv w \<Longrightarrow> so_Ready S w = (None, w)"
    and get_found: "inv w \<Longrightarrow> view w n = Some s \<Longrightarrow> so_Get S n w = (Inr s, w)"
    and get_missing: "inv w \<Longrightarrow> view w n = None \<Longrightarrow> \<exists>e. so_Get S n w = (Inl e, w)"
    and list_ok: "inv w \<Longrightarrow> \<exists>ss. so_List S userID w = (Inr ss, w) \<and> distinct (map s_Name ss) \<and>
      set ss = {s. \<exists>n. view w n = Some s \<and> (userID = [] \<or> s_UserID s = userID)}"
    and create_ok: "inv w \<Longrightarrow> \<exists>s' w'. so_Create S s w = (Inr s', w') \<and> inv w' \<and>
      view w' = (view w)(s_Name s \<mapsto> s') \<and> s_Name s' = s_Name s \<and> s_Spec s' = s_Spec s"
    and delete_found: "inv w \<Longrightarrow> view w n = Some s \<Longrightarrow>
      \<exists>w'. so_Delete S n w = (None, w') \<and> inv w' \<and> view w' = (view w)(n := None)"
    and delete_missing: "inv w \<Longrightarrow> view w n = None \<Longrightarrow> \<exists>e. so_Delete S n w = (Some e, w)"
    and view_name: "inv w \<Longrightarrow> view w n = Some s \<Longrightarrow> s_Name s = n"

subsection \<open>The in-memory store\<close>

text \<open>
  \<open>m.sessions\<close> maps names to pointers that only the store holds (every session enters by
  a shallow copy and leaves by \<open>clone\<close>), so the map holds the sessions themselves. The
  order of the association list is the order in which \<open>List\<close> ranges over the map.
\<close>

record MemoryStore =
  ms_sessions :: "(string \<times> AgentSession) list"
  ms_AutoRun :: bool

definition NewMemoryStore :: "bool \<Rightarrow> MemoryStore" where
  "NewMemoryStore autoRun = \<lparr>ms_sessions = [], ms_AutoRun = autoRun\<rparr>"

definition maps_Copy :: "(string \<times> string) list \<Rightarrow> (string \<times> string) list \<Rightarrow> (string \<times> string) list" where
  "maps_Copy dst src = foldl (\<lambda>m (k, v). AList.update k v m) dst src"

definition clone :: "AgentSession \<Rightarrow> AgentSession" where
  "clone s = s\<lparr>s_Meta := (s_Meta s)\<lparr>m_Labels := maps_Copy [] (m_Labels (s_Meta s))\<rparr>\<rparr>"

definition ms_Ready :: "MemoryStore \<Rightarrow> kerr option \<times> MemoryStore" where
  "ms_Ready m = (None, m)"

definition ms_auto_run :: "AgentSession \<Rightarrow> AgentSession" where
  "ms_auto_run s = s\<lparr>s_Status := (s_Status s)\<lparr>st_Phase := PhaseRunning,
     st_PodName := ''memory-'' @ s_Name s, st_ContainerName := ContainerName,
     st_TerminalReady := True\<rparr>\<rparr>"

definition ms_Create :: "AgentSession \<Rightarrow> MemoryStore \<Rightarrow> (kerr + AgentSession) \<times> MemoryStore" where
  "ms_Create session m =
     (let copySession = (if ms_AutoRun m then ms_auto_run session else session)
      in (Inr (clone copySession),
          m\<lparr>ms_sessions := AList.update (s_Name session) copySession (ms_sessions m)\<rparr>))"

definition ms_List :: "string \<Rightarrow> MemoryStore \<Rightarrow> (kerr + AgentSession list) \<times> MemoryStore" where
  "ms_List userID m =
     (Inr (map clone (filter (\<lambda>s. userID = [] \<or> s_UserID s = userID) (map snd (ms_sessions m)))), m)"

definition ms_not_found :: "string \<Rightarrow> kerr" where
  "ms_not_found i = OtherError (''session '' @ i @ '' not found'')"

definition ms_Get :: "string \<Rightarrow> MemoryStore \<Rightarrow> (kerr + AgentSession) \<times> MemoryStore" where
  "ms_Get i m =
     (case map_of (ms_sessions m) i of
        None \<Rightarrow> (Inl (ms_not_found i), m)
      | Some session \<Rightarrow> (Inr (clone session), m))"

definition ms_Delete :: "string \<Rightarrow> MemoryStore \<Rightarrow> kerr option \<times> MemoryStore" where
  "ms_Delete i m =
     (case map_of (ms_sessions m) i of
        None \<Rightarrow> (Some (ms_not_found i), m)
      | Some session \<Rightarrow> (None, m\<lparr>ms_sessions := AList.delete i (ms_sessions m)\<rparr>))"

definition memory_store :: "MemoryStore store" where
  "memory_store = \<lparr>so_Ready = ms_Ready, so_Create = ms_Create, so_List = ms_List,
     so_Get = ms_Get, so_Delete = ms_Delete\<rparr>"

text \<open>Keys are distinct and each is the name of its session.\<close>

definition ms_inv :: "MemoryStore \<Rightarrow> bool" where
  "ms_inv m \<longleftrightarrow> distinct (map fst (ms_sessions m)) \<and>
     list_all (\<lambda>(n, s). s_Name s = n) (ms_sessions m)"

definition ms_view :: "MemoryStore \<Rightarrow> string \<Rightarrow> AgentSession option" where
  "ms_view m n = map_option clone (map_of (ms_sessions m) n)"

lemma clone_simps [simp]:
  "s_Name (clone s) = s_Name s" "s_Spec (clone s) = s_Spec s" "s_Status (clone s) = s_Status s"
  by (simp_all add: clone_def)

lemma ms_auto_run_simps [simp]:
  "s_Meta (ms_auto_run s) = s_Meta s" "s_Spec (ms_auto_run s) = s_Spec s"
  by (simp_all add: ms_auto_run_def)

lemma ms_invD: "ms_inv m \<Longrightarrow> map_of (ms_sessions m) n = Some s \<Longrightarrow> s_Name s = n"
  by (auto simp: ms_inv_def list_all_iff dest: map_of_SomeD)

lemma set_update_subset: "set (AList.update k v xs) \<subseteq> insert (k, v) (set xs)"
  by (induction xs) auto

lemma ms_inv_update: "ms_inv m \<Longrightarrow> s_Name s = n \<Longrightarrow>
    ms_inv (m\<lparr>ms_sessions := AList.update n s (ms_sessions m)\<rparr>)"
  using set_update_subset [of n s "ms_sessions m"]
  by (fastforce simp: ms_inv_def list_all_iff distinct_update)

lemma ms_inv_delete: "ms_inv m \<Longrightarrow> ms_inv (m\<lparr>ms_sessions := AList.delete n (ms_sessions m)\<rparr>)"
  by (auto simp: ms_inv_def list_all_iff AList.delete_eq distinct_map_filter)

lemma ms_names: "ms_inv m \<Longrightarrow> map s_Name (map snd (ms_sessions m)) = map fst (ms_sessions m)"
  by (auto simp: ms_inv_def list_all_iff)

lemma ms_List_names:
  assumes "ms_inv m"
  shows "distinct (map s_Name (map clone (filter P (map snd (ms_sessions m)))))"
proof -
  have "distinct (map s_Name (filter P (map snd (ms_sessions m))))"
    using assms ms_names [OF assms] by (intro distinct_map_filter) (simp add: ms_inv_def del: map_map)
  then show ?thesis by (simp add: comp_def)
qed

lemma ms_view_mem:
  assumes "ms_inv m"
  shows "(\<exists>n. ms_view m n = Some s) \<longleftrightarrow> s \<in> clone ` snd ` set (ms_sessions m)"
proof -
  have "distinct (map fst (ms_sessions m))" using assms by (simp add: ms_inv_def)
  then show ?thesis by (force simp: ms_view_def)
qed

interpretation mem: reliable_store memory_store ms_view ms_inv
proof
  fix userID w ss w' s
  assume "so_List memory_store userID w = (Inr ss, w')" "userID \<noteq> []" "s \<in> set ss"
  then show "s_UserID s = userID" by (auto simp: memory_store_def ms_List_def)
next
  fix w :: MemoryStore and s n
  assume "ms_inv w" "ms_view w n = Some s"
  then show "\<exists>w'. so_Delete memory_store n w = (None, w') \<and> ms_inv w' \<and> ms_view w' = (ms_view w)(n := None)"
    by (auto simp: memory_store_def ms_Delete_def ms_view_def fun_eq_iff delete_conv
        intro!: ms_inv_delete)
next
  fix w :: MemoryStore and s
  assume "ms_inv w"
  then show "\<exists>s' w'. so_Create memory_store s w = (Inr s', w') \<and> ms_inv w' \<and>
      ms_view w' = (ms_view w)(s_Name s \<mapsto> s') \<and> s_Name s' = s_Name s \<and> s_Spec s' = s_Spec s"
    by (auto simp: memory_store_def ms_Create_def ms_view_def Let_def fun_eq_iff update_conv
        intro!: ms_inv_update)
next
  fix w :: MemoryStore and userID
  assume inv: "ms_inv w"
  let ?P = "\<lambda>s. userID = [] \<or> s_UserID s = userID"
  have "set (map clone (filter ?P (map snd (ms_sessions w)))) = {s \<in> clone ` snd ` set (ms_sessions w). ?P s}"
    by auto
  with ms_List_names [OF inv, of ?P] ms_view_mem [OF inv]
  show "\<exists>ss. so_List memory_store userID w = (Inr ss, w) \<and> distinct (map s_Name ss) \<and>
      set ss = {s. \<exists>n. ms_view w n = Some s \<and> ?P s}"
    by (simp add: memory_store_def ms_List_def)
qed (auto simp: memory_store_def ms_Ready_def ms_Get_def ms_Delete_def ms_view_def dest: ms_invD)

subsection \<open>The Kubernetes store\<close>

definition kube_store :: "'w cluster \<Rightarrow> string \<Rightarrow> 'w store" where
  "kube_store K ns = \<lparr>so_Ready = kube_Ready K ns, so_Create = kube_Create K ns,
     so_List = kube_List K ns, so_Get = kube_Get K ns, so_Delete = kube_Delete K ns\<rparr>"

interpretation kube: session_store "kube_store K ns" for K :: "'w cluster" and ns :: string
  by unfold_locales (auto simp: kube_store_def dest: kube_List_owned)

end
