(* ===== verification/Cask_Redact.thy ===== *)
theory Cask_Redact
  imports Cask_Http
begin

text \<open>
  \<open>internal/redact/redact.go\<close>: the sentinel, the two regular expressions whose values
  are masked, masking of a text and of HTTP headers, and the test for secret-looking
  field names.
\<close>

definition Sentinel :: string where
  "Sentinel = ''REAL_UPSTREAM_KEY_SHOULD_NEVER_LEAK''"

definition sensitiveHeaderNames :: "string set" where
  "sensitiveHeaderNames = {''authorization'', ''cookie'', ''set-cookie'', ''x-api-key'',
     ''openai-api-key'', ''anthropic-api-key''}"

definition Redacted :: string where
  "Redacted = ''[REDACTED]''"

text \<open>\<open>\s\<close> of \<open>regexp\<close>: tab, newline, form feed, carriage return and space.\<close>

definition re_space :: "char \<Rightarrow> bool" where
  "re_space c \<longleftrightarrow> c \<in> set [CHR 0x09, CHR 0x0A, CHR 0x0C, CHR 0x0D, CHR 0x20]"

text \<open>
  Each pattern is \<open>(head)[^\s]+\<close>: a head that is kept and a value, the longest run of
  non-space bytes. The head matchers below return the text from the value on, if the head
  matches at the front of the text and a value follows. No head can match in two ways
  (after \<open>\s*\<close> comes a letter or \<open>=\<close>), so backtracking never changes the result.
\<close>

definition value_follows :: "string \<Rightarrow> string option" where
  "value_follows s = (case s of [] \<Rightarrow> None | c # cs \<Rightarrow> if re_space c then None else Some s)"

definition bearer_head :: "string \<Rightarrow> string option" where
  \<comment> \<open>\<open>(?i)(Authorization:\s*Bearer\s+)\<close>\<close>
  "bearer_head s = do {
     r1 \<leftarrow> eat_ci ''authorization:'' s;
     r2 \<leftarrow> eat_ci ''bearer'' (dropWhile re_space r1);
     (if r2 \<noteq> [] \<and> re_space (hd r2) then value_follows (dropWhile re_space r2) else None)
   }"

definition key_name :: "string \<Rightarrow> string option" where
  \<comment> \<open>\<open>(?i)(OPENAI_API_KEY|ANTHROPIC_API_KEY|CASK_SESSION_TOKEN)\<close>\<close>
  "key_name s =
     (case eat_ci ''openai_api_key'' s of
        Some r \<Rightarrow> Some r
      | None \<Rightarrow>
          (case eat_ci ''anthropic_api_key'' s of
             Some r \<Rightarrow> Some r
           | None \<Rightarrow> eat_ci ''cask_session_token'' s))"

definition key_head :: "string \<Rightarrow> string option" where
  \<comment> \<open>\<open>(?i)((...)\s*=\s*)\<close>\<close>
  "key_head s = do {
     r1 \<leftarrow> key_name s;
     r2 \<leftarrow> eat_ci ''='' (dropWhile re_space r1);
     value_follows (dropWhile re_space r2)
   }"

text \<open>
  \<open>pattern.ReplaceAllString(s, "${1}[REDACTED]")\<close>: a scan from the left; a match keeps
  its head, replaces its value and the scan goes on after the value. The guard on the
  length holds whenever the head matcher returns a suffix, as both matchers do.
\<close>

function mask :: "(string \<Rightarrow> string option) \<Rightarrow> string \<Rightarrow> string" where
  "mask h [] = []"
| "mask h (c # cs) =
     (case h (c # cs) of
        None \<Rightarrow> c # mask h cs
      | Some v \<Rightarrow>
          (if length (dropWhile (Not \<circ> re_space) v) \<le> length cs
           then take (length (c # cs) - length v) (c # cs) @ Redacted @
                mask h (dropWhile (Not \<circ> re_space) v)
           else c # mask h cs))"
  by pat_completeness auto
termination
  by (relation "measure (\<lambda>(h, s). length s)") auto

definition redact_String :: "string \<Rightarrow> string" where
  "redact_String s = mask key_head (mask bearer_head (ReplaceAll s Sentinel Redacted))"

text \<open>\<open>redact.Header\<close>: the loop over the entries, building a new header with \<open>Set\<close> and \<open>Add\<close>.\<close>

fun redact_entry :: "header \<Rightarrow> string \<times> string list \<Rightarrow> header" where
  "redact_entry out (key, values) =
     (if ToLower key \<in> sensitiveHeaderNames then hdr_Set out key Redacted
      else foldl (\<lambda>out value. hdr_Add out key (redact_String value)) out values)"

definition redact_Header :: "header \<Rightarrow> header" where
  "redact_Header h = foldl redact_entry [] h"

definition secretFragments :: "string list" where
  "secretFragments = [''apikey'', ''api_key'', ''password'', ''passwd'', ''secret'',
     ''credential'', ''privatekey'', ''private_key'', ''token'', ''runtimeclassname'']"

definition ContainsSecretLikeKey :: "string \<Rightarrow> bool" where
  "ContainsSecretLikeKey key =
     (let l = ToLower key in list_ex (\<lambda>fragment. Contains l fragment) secretFragments)"

declare eat_ci.simps [simp del]

subsection \<open>What a folded word consumes\<close>

text \<open>The byte sequences that fold to one ASCII lower-case character.\<close>

inductive fold_block :: "char \<Rightarrow> string \<Rightarrow> bool" where
  single: "code c < 128 \<Longrightarrow> fold_block (lower c) [c]"
| kelvin: "fold_block (CHR ''k'') [CHR 0xE2, CHR 0x84, CHR 0xAA]"
| long_s: "fold_block (CHR ''s'') [CHR 0xC5, CHR 0xBF]"

inductive folds :: "string \<Rightarrow> string \<Rightarrow> bool" where
  Nil: "folds [] []"
| Cons: "fold_block p b \<Longrightarrow> folds w g \<Longrightarrow> folds (p # w) (b @ g)"

inductive_simps folds_Nil_iff [simp]: "folds [] g"
inductive_simps folds_Cons_iff: "folds (p # w) g"

lemma lower_ascii: "code (lower c) < 128 \<Longrightarrow> code c < 128"
  by (auto simp: lower_def code_def split: if_splits)

lemma fold_head_block:
  assumes "code p < 128"
  shows "fold_head s = Some (p, r) \<longleftrightarrow> (\<exists>b. s = b @ r \<and> fold_block p b)"
proof
  assume "fold_head s = Some (p, r)"
  then show "\<exists>b. s = b @ r \<and> fold_block p b"
    using assms by (cases s)
      (auto simp: prefix_def split: if_splits intro: fold_block.intros dest!: lower_ascii)
next
  assume "\<exists>b. s = b @ r \<and> fold_block p b"
  then show "fold_head s = Some (p, r)"
    by (auto elim!: fold_block.cases simp: code_def)
qed

lemma eat_ci_iff:
  "\<forall>p \<in> set w. code p < 128 \<Longrightarrow> eat_ci w s = Some r \<longleftrightarrow> (\<exists>g. s = g @ r \<and> folds w g)"
proof (induction w arbitrary: s)
  case Nil
  then show ?case by (auto simp: eat_ci.simps)
next
  case (Cons p w)
  have "eat_ci (p # w) s = Some r \<longleftrightarrow>
      (\<exists>r'. fold_head s = Some (p, r') \<and> eat_ci w r' = Some r)"
    by (auto simp: eat_ci.simps split: option.splits if_splits)
  also have "\<dots> \<longleftrightarrow> (\<exists>g. s = g @ r \<and> folds (p # w) g)"
    using Cons by (auto simp: fold_head_block folds_Cons_iff) (metis, blast)
  finally show ?case .
qed

lemma fold_block_nonempty: "fold_block p b \<Longrightarrow> b \<noteq> []"
  by (auto elim: fold_block.cases)

lemma fold_block_ascii: "fold_block p b \<Longrightarrow> c \<in> set b \<Longrightarrow> code c < 128 \<Longrightarrow> lower c = p"
  by (auto elim!: fold_block.cases simp: code_def)

lemma folds_ascii: "folds w g \<Longrightarrow> c \<in> set g \<Longrightarrow> code c < 128 \<Longrightarrow> lower c \<in> set w"
  by (induction rule: folds.induct) (auto dest: fold_block_ascii)

lemma folds_hd:
  assumes "folds (p # w) g"
  shows "g \<noteq> []" "code (hd g) < 128 \<Longrightarrow> lower (hd g) = p"
proof -
  from assms obtain b r where g: "g = b @ r" "fold_block p b" by (auto simp: folds_Cons_iff)
  with fold_block_nonempty have "b \<noteq> []" by blast
  with g show "g \<noteq> []" by simp
  from \<open>b \<noteq> []\<close> g have "hd g \<in> set b" by simp
  with g(2) show "lower (hd g) = p" if "code (hd g) < 128"
    using that by (rule fold_block_ascii)
qed

text \<open>Punctuation has a single case, and is not white space.\<close>

lemma lower_fixed: "code c < 65 \<or> 90 < code c \<Longrightarrow> lower c = c"
  by (auto simp: lower_def)

lemma lower_eq_fixed: "lower c = p \<Longrightarrow> code p < 97 \<Longrightarrow> c = p"
  by (auto simp: lower_def code_def split: if_splits)

lemma folds_equals_iff: "folds ''='' g \<longleftrightarrow> g = ''=''"
proof
  assume "folds ''='' g"
  then have "fold_block (CHR ''='') g" by (auto simp: folds_Cons_iff)
  then show "g = ''=''"
  proof (rule fold_block.cases)
    fix c assume "CHR ''='' = lower c" "g = [c]"
    moreover have "code (CHR ''='') < 97" by (simp add: code_def)
    ultimately show "g = ''=''" using lower_eq_fixed by metis
  next
    assume "CHR ''='' = CHR ''k''" then show "g = ''=''" by simp
  next
    assume "CHR ''='' = CHR ''s''" then show "g = ''=''" by simp
  qed
next
  assume "g = ''=''"
  moreover have "fold_block (lower (CHR ''='')) ''=''"
    by (rule fold_block.single) (simp add: code_def)
  ultimately show "folds ''='' g"
    by (simp add: folds_Cons_iff lower_def code_def)
qed

subsection \<open>The heads of the two patterns\<close>

definition spaces :: "string \<Rightarrow> bool" where
  "spaces w \<longleftrightarrow> (\<forall>c \<in> set w. re_space c)"

definition value_start :: "string \<Rightarrow> bool" where
  "value_start v \<longleftrightarrow> v \<noteq> [] \<and> \<not> re_space (hd v)"

definition bearer_text :: "string \<Rightarrow> bool" where
  "bearer_text g \<longleftrightarrow> (\<exists>g1 w1 g2 w2. g = g1 @ w1 @ g2 @ w2 \<and> folds ''authorization:'' g1 \<and>
     spaces w1 \<and> folds ''bearer'' g2 \<and> spaces w2 \<and> w2 \<noteq> [])"

lemma bearer_textI:
  "folds ''authorization:'' g1 \<Longrightarrow> spaces w1 \<Longrightarrow> folds ''bearer'' g2 \<Longrightarrow> spaces w2 \<Longrightarrow>
     w2 \<noteq> [] \<Longrightarrow> bearer_text (g1 @ w1 @ g2 @ w2)"
  unfolding bearer_text_def by blast

definition key_words :: "string set" where
  "key_words = {''openai_api_key'', ''anthropic_api_key'', ''cask_session_token''}"

definition key_text :: "string \<Rightarrow> bool" where
  "key_text g \<longleftrightarrow> (\<exists>w g1 w1 w2. w \<in> key_words \<and> g = g1 @ w1 @ ''='' @ w2 \<and> folds w g1 \<and>
     spaces w1 \<and> spaces w2)"

lemma value_follows_iff: "value_follows s = Some v \<longleftrightarrow> v = s \<and> value_start v"
  by (auto simp: value_follows_def value_start_def split: list.splits)

lemma skip_iff:
  "dropWhile re_space r = x \<longleftrightarrow> (\<exists>w. r = w @ x \<and> spaces w \<and> (x = [] \<or> \<not> re_space (hd x)))"
proof
  assume "dropWhile re_space r = x"
  then show "\<exists>w. r = w @ x \<and> spaces w \<and> (x = [] \<or> \<not> re_space (hd x))"
    by (intro exI [of _ "takeWhile re_space r"])
      (auto simp: spaces_def hd_dropWhile dest: set_takeWhileD)
next
  assume "\<exists>w. r = w @ x \<and> spaces w \<and> (x = [] \<or> \<not> re_space (hd x))"
  then show "dropWhile re_space r = x"
    by (auto simp: spaces_def dropWhile_append2) (cases x; simp)
qed

lemma word_ascii:
  "\<forall>p \<in> set ''authorization:''. code p < 128" "\<forall>p \<in> set ''bearer''. code p < 128"
  "\<forall>p \<in> set ''openai_api_key''. code p < 128" "\<forall>p \<in> set ''anthropic_api_key''. code p < 128"
  "\<forall>p \<in> set ''cask_session_token''. code p < 128" "\<forall>p \<in> set ''=''. code p < 128"
  by (simp_all add: code_def)

lemma re_space_ascii: "re_space c \<Longrightarrow> code c \<le> 32"
  by (auto simp: re_space_def code_def)

lemma folds_hd_not_space:
  assumes "folds (p # w) g" "32 < code p"
  shows "\<not> re_space (hd g)"
  using folds_hd [OF assms(1)] assms(2) re_space_ascii [of "hd g"] lower_fixed [of "hd g"]
  by fastforce

lemma bearer_head_iff:
  "bearer_head s = Some v \<longleftrightarrow> value_start v \<and> (\<exists>g. s = g @ v \<and> bearer_text g)"
proof
  assume "bearer_head s = Some v"
  then obtain r1 r2 where
    "eat_ci ''authorization:'' s = Some r1" "eat_ci ''bearer'' (dropWhile re_space r1) = Some r2"
    and r2: "r2 \<noteq> []" "re_space (hd r2)" "value_follows (dropWhile re_space r2) = Some v"
    by (auto simp: bearer_head_def bind_eq_Some_conv split: if_splits)
  then obtain g1 g2 where "s = g1 @ r1" "folds ''authorization:'' g1"
    "dropWhile re_space r1 = g2 @ r2" "folds ''bearer'' g2"
    by (auto simp: eat_ci_iff [OF word_ascii(1)] eat_ci_iff [OF word_ascii(2)])
  moreover from this obtain w1 where "r1 = w1 @ g2 @ r2" "spaces w1" by (auto simp: skip_iff)
  moreover from r2 have "dropWhile re_space r2 = v" "value_start v"
    by (auto simp: value_follows_iff)
  then obtain w2 where "r2 = w2 @ v" "spaces w2" by (auto simp: skip_iff)
  moreover from this r2 \<open>value_start v\<close> have "w2 \<noteq> []" by (auto simp: value_start_def)
  ultimately have "s = (g1 @ w1 @ g2 @ w2) @ v" "bearer_text (g1 @ w1 @ g2 @ w2)"
    by (auto intro: bearer_textI)
  with \<open>value_start v\<close> show "value_start v \<and> (\<exists>g. s = g @ v \<and> bearer_text g)" by blast
next
  assume "value_start v \<and> (\<exists>g. s = g @ v \<and> bearer_text g)"
  then obtain g1 w1 g2 w2 where s: "s = g1 @ w1 @ g2 @ w2 @ v" and v: "value_start v"
    and f: "folds ''authorization:'' g1" "spaces w1" "folds ''bearer'' g2" "spaces w2" "w2 \<noteq> []"
    by (auto simp: bearer_text_def)
  have "eat_ci ''authorization:'' s = Some (w1 @ g2 @ w2 @ v)"
    using f s by (auto simp: eat_ci_iff [OF word_ascii(1)])
  moreover have "dropWhile re_space (w1 @ g2 @ w2 @ v) = g2 @ w2 @ v"
    using f(2) folds_hd_not_space [OF f(3)] folds_hd(1) [OF f(3)]
    by (auto simp: skip_iff code_def)
  moreover have "eat_ci ''bearer'' (g2 @ w2 @ v) = Some (w2 @ v)"
    using f(3) by (auto simp: eat_ci_iff [OF word_ascii(2)])
  moreover have "dropWhile re_space (w2 @ v) = v"
    using f(4) v by (auto simp: skip_iff value_start_def)
  moreover have "re_space (hd (w2 @ v))" using f(4,5) by (auto simp: spaces_def)
  ultimately show "bearer_head s = Some v"
    using f(5) v by (simp add: bearer_head_def value_follows_iff)
qed

lemma eat_ci_first: "eat_ci (p # w) s = Some r \<Longrightarrow> \<exists>r'. fold_head s = Some (p, r')"
  by (auto simp: eat_ci.simps split: option.splits if_splits)

text \<open>The three names start with different letters or differ in the second one.\<close>

lemma key_name_iff:
  "key_name s = Some r \<longleftrightarrow> (\<exists>w \<in> key_words. \<exists>g. s = g @ r \<and> folds w g)"
proof -
  have a: "eat_ci ''openai_api_key'' s = None" if "eat_ci ''anthropic_api_key'' s = Some x" for x
    using eat_ci_first [OF that] eat_ci_first [of "CHR ''o''" "''penai_api_key''" s]
    by (cases "eat_ci ''openai_api_key'' s") auto
  have c: "eat_ci ''openai_api_key'' s = None" "eat_ci ''anthropic_api_key'' s = None"
    if "eat_ci ''cask_session_token'' s = Some x" for x
    using eat_ci_first [OF that] eat_ci_first [of "CHR ''o''" "''penai_api_key''" s]
      eat_ci_first [of "CHR ''a''" "''nthropic_api_key''" s]
    by (cases "eat_ci ''openai_api_key'' s"; cases "eat_ci ''anthropic_api_key'' s"; auto)+
  have "key_name s = Some r \<longleftrightarrow> eat_ci ''openai_api_key'' s = Some r \<or>
      eat_ci ''anthropic_api_key'' s = Some r \<or> eat_ci ''cask_session_token'' s = Some r"
    using a c by (auto simp: key_name_def split: option.splits)
  then show ?thesis
    by (simp add: key_words_def eat_ci_iff [OF word_ascii(3)] eat_ci_iff [OF word_ascii(4)]
        eat_ci_iff [OF word_ascii(5)])
qed

lemma key_textI:
  "w \<in> key_words \<Longrightarrow> folds w g1 \<Longrightarrow> spaces w1 \<Longrightarrow> spaces w2 \<Longrightarrow>
     key_text (g1 @ w1 @ ''='' @ w2)"
  unfolding key_text_def by blast

lemma key_head_iff:
  "key_head s = Some v \<longleftrightarrow> value_start v \<and> (\<exists>g. s = g @ v \<and> key_text g)"
proof
  assume "key_head s = Some v"
  then obtain r1 r2 where
    "key_name s = Some r1" "eat_ci ''='' (dropWhile re_space r1) = Some r2"
    and r2: "value_follows (dropWhile re_space r2) = Some v"
    by (auto simp: key_head_def bind_eq_Some_conv)
  then obtain w g1 where "w \<in> key_words" "s = g1 @ r1" "folds w g1"
    "dropWhile re_space r1 = ''='' @ r2"
    by (auto simp: key_name_iff eat_ci_iff [OF word_ascii(6)] folds_equals_iff)
  moreover from this obtain w1 where "r1 = w1 @ ''='' @ r2" "spaces w1" by (auto simp: skip_iff)
  moreover from r2 have v: "dropWhile re_space r2 = v" "value_start v"
    by (auto simp: value_follows_iff)
  then obtain w2 where "r2 = w2 @ v" "spaces w2" by (auto simp: skip_iff)
  ultimately have "s = (g1 @ w1 @ ''='' @ w2) @ v" "key_text (g1 @ w1 @ ''='' @ w2)"
    by (auto intro: key_textI simp del: append_Cons)
  with v show "value_start v \<and> (\<exists>g. s = g @ v \<and> key_text g)" by blast
next
  assume "value_start v \<and> (\<exists>g. s = g @ v \<and> key_text g)"
  then obtain w g1 w1 w2 where s: "s = g1 @ w1 @ ''='' @ w2 @ v" and v: "value_start v"
    and f: "w \<in> key_words" "folds w g1" "spaces w1" "spaces w2"
    by (auto simp: key_text_def)
  have "key_name s = Some (w1 @ ''='' @ w2 @ v)"
    using f s by (auto simp: key_name_iff)
  moreover have "dropWhile re_space (w1 @ ''='' @ w2 @ v) = ''='' @ w2 @ v"
    using f(3) by (auto simp: skip_iff re_space_def)
  moreover have "eat_ci ''='' (''='' @ w2 @ v) = Some (w2 @ v)"
    by (auto simp: eat_ci_iff [OF word_ascii(6)] folds_equals_iff)
  moreover have "dropWhile re_space (w2 @ v) = v"
    using f(4) v by (auto simp: skip_iff value_start_def)
  ultimately show "key_head s = Some v"
    using v by (simp add: key_head_def value_follows_iff)
qed

text \<open>Bytes that do not occur in a head.\<close>

lemma folds_avoids: "folds w g \<Longrightarrow> code c < 65 \<or> 90 < code c \<Longrightarrow> code c < 128 \<Longrightarrow> c \<notin> set w \<Longrightarrow> c \<notin> set g"
  using folds_ascii [of w g c] lower_fixed [of c] by fastforce

lemma spaces_avoids: "spaces w \<Longrightarrow> 32 < code c \<Longrightarrow> c \<notin> set w"
  using re_space_ascii by (fastforce simp: spaces_def)

lemma bearer_text_avoids:
  assumes "bearer_text g" "c \<in> {CHR ''['', CHR ''=''}"
  shows "c \<notin> set g"
  using assms folds_avoids [of _ _ c] spaces_avoids [of _ c]
  by (auto simp: bearer_text_def code_def)

lemma key_text_avoids:
  assumes "key_text g" "c \<in> {CHR ''['', CHR '':''}"
  shows "c \<notin> set g"
  using assms folds_avoids [of _ _ c] spaces_avoids [of _ c]
  by (auto simp: key_text_def key_words_def code_def)

lemma folds_append_iff:
  "folds (u @ w) g \<longleftrightarrow> (\<exists>a b. g = a @ b \<and> folds u a \<and> folds w b)"
proof (induction u arbitrary: g)
  case Nil
  then show ?case by simp
next
  case (Cons p u)
  then show ?case by (auto simp: folds_Cons_iff) (metis append.assoc)+
qed

lemma fold_block_suffix_unique:
  "fold_block p b \<Longrightarrow> fold_block q c \<Longrightarrow> u @ b = v @ c \<Longrightarrow> p = q \<and> b = c"
  by (auto elim!: fold_block.cases simp: code_def)

text \<open>Decoding is unique from the end: a folded suffix comes from a suffix of the word.\<close>

lemma folds_suffix_unique:
  "folds w g \<Longrightarrow> folds w' g' \<Longrightarrow> g = a @ g' \<Longrightarrow> \<exists>x. w = x @ w' \<and> folds x a"
proof (induction w' arbitrary: w g g' rule: rev_induct)
  case Nil
  then show ?case by auto
next
  case (snoc q w')
  from snoc.prems(2) obtain g1 c where g': "g' = g1 @ c" "folds w' g1" "fold_block q c"
    by (auto simp: folds_append_iff folds_Cons_iff)
  from this snoc.prems have "g \<noteq> []" by (auto dest: fold_block_nonempty)
  with snoc.prems(1) obtain u p where w: "w = u @ [p]" by (cases w rule: rev_cases) auto
  with snoc.prems(1) obtain g2 b where g: "g = g2 @ b" "folds u g2" "fold_block p b"
    by (auto simp: folds_append_iff folds_Cons_iff)
  from fold_block_suffix_unique [OF g(3) g'(3), of g2 "a @ g1"] g(1) g'(1) snoc.prems(3)
  have "p = q" "b = c" by auto
  with g(1) g'(1) snoc.prems(3) have "g2 = a @ g1" by simp
  from snoc.IH [OF g(2) g'(2) this] w \<open>p = q\<close> show ?case by auto
qed

lemma folds_length:
  "folds w g \<Longrightarrow> CHR ''k'' \<notin> set w \<Longrightarrow> CHR ''s'' \<notin> set w \<Longrightarrow> length g = length w"
  by (induction rule: folds.induct) (auto elim!: fold_block.cases)

lemma bearer_text_colon:
  assumes "bearer_text g"
  shows "\<exists>p q. g = p @ CHR '':'' # q \<and> length p = 13 \<and> CHR '':'' \<notin> set p \<and> CHR '':'' \<notin> set q"
proof -
  from assms obtain g1 w1 g2 w2 where g: "g = g1 @ w1 @ g2 @ w2"
    "folds (''authorization'' @ '':'') g1" "spaces w1" "folds ''bearer'' g2" "spaces w2"
    by (auto simp: bearer_text_def)
  from iffD1 [OF folds_append_iff g(2)]
  obtain p b where p: "g1 = p @ b" "folds ''authorization'' p" "folds '':'' b" by blast
  from p(3) have block: "fold_block (CHR '':'') b" by (auto simp: folds_Cons_iff)
  have colon: "CHR '':'' \<in> set b" "length b = 1"
  proof -
    from block have "length b = 1 \<and> (\<exists>c. b = [c] \<and> CHR '':'' = lower c)"
      by (rule fold_block.cases) auto
    moreover have "code (CHR '':'') < 97" by (simp add: code_def)
    ultimately show "CHR '':'' \<in> set b" "length b = 1" using lower_eq_fixed by force+
  qed
  then have "b = '':''" by (cases b) auto
  moreover have "length p = 13" using folds_length [OF p(2)] by simp
  moreover have "CHR '':'' \<notin> set p" "CHR '':'' \<notin> set (w1 @ g2 @ w2)"
    using folds_avoids [OF p(2), of "CHR '':''"] folds_avoids [OF g(4), of "CHR '':''"]
      spaces_avoids [OF g(3), of "CHR '':''"] spaces_avoids [OF g(5), of "CHR '':''"]
    by (simp_all add: code_def)
  moreover from \<open>b = '':''\<close> have "g = p @ CHR '':'' # (w1 @ g2 @ w2)" using g(1) p(1) by simp
  ultimately show ?thesis by blast
qed

lemma bearer_text_no_overlap:
  assumes "bearer_text (a @ g @ b)" "bearer_text g"
  shows "a = []"
proof -
  obtain p q where G: "a @ g @ b = p @ CHR '':'' # q" "length p = 13" "CHR '':'' \<notin> set p"
    "CHR '':'' \<notin> set q"
    using bearer_text_colon [OF assms(1)] by blast
  obtain p' q' where g: "g = p' @ CHR '':'' # q'" "length p' = 13"
    using bearer_text_colon [OF assms(2)] by blast
  have "p @ CHR '':'' # q = (a @ p') @ CHR '':'' # (q' @ b)" using G(1) g(1) by simp
  then have "p = a @ p'" using append_Cons_eq_iff [OF G(3,4)] by blast
  with G(2) g(2) show ?thesis by simp
qed

lemma key_words_suffix:
  assumes "w \<in> key_words" "w' \<in> key_words" "w = x @ w'"
  shows "x = []"
proof -
  have "w' = drop (length w - length w') w" using assms(3) by simp
  with assms(1,2) have "w = w'" unfolding key_words_def by (elim insertE emptyE) simp_all
  with assms(3) show ?thesis by simp
qed

lemma strip_spaces:
  assumes "k @ w = l @ u" "spaces w" "spaces u"
    "k = [] \<or> \<not> re_space (last k)" "l = [] \<or> \<not> re_space (last l)"
  shows "k = l"
proof -
  have "dropWhile re_space (rev (k @ w)) = rev k" "dropWhile re_space (rev (l @ u)) = rev l"
    unfolding skip_iff using assms(2-) by (auto simp: spaces_def hd_rev)
  with assms(1) show ?thesis by simp
qed

lemma key_word_last:
  assumes "folds w g" "w \<in> key_words"
  shows "g \<noteq> []" "\<not> re_space (last g)"
proof -
  have "w \<noteq> []" using assms(2) by (auto simp: key_words_def)
  with assms(1) show "g \<noteq> []" by (cases w) (auto simp: folds_Cons_iff dest: fold_block_nonempty)
  have "c \<notin> set g" if "re_space c" for c
    using that assms(2) re_space_ascii [OF that]
    by (intro folds_avoids [OF assms(1)]) (auto simp: key_words_def re_space_def)
  with last_in_set [OF \<open>g \<noteq> []\<close>] show "\<not> re_space (last g)" by blast
qed

lemma key_text_no_overlap:
  assumes "key_text (a @ g @ b)" "key_text g"
  shows "a = []"
proof -
  have eq_avoid: "CHR ''='' \<notin> set k" if "folds w k" "w \<in> key_words" for w k
    using that by (intro folds_avoids [OF that(1)]) (auto simp: key_words_def code_def)
  have sp_avoid: "CHR ''='' \<notin> set w" if "spaces w" for w
    using spaces_avoids [OF that] by (simp add: code_def)
  from assms(1) obtain w k w1 w2 where G: "w \<in> key_words" "a @ g @ b = k @ w1 @ ''='' @ w2"
    "folds w k" "spaces w1" "spaces w2" unfolding key_text_def by blast
  from assms(2) obtain w' k' w1' w2' where g: "w' \<in> key_words" "g = k' @ w1' @ ''='' @ w2'"
    "folds w' k'" "spaces w1'" unfolding key_text_def by blast
  have "(k @ w1) @ CHR ''='' # w2 = (a @ k' @ w1') @ CHR ''='' # (w2' @ b)"
    using G(2) unfolding g(2) by (simp only: append_assoc append_Cons append_Nil)
  moreover have "CHR ''='' \<notin> set (k @ w1)" "CHR ''='' \<notin> set w2"
    using eq_avoid [OF G(3,1)] sp_avoid G(4,5) by auto
  ultimately have "k @ w1 = a @ k' @ w1'"
    using append_Cons_eq_iff [of "CHR ''=''" "k @ w1" w2 "a @ k' @ w1'" "w2' @ b"] by blast
  then have "k @ w1 = (a @ k') @ w1'" by simp
  then have "k = a @ k'"
  proof (rule strip_spaces [OF _ G(4) g(4)])
    show "k = [] \<or> \<not> re_space (last k)" using key_word_last(2) [OF G(3,1)] by (rule disjI2)
    show "a @ k' = [] \<or> \<not> re_space (last (a @ k'))"
      using key_word_last [OF g(3,1)] by simp
  qed
  from folds_suffix_unique [OF G(3) g(3) this]
  obtain x where x: "w = x @ w'" "folds x a" by blast
  from key_words_suffix [OF G(1) g(1) x(1)] x(2) show ?thesis by simp
qed

subsection \<open>Masking leaves nothing exposed\<close>

text \<open>
  A text exposes a value to a pattern if the pattern's head matches somewhere in it and the
  value that follows, up to the next white space or the end, is anything but the marker.
\<close>

definition exposes :: "(string \<Rightarrow> string option) \<Rightarrow> string \<Rightarrow> bool" where
  "exposes h s \<longleftrightarrow> (\<exists>t v. suffix t s \<and> h t = Some v \<and> takeWhile (Not \<circ> re_space) v \<noteq> Redacted)"

text \<open>The value is the marker when white space or the end comes next.\<close>

definition ended :: "string \<Rightarrow> bool" where
  "ended y \<longleftrightarrow> y = [] \<or> re_space (hd y)"

lemma ended_dropWhile [simp]: "ended (dropWhile (Not \<circ> re_space) v)"
  using hd_dropWhile [of "Not \<circ> re_space" v] by (auto simp: ended_def)

lemma marked_value: "takeWhile (Not \<circ> re_space) v = Redacted \<longleftrightarrow> (\<exists>y. v = Redacted @ y \<and> ended y)"
proof
  assume "takeWhile (Not \<circ> re_space) v = Redacted"
  then have "v = Redacted @ dropWhile (Not \<circ> re_space) v"
    using takeWhile_dropWhile_id [of "Not \<circ> re_space" v] by simp
  then show "\<exists>y. v = Redacted @ y \<and> ended y" using ended_dropWhile by blast
next
  assume "\<exists>y. v = Redacted @ y \<and> ended y"
  then obtain y where v: "v = Redacted @ y" "ended y" by blast
  have "\<forall>c \<in> set Redacted. (Not \<circ> re_space) c" by (simp add: Redacted_def re_space_def)
  then have "takeWhile (Not \<circ> re_space) v = Redacted @ takeWhile (Not \<circ> re_space) y"
    unfolding v(1) by (intro takeWhile_append2) blast
  moreover have "takeWhile (Not \<circ> re_space) y = []" using v(2) by (cases y) (auto simp: ended_def)
  ultimately show "takeWhile (Not \<circ> re_space) v = Redacted" by simp
qed

lemma exposes_suffix: "exposes h s \<Longrightarrow> suffix s u \<Longrightarrow> exposes h u"
  unfolding exposes_def by (meson suffix_order.trans)

text \<open>
  What a masking does to a text: bytes are kept and values are replaced by the marker. At the
  first byte after a common bracket-free text, the result shows a byte of the original, or the
  original has a value there.
\<close>

inductive values_replaced :: "string \<Rightarrow> string \<Rightarrow> bool" where
  finish: "values_replaced [] []"
| keep: "values_replaced s t \<Longrightarrow> values_replaced (c # s) (c # t)"
| subst: "value_start v \<Longrightarrow> values_replaced s t \<Longrightarrow> values_replaced (v @ s) (Redacted @ t)"

lemma values_segs: "values_replaced s t \<Longrightarrow> segs_replaced Redacted s t"
  by (induction rule: values_replaced.induct) (auto intro: segs_replaced.intros)

lemma values_replaced_split:
  "values_replaced s t \<Longrightarrow> t = q @ c # z \<Longrightarrow> CHR ''['' \<notin> set q \<Longrightarrow> \<not> re_space c \<Longrightarrow>
     \<exists>v. value_start v \<and> s = q @ v"
proof (induction arbitrary: q rule: values_replaced.induct)
  case finish
  then show ?case by simp
next
  case (keep s t d)
  show ?case
  proof (cases q)
    case Nil
    with keep.prems show ?thesis by (intro exI [of _ "d # s"]) (simp add: value_start_def)
  next
    case (Cons x q')
    with keep.prems have "t = q' @ c # z" "CHR ''['' \<notin> set q'" "x = d" by auto
    with keep.IH keep.prems(3) Cons show ?thesis by auto
  qed
next
  case (subst v s t)
  then have "q = []" by (cases q) (auto simp: Redacted_def)
  with subst.hyps(1) show ?case by (intro exI [of _ "v @ s"]) (auto simp: value_start_def)
qed

lemma Redacted_Cons: "Redacted = CHR ''['' # ''REDACTED]''"
  by (simp add: Redacted_def)

text \<open>
  What a head matcher owes the scan: it matches exactly the texts of a language, whose
  words contain no bracket; no such word starts inside another one, nor inside the marker.
\<close>

locale masking =
  fixes h :: "string \<Rightarrow> string option" and head :: "string \<Rightarrow> bool"
  assumes head_iff: "h s = Some v \<longleftrightarrow> value_start v \<and> (\<exists>g. s = g @ v \<and> head g)"
    and nonempty: "head g \<Longrightarrow> g \<noteq> []"
    and starts: "head g \<Longrightarrow> \<not> re_space (hd g)"
    and no_bracket: "head g \<Longrightarrow> CHR ''['' \<notin> set g"
    and no_overlap: "head (a @ g @ b) \<Longrightarrow> head g \<Longrightarrow> a = []"
    and not_in_marker: "x \<noteq> [] \<Longrightarrow> suffix x Redacted \<Longrightarrow> h (x @ y) = None"
begin

lemma hitD: "h s = Some v \<Longrightarrow> \<exists>g. s = g @ v \<and> head g \<and> value_start v"
  by (simp add: head_iff)

lemma hitI: "head g \<Longrightarrow> value_start v \<Longrightarrow> h (g @ v) = Some v"
  by (auto simp: head_iff)

lemma mask_hit:
  assumes "head g" "value_start v"
  shows "mask h (g @ v) = g @ Redacted @ mask h (dropWhile (Not \<circ> re_space) v)"
proof -
  obtain c r where g: "g = c # r" using nonempty [OF assms(1)] by (cases g) auto
  have "h (c # r @ v) = Some v" using hitI [OF assms] g by simp
  moreover have "length (dropWhile (Not \<circ> re_space) v) \<le> length (r @ v)"
    using length_dropWhile_le [of "Not \<circ> re_space" v] by simp
  ultimately show ?thesis using g by simp
qed

lemma mask_miss: "h (c # cs) = None \<Longrightarrow> mask h (c # cs) = c # mask h cs"
  by simp

lemma mask_values: "values_replaced s (mask h s)"
proof (induction s rule: length_induct)
  case (1 s)
  show ?case
  proof (cases s)
    case Nil
    then show ?thesis by (simp add: values_replaced.finish)
  next
    case (Cons c cs)
    show ?thesis
    proof (cases "h s")
      case None
      with 1 Cons show ?thesis by (auto intro: values_replaced.keep)
    next
      case (Some v)
      then obtain g where g: "s = g @ v" "head g" "value_start v" using hitD by blast
      let ?r = "dropWhile (Not \<circ> re_space) v"
      have "length ?r < length s"
        using nonempty [OF g(2)] length_dropWhile_le [of "Not \<circ> re_space" v] g(1)
        by (cases g) auto
      moreover have "value_start (takeWhile (Not \<circ> re_space) v)"
        using g(3) by (cases v) (auto simp: value_start_def)
      ultimately have "values_replaced (takeWhile (Not \<circ> re_space) v @ ?r) (Redacted @ mask h ?r)"
        using 1 by (intro values_replaced.subst) blast+
      then have "values_replaced v (Redacted @ mask h ?r)" by simp
      then have "values_replaced (x @ v) (x @ Redacted @ mask h ?r)" for x
        by (induction x) (auto intro: values_replaced.keep)
      with g show ?thesis by (simp add: mask_hit)
    qed
  qed
qed

lemmas mask_segs = values_segs [OF mask_values]

text \<open>Masking keeps the white space or the end after a value.\<close>

lemma mask_ended: "ended y \<Longrightarrow> ended (mask h y)"
proof (cases y)
  case (Cons c cs)
  assume "ended y"
  then have "re_space c" using Cons by (simp add: ended_def)
  have "h y = None"
  proof (rule ccontr)
    assume "h y \<noteq> None"
    then obtain g v where g: "y = g @ v" "head g" using hitD by blast
    then have "hd g = c" using nonempty Cons by (cases g) auto
    with starts [OF g(2)] \<open>re_space c\<close> show False by simp
  qed
  then show ?thesis using Cons \<open>re_space c\<close> by (simp add: ended_def)
qed (simp add: ended_def)

text \<open>A text through which no match starts is copied.\<close>

lemma mask_copies:
  "(\<And>x. x \<noteq> [] \<Longrightarrow> suffix x p \<Longrightarrow> h (x @ q) = None) \<Longrightarrow> mask h (p @ q) = p @ mask h q"
proof (induction p)
  case Nil
  then show ?case by simp
next
  case (Cons c p)
  have "h (c # p @ q) = None" using Cons.prems [of "c # p"] by simp
  moreover have "mask h (p @ q) = p @ mask h q"
    using Cons.prems by (intro Cons.IH) (auto intro: suffix_ConsI)
  ultimately show ?case by simp
qed

text \<open>A head that is read before a marker lies in the text before it.\<close>

lemma hit_before_marker:
  assumes "h (x @ Redacted @ y) = Some v" "x \<noteq> []"
  shows "\<exists>g b. x = g @ b \<and> head g \<and> v = b @ Redacted @ y"
proof -
  obtain g where g: "x @ Redacted @ y = g @ v" "head g" using hitD [OF assms(1)] by blast
  have "x @ CHR ''['' # (''REDACTED]'' @ y) = g @ v"
    using g(1) by (simp only: Redacted_Cons append_Cons)
  then have "prefix g (x @ CHR ''['' # (''REDACTED]'' @ y))" by (rule prefixI)
  then have "prefix g x" by (rule iffD1 [OF prefix_append_char [OF no_bracket [OF g(2)]]])
  with g show ?thesis by (auto simp: prefix_def)
qed

lemma suffix_marked:
  "suffix t (g @ Redacted @ y) \<Longrightarrow> suffix t y \<or> (\<exists>x. x \<noteq> [] \<and> suffix x Redacted \<and> t = x @ y) \<or>
     (\<exists>x. x \<noteq> [] \<and> suffix x g \<and> t = x @ Redacted @ y)"
  by (auto simp: suffix_append)

theorem mask_not_exposed: "\<not> exposes h (mask h s)"
proof (induction s rule: length_induct)
  case (1 s)
  show ?case
  proof (cases "h s")
    case None
    show ?thesis
    proof (cases s)
      case Nil
      then show ?thesis by (auto simp: exposes_def head_iff value_start_def)
    next
      case (Cons c cs)
      have "\<not> exposes h (mask h cs)" using 1 Cons by simp
      moreover have "h (c # mask h cs) = None"
      proof (rule ccontr)
        assume "h (c # mask h cs) \<noteq> None"
        then obtain v g where g: "c # mask h cs = g @ v" "head g" "value_start v" using hitD by blast
        then obtain d z where vz: "v = d # z" by (cases v) (auto simp: value_start_def)
        have "values_replaced (c # cs) (c # mask h cs)"
          using mask_values [of "c # cs"] None Cons by simp
        from values_replaced_split [OF this g(1) [unfolded vz] no_bracket [OF g(2)]] g(3) vz
        obtain x where "value_start x" "c # cs = g @ x" by (auto simp: value_start_def)
        with hitI [OF g(2)] None Cons show False by simp
      qed
      ultimately show ?thesis
        using None Cons by (auto simp: exposes_def suffix_Cons)
    qed
  next
    case (Some v)
    then obtain g where g: "s = g @ v" "head g" "value_start v" using hitD by blast
    let ?r = "dropWhile (Not \<circ> re_space) v"
    have "length ?r < length s"
      using nonempty [OF g(2)] length_dropWhile_le [of "Not \<circ> re_space" v] g(1) by (cases g) auto
    with 1 have IH: "\<not> exposes h (mask h ?r)" by blast
    have "takeWhile (Not \<circ> re_space) u = Redacted"
      if tu: "suffix t (g @ Redacted @ mask h ?r)" "h t = Some u" for t u
    proof -
      consider "suffix t (mask h ?r)" | x where "x \<noteq> []" "suffix x Redacted" "t = x @ mask h ?r"
        | x where "x \<noteq> []" "suffix x g" "t = x @ Redacted @ mask h ?r"
        using suffix_marked [OF tu(1)] by blast
      then show ?thesis
      proof cases
        case 1
        with IH tu(2) show ?thesis by (auto simp: exposes_def)
      next
        case 2
        with not_in_marker tu(2) show ?thesis by simp
      next
        case 3
        then obtain g0 b where b: "x = g0 @ b" "head g0" "u = b @ Redacted @ mask h ?r"
          using hit_before_marker tu(2) by blast
        with 3 obtain a where "g = a @ g0 @ b" by (auto simp: suffix_def)
        with no_overlap g(2) b(2) have gb: "g = g0 @ b" by force
        have "b = []"
        proof (rule ccontr)
          assume "b \<noteq> []"
          with hitD [OF tu(2)] b(3) have "value_start (b @ v)" by (auto simp: value_start_def)
          with hitI [OF b(2)] gb g(1) Some have "b @ v = v" by simp
          with \<open>b \<noteq> []\<close> show False by simp
        qed
        with b(3) mask_ended [of ?r] show ?thesis unfolding marked_value by auto
      qed
    qed
    with g show ?thesis by (auto simp: exposes_def mask_hit)
  qed
qed

end

text \<open>
  Two patterns whose heads do not occur in each other: masking for the second one keeps
  what masking for the first one has achieved.
\<close>

locale two_masks = A: masking h1 head1 + B: masking h2 head2
  for h1 h2 :: "string \<Rightarrow> string option" and head1 head2 :: "string \<Rightarrow> bool" +
  assumes apart12: "head2 (a @ g @ b) \<Longrightarrow> \<not> head1 g"
    and apart21: "head1 (a @ g @ b) \<Longrightarrow> \<not> head2 g"
begin

lemma head1_copied:
  assumes "head1 g"
  shows "mask h2 (g @ Redacted @ y) = g @ Redacted @ mask h2 y"
proof -
  have "mask h2 ((g @ Redacted) @ y) = (g @ Redacted) @ mask h2 y"
  proof (rule B.mask_copies)
    fix x assume x: "x \<noteq> []" "suffix x (g @ Redacted)"
    show "h2 (x @ y) = None"
    proof (cases "suffix x Redacted")
      case True
      with x B.not_in_marker show ?thesis by blast
    next
      case False
      with x obtain x' where x': "x = x' @ Redacted" "suffix x' g" by (auto simp: suffix_append)
      with False have "x' \<noteq> []" by auto
      show ?thesis
      proof (rule ccontr)
        assume "h2 (x @ y) \<noteq> None"
        then obtain v where "h2 (x' @ Redacted @ y) = Some v" using x' by auto
        with B.hit_before_marker \<open>x' \<noteq> []\<close> obtain g2 b where "x' = g2 @ b" "head2 g2" by blast
        with x'(2) apart21 assms show False by (auto simp: suffix_def)
      qed
    qed
  qed
  then show ?thesis by simp
qed

theorem mask_keeps: "\<not> exposes h1 s \<Longrightarrow> \<not> exposes h1 (mask h2 s)"
proof (induction s rule: length_induct)
  case (1 s)
  show ?case
  proof (cases "h2 s")
    case None
    show ?thesis
    proof (cases s)
      case Nil
      with "1.prems" show ?thesis by simp
    next
      case (Cons c cs)
      have "\<not> exposes h1 cs" using "1.prems" exposes_suffix Cons by (blast intro: suffix_ConsI)
      with 1 Cons have "\<not> exposes h1 (mask h2 cs)" by simp
      moreover have "takeWhile (Not \<circ> re_space) v = Redacted" if v: "h1 (c # mask h2 cs) = Some v" for v
      proof -
        obtain g where g: "c # mask h2 cs = g @ v" "head1 g" "value_start v"
          using A.hitD [OF v] by blast
        then obtain d z where vz: "v = d # z" by (cases v) (auto simp: value_start_def)
        have out: "mask h2 s = g @ v" using None Cons g(1) by simp
        from values_replaced_split [OF B.mask_values out [unfolded vz] A.no_bracket [OF g(2)]] g(3) vz
        obtain x where x: "value_start x" "s = g @ x" by (auto simp: value_start_def)
        with A.hitI [OF g(2)] have "h1 s = Some x" by simp
        with "1.prems" have "takeWhile (Not \<circ> re_space) x = Redacted" by (auto simp: exposes_def)
        then obtain y where y: "x = Redacted @ y" "ended y" unfolding marked_value by blast
        with x(2) head1_copied [OF g(2)] out have "v = Redacted @ mask h2 y" by simp
        with B.mask_ended [OF y(2)] show ?thesis unfolding marked_value by blast
      qed
      ultimately show ?thesis using None Cons by (auto simp: exposes_def suffix_Cons)
    qed
  next
    case (Some v)
    then obtain g where g: "s = g @ v" "head2 g" "value_start v" using B.hitD by blast
    let ?r = "dropWhile (Not \<circ> re_space) v"
    have "length ?r < length s"
      using B.nonempty [OF g(2)] length_dropWhile_le [of "Not \<circ> re_space" v] g(1)
      by (cases g) auto
    moreover have "suffix ?r s" using g(1) by (meson suffix_appendI suffix_dropWhile)
    ultimately have IH: "\<not> exposes h1 (mask h2 ?r)" using 1 exposes_suffix by blast
    have "takeWhile (Not \<circ> re_space) u = Redacted"
      if tu: "suffix t (g @ Redacted @ mask h2 ?r)" "h1 t = Some u" for t u
    proof -
      consider "suffix t (mask h2 ?r)" | x where "x \<noteq> []" "suffix x Redacted" "t = x @ mask h2 ?r"
        | x where "x \<noteq> []" "suffix x g" "t = x @ Redacted @ mask h2 ?r"
        using B.suffix_marked [OF tu(1)] by blast
      then show ?thesis
      proof cases
        case 1
        with IH tu(2) show ?thesis by (auto simp: exposes_def)
      next
        case 2
        with A.not_in_marker tu(2) show ?thesis by simp
      next
        case 3
        then obtain g1 b where "x = g1 @ b" "head1 g1" using A.hit_before_marker tu(2) by blast
        with 3 apart12 g(2) show ?thesis by (auto simp: suffix_def)
      qed
    qed
    with g show ?thesis by (auto simp: exposes_def B.mask_hit)
  qed
qed

end

subsection \<open>The two patterns of the program\<close>

lemma Redacted_suffix_cases:
  assumes "x \<noteq> []" "suffix x Redacted"
  shows "x \<in> {''[REDACTED]'', ''REDACTED]'', ''EDACTED]'', ''DACTED]'', ''ACTED]'', ''CTED]'',
    ''TED]'', ''ED]'', ''D]'', '']''}"
  using assms by (auto simp: Redacted_def suffix_Cons)

lemma heads_not_in_marker:
  assumes "x \<noteq> []" "suffix x Redacted"
  shows "bearer_head (x @ y) = None" "key_head (x @ y) = None"
  using Redacted_suffix_cases [OF assms]
  by (elim insertE emptyE;
      simp add: bearer_head_def key_head_def key_name_def eat_ci.simps lower_def code_def)+

lemma bearer_text_starts: "bearer_text g \<Longrightarrow> \<not> re_space (hd g)"
  using folds_hd(1) folds_hd_not_space by (fastforce simp: bearer_text_def code_def)

lemma key_text_starts: "key_text g \<Longrightarrow> \<not> re_space (hd g)"
  using folds_hd(1) folds_hd_not_space by (fastforce simp: key_text_def key_words_def code_def)

interpretation bearer: masking bearer_head bearer_text
proof unfold_locales
  show "bearer_head s = Some v \<longleftrightarrow> value_start v \<and> (\<exists>g. s = g @ v \<and> bearer_text g)" for s v
    by (rule bearer_head_iff)
  show "g \<noteq> []" if "bearer_text g" for g using bearer_text_colon [OF that] by auto
  show "\<not> re_space (hd g)" if "bearer_text g" for g using that by (rule bearer_text_starts)
  show "CHR ''['' \<notin> set g" if "bearer_text g" for g using bearer_text_avoids [OF that] by blast
  show "a = []" if "bearer_text (a @ g @ b)" "bearer_text g" for a g b
    using that by (rule bearer_text_no_overlap)
  show "bearer_head (x @ y) = None" if "x \<noteq> []" "suffix x Redacted" for x y
    using heads_not_in_marker(1) that .
qed

interpretation keys: masking key_head key_text
proof unfold_locales
  show "key_head s = Some v \<longleftrightarrow> value_start v \<and> (\<exists>g. s = g @ v \<and> key_text g)" for s v
    by (rule key_head_iff)
  show "g \<noteq> []" if "key_text g" for g using that by (auto simp: key_text_def)
  show "\<not> re_space (hd g)" if "key_text g" for g using that by (rule key_text_starts)
  show "CHR ''['' \<notin> set g" if "key_text g" for g using key_text_avoids [OF that] by blast
  show "a = []" if "key_text (a @ g @ b)" "key_text g" for a g b
    using that by (rule key_text_no_overlap)
  show "key_head (x @ y) = None" if "x \<noteq> []" "suffix x Redacted" for x y
    using heads_not_in_marker(2) that .
qed

lemma key_text_equals: "key_text g \<Longrightarrow> CHR ''='' \<in> set g"
  by (auto simp: key_text_def)

interpretation patterns: two_masks bearer_head key_head bearer_text key_text
proof unfold_locales
  show "\<not> bearer_text g" if "key_text (a @ g @ b)" for a g b
    using key_text_avoids [OF that, of "CHR '':''"] bearer_text_colon [of g] by auto
  show "\<not> key_text g" if "bearer_text (a @ g @ b)" for a g b
    using bearer_text_avoids [OF that, of "CHR ''=''"] key_text_equals [of g] by auto
qed

subsection \<open>Properties\<close>

lemma Sentinel_no_bracket: "CHR ''['' \<notin> set Sentinel" "CHR '']'' \<notin> set Sentinel"
  by (simp_all add: Sentinel_def)

lemma Redacted_middle: "Redacted = CHR ''['' # ''REDACTED'' @ [CHR '']'']"
  by (simp add: Redacted_def)

lemma Sentinel_not_in_marker: "\<not> sublist Sentinel ''REDACTED''"
proof
  assume "sublist Sentinel ''REDACTED''"
  then have "length Sentinel \<le> length ''REDACTED''" by (rule sublist_length_le)
  then show False by (simp add: Sentinel_def)
qed

lemma no_sentinel_left: "\<not> Contains (redact_String s) Sentinel"
proof -
  have "Sentinel \<noteq> []" by (simp add: Sentinel_def)
  then have "\<not> sublist Sentinel (ReplaceAll s Sentinel Redacted)"
    unfolding Redacted_middle
    by (rule ReplaceAll_removes [OF _ Sentinel_no_bracket Sentinel_not_in_marker])
  then have "\<not> sublist Sentinel (mask bearer_head (ReplaceAll s Sentinel Redacted))"
    using segs_replaced_no_new_word [OF bearer.mask_segs [unfolded Redacted_middle]
        Sentinel_no_bracket Sentinel_not_in_marker] by (simp add: Redacted_middle)
  then show ?thesis
    using segs_replaced_no_new_word [OF keys.mask_segs [unfolded Redacted_middle]
        Sentinel_no_bracket Sentinel_not_in_marker] by (simp add: redact_String_def Contains_def)
qed

lemma no_value_left:
  "\<not> exposes bearer_head (redact_String s) \<and> \<not> exposes key_head (redact_String s)"
  by (simp add: redact_String_def patterns.mask_keeps bearer.mask_not_exposed
      keys.mask_not_exposed)

text \<open>
  Whatever text is redacted, the sentinel key does not occur in the result:
  neither because it was there before, nor because a replacement created it.
\<close>

theorem redact_String_no_sentinel: "\<not> Contains (redact_String s) Sentinel"
  by (rule no_sentinel_left)

text \<open>
  Claim C12. In a redacted text every place where one of the two patterns
  matches has the marker as its whole value, up to the next white space or the end: no byte of a
  bearer token or of the value of a key variable survives, also where matches overlap, where
  one pattern's value hides another match, or where letters are written in another case.
\<close>

theorem redact_String_not_exposed:
  "\<not> exposes bearer_head (redact_String s) \<and> \<not> exposes key_head (redact_String s)"
  by (rule no_value_left)

definition safe_text :: "string \<Rightarrow> bool" where
  "safe_text s \<longleftrightarrow> \<not> Contains s Sentinel \<and> \<not> exposes bearer_head s \<and> \<not> exposes key_head s"

text \<open>What a redacted header may hold under one name.\<close>

definition safe_entry :: "string \<times> string list \<Rightarrow> bool" where
  "safe_entry e \<longleftrightarrow>
     (if ToLower (fst e) \<in> sensitiveHeaderNames then snd e = [Redacted]
      else (\<forall>v \<in> set (snd e). safe_text v))"

lemma safe_redact_String: "safe_text (redact_String s)"
  using no_sentinel_left no_value_left by (simp add: safe_text_def)

lemma safe_hdr_Del: "\<forall>e \<in> set h. safe_entry e \<Longrightarrow> e \<in> set (hdr_Del h k) \<Longrightarrow> safe_entry e"
  by (auto simp: hdr_Del_def)

lemma safe_hdr_Set:
  assumes "\<forall>e \<in> set h. safe_entry e" "ToLower k \<in> sensitiveHeaderNames"
  shows "\<forall>e \<in> set (hdr_Set h k Redacted). safe_entry e"
  using assms safe_hdr_Del
  by (auto simp: hdr_Set_def safe_entry_def ToLower_CanonicalHeaderKey hdr_Del_def)

lemma safe_hdr_Add:
  assumes "\<forall>e \<in> set h. safe_entry e" "ToLower k \<notin> sensitiveHeaderNames" "safe_text v"
  shows "\<forall>e \<in> set (hdr_Add h k v). safe_entry e"
proof -
  have "\<forall>v \<in> set (hdr_values h k). safe_text v"
  proof (cases "map_of h (CanonicalHeaderKey k)")
    case None
    then show ?thesis by (simp add: hdr_values_def)
  next
    case (Some vs)
    with assms(1) have "safe_entry (CanonicalHeaderKey k, vs)" by (blast dest: map_of_SomeD)
    with Some assms(2) show ?thesis
      by (simp add: hdr_values_def safe_entry_def ToLower_CanonicalHeaderKey)
  qed
  with assms show ?thesis
    by (auto simp: hdr_Add_def safe_entry_def ToLower_CanonicalHeaderKey hdr_Del_def)
qed

lemma safe_redact_entry:
  assumes "\<forall>e \<in> set out. safe_entry e"
  shows "\<forall>e \<in> set (redact_entry out (key, values)). safe_entry e"
proof (cases "ToLower key \<in> sensitiveHeaderNames")
  case True
  with assms safe_hdr_Set show ?thesis by simp
next
  case False
  have "\<forall>e \<in> set (foldl (\<lambda>out value. hdr_Add out key (redact_String value)) out values). safe_entry e"
    by (rule foldl_invariant [where P = "\<lambda>out. \<forall>e \<in> set out. safe_entry e"])
      (use assms safe_hdr_Add [OF _ False safe_redact_String] in auto)
  with False show ?thesis by simp
qed

text \<open>
  \<open>redact.Header\<close> masks every value of a sensitive header, in any letter case of
  its name, and the values of all other headers come out redacted.
\<close>

theorem redact_Header_safe: "list_all safe_entry (redact_Header h)"
  unfolding redact_Header_def list_all_iff
  by (rule foldl_invariant [where P = "\<lambda>out. \<forall>e \<in> set out. safe_entry e"])
    (use safe_redact_entry in auto)

subsection \<open>A limit\<close>

text \<open>
  In a text the two patterns look for bearer tokens and for three variable names only: the
  value of a cookie or of an API key header stays.
\<close>

lemma cookie_text_not_redacted:
  "redact_String ''Cookie: session=abc'' = ''Cookie: session=abc''"
  "redact_String ''X-API-Key: abc123'' = ''X-API-Key: abc123''"
  by code_simp+

end
