(* ===== verification/Cask_Url.thy ===== *)
theory Cask_Url
  imports Cask_Http
begin

text \<open>
  \<open>net/url\<close> and \<open>path\<close>: what the program asks of them. Of \<open>url.Parse\<close> the API server
  reads whether it succeeds and whether the URL has user information; \<open>path.Clean\<close> is
  what \<open>http.ServeMux\<close> and \<open>filepath.Join\<close> do to a path; \<open>url.PathEscape\<close> is used
  by the command-line client, and the mux undoes it.
\<close>

subsection \<open>Percent encoding\<close>

definition hex_value :: "char \<Rightarrow> nat option" where
  "hex_value c =
     (if 48 \<le> code c \<and> code c \<le> 57 then Some (code c - 48)
      else if 97 \<le> code c \<and> code c \<le> 102 then Some (code c - 87)
      else if 65 \<le> code c \<and> code c \<le> 70 then Some (code c - 55)
      else None)"

text \<open>\<open>unescape\<close> in the modes for paths, fragments and user information.\<close>

fun unescape :: "string \<Rightarrow> string option" where
  "unescape [] = Some []"
| "unescape (c # cs) =
     (if c = CHR ''%'' then
        (case cs of
           a # b # r \<Rightarrow>
             (case (hex_value a, hex_value b) of
                (Some x, Some y) \<Rightarrow> map_option (\<lambda>t. char_of (16 * x + y) # t) (unescape r)
              | _ \<Rightarrow> None)
         | _ \<Rightarrow> None)
      else map_option (\<lambda>t. c # t) (unescape cs))"

definition alphanumeric :: "char \<Rightarrow> bool" where
  "alphanumeric c \<longleftrightarrow>
     48 \<le> code c \<and> code c \<le> 57 \<or> 65 \<le> code c \<and> code c \<le> 90 \<or> 97 \<le> code c \<and> code c \<le> 122"

text \<open>\<open>url.PathEscape\<close>\<close>

definition segment_char :: "char \<Rightarrow> bool" where
  "segment_char c \<longleftrightarrow> alphanumeric c \<or> c \<in> set ''-_.~$&+:=@''"

definition hex_upper :: "nat \<Rightarrow> char" where
  "hex_upper d = (if d < 10 then char_of (48 + d) else char_of (55 + d))"

fun PathEscape :: "string \<Rightarrow> string" where
  "PathEscape [] = []"
| "PathEscape (c # cs) =
     (if segment_char c then c # PathEscape cs
      else CHR ''%'' # hex_upper (code c div 16) # hex_upper (code c mod 16) # PathEscape cs)"

lemma hex_digits:
  "list_all (\<lambda>d. hex_value (hex_upper d) = Some d \<and> hex_upper d \<noteq> CHR ''/'') [0..<16]"
  by (simp add: upt_conv_Cons hex_upper_def hex_value_def code_def char_of_eq_iff)

lemma hex_upper_code:
  "hex_value (hex_upper (code c div 16)) = Some (code c div 16)"
  "hex_value (hex_upper (code c mod 16)) = Some (code c mod 16)"
  "CHR ''/'' \<noteq> hex_upper (code c div 16)" "CHR ''/'' \<noteq> hex_upper (code c mod 16)"
  using hex_digits code_less_256 [of c] by (auto simp: list_all_iff less_mult_imp_div_less)

lemma char_of_code: "char_of (code c) = c"
  by (simp add: code_def)

lemma not_segment_chars: "\<not> segment_char (CHR ''%'')" "\<not> segment_char (CHR ''/'')"
  by code_simp+

lemma unescape_PathEscape: "unescape (PathEscape s) = Some s"
  by (induction s) (auto simp: hex_upper_code char_of_code not_segment_chars)

lemma PathEscape_no_slash: "CHR ''/'' \<notin> set (PathEscape s)"
  by (induction s) (auto simp: hex_upper_code not_segment_chars)

subsection \<open>User information\<close>

text \<open>\<open>getScheme\<close>: the scheme and the rest of the URL, or an error.\<close>

definition letter :: "char \<Rightarrow> bool" where
  "letter c \<longleftrightarrow> alphanumeric c \<and> \<not> is_digit c"

fun scheme_from :: "string \<Rightarrow> string \<Rightarrow> string \<Rightarrow> (string \<times> string) option" where
  "scheme_from url acc [] = Some ([], url)"
| "scheme_from url acc (c # cs) =
     (if letter c then scheme_from url (acc @ [c]) cs
      else if is_digit c \<or> c \<in> set ''+-.'' then
        (if acc = [] then Some ([], url) else scheme_from url (acc @ [c]) cs)
      else if c = CHR '':'' then (if acc = [] then None else Some (acc, cs))
      else Some ([], url))"

definition getScheme :: "string \<Rightarrow> (string \<times> string) option" where
  "getScheme url = scheme_from url [] url"

text \<open>The text before and after the last occurrence of a character.\<close>

fun CutLast :: "char \<Rightarrow> string \<Rightarrow> (string \<times> string) option" where
  "CutLast d [] = None"
| "CutLast d (c # cs) =
     (case CutLast d cs of
        Some (a, b) \<Rightarrow> Some (c # a, b)
      | None \<Rightarrow> (if c = d then Some ([], cs) else None))"

text \<open>\<open>shouldEscape(c, encodeHost)\<close>, negated.\<close>

definition host_char :: "char \<Rightarrow> bool" where
  "host_char c \<longleftrightarrow>
     alphanumeric c \<or> c \<in> set ''!$&()*+,;=:[]<>-_.~'' \<or> code c = 34 \<or> code c = 39"

text \<open>\<open>unescape\<close> in the modes for hosts and, with \<open>z\<close>, for zones: does it succeed?\<close>

definition host_escape_ok :: "bool \<Rightarrow> nat \<Rightarrow> nat \<Rightarrow> bool" where
  "host_escape_ok z x y \<longleftrightarrow>
     x = 2 \<and> y = 5 \<or>
     (if z then x = 2 \<and> y = 0 \<or> host_char (char_of (16 * x + y)) else 8 \<le> x)"

fun host_ok :: "bool \<Rightarrow> string \<Rightarrow> bool" where
  "host_ok z [] = True"
| "host_ok z (c # cs) =
     (if c = CHR ''%'' then
        (case cs of
           a # b # r \<Rightarrow>
             (case (hex_value a, hex_value b) of
                (Some x, Some y) \<Rightarrow> host_escape_ok z x y \<and> host_ok z r
              | _ \<Rightarrow> False)
         | _ \<Rightarrow> False)
      else (128 \<le> code c \<or> host_char c) \<and> host_ok z cs)"

definition validOptionalPort :: "string \<Rightarrow> bool" where
  "validOptionalPort p \<longleftrightarrow>
     (case p of [] \<Rightarrow> True | c # ds \<Rightarrow> c = CHR '':'' \<and> list_all is_digit ds)"

text \<open>The text before the first \<open>%25\<close>, and the rest from there.\<close>

fun cut_zone :: "string \<Rightarrow> (string \<times> string) option" where
  "cut_zone [] = None"
| "cut_zone (c # cs) =
     (if prefix ''%25'' (c # cs) then Some ([], c # cs)
      else map_option (\<lambda>(a, b). (c # a, b)) (cut_zone cs))"

definition parseHost_ok :: "string \<Rightarrow> bool" where
  "parseHost_ok host =
     (if prefix ''['' host then
        (case CutLast (CHR '']'') host of
           None \<Rightarrow> False
         | Some (a, colonPort) \<Rightarrow>
             validOptionalPort colonPort \<and>
             (case cut_zone a of
                None \<Rightarrow> host_ok False host
              | Some (h, z) \<Rightarrow>
                  host_ok False h \<and> host_ok True z \<and> host_ok False (CHR '']'' # colonPort)))
      else
        (case CutLast (CHR '':'') host of
           None \<Rightarrow> True
         | Some (_, port) \<Rightarrow> validOptionalPort (CHR '':'' # port)) \<and>
        host_ok False host)"

definition validUserinfo :: "string \<Rightarrow> bool" where
  "validUserinfo u \<longleftrightarrow>
     list_all (\<lambda>c. alphanumeric c \<or> c \<in> set ''-._:~!$&()*+,;=%@'' \<or> code c = 39) u"

text \<open>An outer \<open>None\<close> is an error, an inner one an authority without user information.\<close>

definition parseAuthority :: "string \<Rightarrow> string option option" where
  "parseAuthority authority =
     (case CutLast (CHR ''@'') authority of
        None \<Rightarrow> if parseHost_ok authority then Some None else None
      | Some (userinfo, host) \<Rightarrow>
          if parseHost_ok host \<and> validUserinfo userinfo \<and>
             (case Cut (CHR '':'') userinfo of
                None \<Rightarrow> unescape userinfo \<noteq> None
              | Some (u, p) \<Rightarrow> unescape u \<noteq> None \<and> unescape p \<noteq> None)
          then Some (Some userinfo) else None)"

definition cut_or_all :: "char \<Rightarrow> string \<Rightarrow> string \<times> string" where
  "cut_or_all d s = (case Cut d s of None \<Rightarrow> (s, []) | Some (a, b) \<Rightarrow> (a, b))"

text \<open>Splitting an authority from the path keeps the slash.\<close>

definition cut_path :: "string \<Rightarrow> string \<times> string" where
  "cut_path s =
     (case Cut (CHR ''/'') s of None \<Rightarrow> (s, []) | Some (a, b) \<Rightarrow> (a, CHR ''/'' # b))"

definition control_byte :: "char \<Rightarrow> bool" where
  "control_byte c \<longleftrightarrow> code c < 32 \<or> code c = 127"

definition url_parse :: "string \<Rightarrow> string option option" where
  "url_parse rawURL =
     (if list_ex control_byte rawURL then None
      else if rawURL = ''*'' then Some None
      else
        (case getScheme rawURL of
           None \<Rightarrow> None
         | Some (scheme, rest) \<Rightarrow>
             (let rest = fst (cut_or_all (CHR ''?'') rest) in
              if \<not> prefix ''/'' rest \<and> scheme \<noteq> [] then Some None
              else if \<not> prefix ''/'' rest \<and> CHR '':'' \<in> set (fst (cut_path rest)) then None
              else if (scheme \<noteq> [] \<or> \<not> prefix ''///'' rest) \<and> prefix ''//'' rest then
                (case cut_path (drop 2 rest) of
                   (authority, path) \<Rightarrow>
                     (case parseAuthority authority of
                        None \<Rightarrow> None
                      | Some user \<Rightarrow> if unescape path = None then None else Some user))
              else if unescape rest = None then None else Some None)))"

text \<open>\<open>url.Parse\<close>: the user information of the result.\<close>

definition url_Parse_User :: "string \<Rightarrow> string option option" where
  "url_Parse_User rawURL =
     (case cut_or_all (CHR ''#'') rawURL of
        (u, frag) \<Rightarrow>
          (case url_parse u of
             None \<Rightarrow> None
           | Some user \<Rightarrow> if unescape frag = None then None else Some user))"

subsection \<open>Cleaning a path\<close>

text \<open>\<open>path.Clean\<close>, by segments: the stack holds the segments kept so far, last first.\<close>

fun clean_segments :: "bool \<Rightarrow> string list \<Rightarrow> string list \<Rightarrow> string list" where
  "clean_segments rooted st [] = rev st"
| "clean_segments rooted st (p # ps) =
     (if p = [] \<or> p = ''.'' then clean_segments rooted st ps
      else if p = ''..'' then
        (case st of
           [] \<Rightarrow> clean_segments rooted (if rooted then [] else [p]) ps
         | q # qs \<Rightarrow> clean_segments rooted (if q = ''..'' then p # st else qs) ps)
      else clean_segments rooted (p # st) ps)"

definition Clean :: "string \<Rightarrow> string" where
  "Clean s =
     (let rooted = prefix ''/'' s;
          body = Join (CHR ''/'') (clean_segments rooted [] (Split (CHR ''/'') s));
          r = (if rooted then ''/'' @ body else body)
      in if r = [] then ''.'' else r)"

text \<open>\<open>filepath.Join\<close> on a system whose separator is the slash.\<close>

definition filepath_Join :: "string list \<Rightarrow> string" where
  "filepath_Join ps =
     (case dropWhile (\<lambda>p. p = []) ps of
        [] \<Rightarrow> []
      | qs \<Rightarrow> Clean (Join (CHR ''/'') qs))"

text \<open>\<open>cleanPath\<close> of \<open>net/http\<close>: rooted, and with the final slash kept.\<close>

definition cleanPath :: "string \<Rightarrow> string" where
  "cleanPath p =
     (if p = [] then ''/''
      else
        (let p = (if prefix ''/'' p then p else ''/'' @ p);
             np = Clean p
         in if last p = CHR ''/'' \<and> np \<noteq> ''/'' then np @ ''/'' else np))"

end
