(* ===== verification/Cask_UrlValue.thy ===== *)
theory Cask_UrlValue
  imports Cask_Url
begin

text \<open>
  \<open>net/url\<close> where the program looks into a URL: what \<open>url.Parse\<close> makes of a text, and what
  \<open>URL.String\<close> makes of that again after fields were assigned. The command-line client does this for
  the URL of a terminal connection.
\<close>

subsection \<open>Escaping\<close>

fun escape_with :: "(char \<Rightarrow> bool) \<Rightarrow> string \<Rightarrow> string" where
  "escape_with kept [] = []"
| "escape_with kept (c # cs) =
     (if kept c then c # escape_with kept cs
      else CHR ''%'' # hex_upper (code c div 16) # hex_upper (code c mod 16) # escape_with kept cs)"

text \<open>\<open>shouldEscape\<close>, negated, in the modes for paths, user information and fragments; for hosts it is \<open>host_char\<close>.\<close>

definition path_char :: "char \<Rightarrow> bool" where
  "path_char c \<longleftrightarrow> segment_char c \<or> c \<in> set '',/;''"

definition user_char :: "char \<Rightarrow> bool" where
  "user_char c \<longleftrightarrow> alphanumeric c \<or> c \<in> set ''-_.~$&+,;=''"

definition fragment_char :: "char \<Rightarrow> bool" where
  "fragment_char c \<longleftrightarrow> path_char c \<or> c \<in> set ''?!()*''"

definition validEncoded :: "(char \<Rightarrow> bool) \<Rightarrow> string \<Rightarrow> bool" where
  "validEncoded kept s \<longleftrightarrow> list_all (\<lambda>c. c \<in> set ''!$&()*+,;=:@[]%'' \<or> code c = 39 \<or> kept c) s"

subsection \<open>URLs\<close>

record url =
  ul_Scheme :: string
  ul_Opaque :: string
  ul_User :: "(string \<times> string option) option"   \<comment> \<open>the name and the password\<close>
  ul_Host :: string
  ul_Path :: string
  ul_RawPath :: string
  ul_OmitHost :: bool
  ul_ForceQuery :: bool
  ul_RawQuery :: string
  ul_Fragment :: string
  ul_RawFragment :: string

definition empty_url :: url where
  "empty_url = \<lparr>ul_Scheme = [], ul_Opaque = [], ul_User = None, ul_Host = [], ul_Path = [], ul_RawPath = [],
     ul_OmitHost = False, ul_ForceQuery = False, ul_RawQuery = [], ul_Fragment = [], ul_RawFragment = []\<rparr>"

text \<open>\<open>setPath\<close> and \<open>setFragment\<close>: the raw text is kept where escaping would not give it again.\<close>

definition setPath :: "url \<Rightarrow> string \<Rightarrow> url option" where
  "setPath u p =
     map_option (\<lambda>path. u\<lparr>ul_Path := path, ul_RawPath := (if escape_with path_char path = p then [] else p)\<rparr>)
       (unescape p)"

definition setFragment :: "url \<Rightarrow> string \<Rightarrow> url option" where
  "setFragment u f =
     map_option (\<lambda>frag. u\<lparr>ul_Fragment := frag, ul_RawFragment := (if escape_with fragment_char frag = f then [] else f)\<rparr>)
       (unescape f)"

text \<open>The user information and the host of an authority that \<open>parseAuthority\<close> accepts.\<close>

definition authority_user :: "string \<Rightarrow> (string \<times> string option) option" where
  "authority_user authority =
     (case CutLast (CHR ''@'') authority of
        None \<Rightarrow> None
      | Some (userinfo, _) \<Rightarrow>
          (case Cut (CHR '':'') userinfo of
             None \<Rightarrow> Some (the (unescape userinfo), None)
           | Some (u, p) \<Rightarrow> Some (the (unescape u), Some (the (unescape p)))))"

definition authority_host :: "string \<Rightarrow> string" where
  "authority_host authority =
     the (unescape (case CutLast (CHR ''@'') authority of None \<Rightarrow> authority | Some (_, host) \<Rightarrow> host))"

definition url_parse_value :: "string \<Rightarrow> url option" where
  "url_parse_value rawURL =
     (if list_ex control_byte rawURL then None
      else if rawURL = ''*'' then Some (empty_url\<lparr>ul_Path := ''*''\<rparr>)
      else
        (case getScheme rawURL of
           None \<Rightarrow> None
         | Some (scheme, rest) \<Rightarrow>
             (let force = rest \<noteq> [] \<and> last rest = CHR ''?'' \<and> count_list rest (CHR ''?'') = 1;
                  (rest, query) = (if force then (butlast rest, []) else cut_or_all (CHR ''?'') rest);
                  u = empty_url\<lparr>ul_Scheme := ToLower scheme, ul_ForceQuery := force, ul_RawQuery := query\<rparr>
              in if \<not> prefix ''/'' rest \<and> scheme \<noteq> [] then Some (u\<lparr>ul_Opaque := rest\<rparr>)
                 else if \<not> prefix ''/'' rest \<and> CHR '':'' \<in> set (fst (cut_path rest)) then None
                 else if (scheme \<noteq> [] \<or> \<not> prefix ''///'' rest) \<and> prefix ''//'' rest then
                   (case cut_path (drop 2 rest) of
                      (authority, path) \<Rightarrow>
                        if parseAuthority authority = None then None
                        else setPath (u\<lparr>ul_User := authority_user authority, ul_Host := authority_host authority\<rparr>) path)
                 else setPath (u\<lparr>ul_OmitHost := (scheme \<noteq> [] \<and> prefix ''/'' rest)\<rparr>) rest)))"

definition url_Parse :: "string \<Rightarrow> url option" where
  "url_Parse rawURL =
     (case cut_or_all (CHR ''#'') rawURL of
        (u, frag) \<Rightarrow> Option.bind (url_parse_value u) (\<lambda>v. if frag = [] then Some v else setFragment v frag))"

subsection \<open>Writing a URL\<close>

definition EscapedPath :: "url \<Rightarrow> string" where
  "EscapedPath u =
     (if ul_RawPath u \<noteq> [] \<and> validEncoded path_char (ul_RawPath u) \<and> unescape (ul_RawPath u) = Some (ul_Path u)
      then ul_RawPath u
      else if ul_Path u = ''*'' then ''*''
      else escape_with path_char (ul_Path u))"

definition EscapedFragment :: "url \<Rightarrow> string" where
  "EscapedFragment u =
     (if ul_RawFragment u \<noteq> [] \<and> validEncoded fragment_char (ul_RawFragment u)
         \<and> unescape (ul_RawFragment u) = Some (ul_Fragment u)
      then ul_RawFragment u else escape_with fragment_char (ul_Fragment u))"

definition user_String :: "string \<times> string option \<Rightarrow> string" where
  "user_String user =
     (case user of (name, password) \<Rightarrow>
        if name \<noteq> [] \<or> password \<noteq> None
        then escape_with user_char name
          @ (case password of None \<Rightarrow> [] | Some p \<Rightarrow> '':'' @ escape_with user_char p)
        else [])"

definition authority_String :: "url \<Rightarrow> string" where
  "authority_String u =
     (if (ul_Scheme u \<noteq> [] \<or> ul_Host u \<noteq> [] \<or> ul_User u \<noteq> None)
         \<and> \<not> (ul_OmitHost u \<and> ul_Host u = [] \<and> ul_User u = None)
      then (if ul_Host u \<noteq> [] \<or> ul_Path u \<noteq> [] \<or> ul_User u \<noteq> None then ''//'' else [])
        @ (case ul_User u of None \<Rightarrow> [] | Some user \<Rightarrow> user_String user @ ''@'')
        @ escape_with host_char (ul_Host u)
      else [])"

text \<open>
  \<open>String\<close>. A path is set off from the host by a slash, and one at the start whose first segment has
  a colon by \<open>./\<close>.
\<close>

definition url_String :: "url \<Rightarrow> string" where
  "url_String u =
     (if ul_Scheme u \<noteq> [] then ul_Scheme u @ '':'' else [])
     @ (if ul_Opaque u \<noteq> [] then ul_Opaque u
        else
          (let before = authority_String u; path = EscapedPath u in
           before
           @ (if path \<noteq> [] \<and> hd path \<noteq> CHR ''/'' \<and> ul_Host u \<noteq> [] then ''/'' else [])
           @ (if ul_Scheme u = [] \<and> before = [] \<and> CHR '':'' \<in> set (fst (cut_path path)) then ''./'' else [])
           @ path))
     @ (if ul_ForceQuery u \<or> ul_RawQuery u \<noteq> [] then ''?'' @ ul_RawQuery u else [])
     @ (if ul_Fragment u \<noteq> [] then ''#'' @ EscapedFragment u else [])"

subsection \<open>The two readings of a URL agree\<close>

lemma setPath_None [simp]: "setPath u p = None \<longleftrightarrow> unescape p = None"
  by (simp add: setPath_def)

lemma setFragment_None [simp]: "setFragment u f = None \<longleftrightarrow> unescape f = None"
  by (simp add: setFragment_def)

lemma query_cut:
  assumes "rest \<noteq> []" "last rest = CHR ''?''" "count_list rest (CHR ''?'') = 1"
  shows "cut_or_all (CHR ''?'') rest = (butlast rest, [])"
proof -
  have split: "rest = butlast rest @ [CHR ''?'']" using assms(1,2) by (metis append_butlast_last_id)
  then have "CHR ''?'' \<notin> set (butlast rest)"
    using assms(3) count_list_append [of "butlast rest" "[CHR ''?'']" "CHR ''?''"] by (simp add: count_list_0_iff)
  from Cut_append_sep [OF this, of "[]"] split show ?thesis by (simp add: cut_or_all_def)
qed

text \<open>\<open>url.Parse\<close> fails for the same texts in this theory and in \<open>Cask_Url\<close>, which looks for user information only.\<close>

lemma url_parse_value_None: "url_parse_value s = None \<longleftrightarrow> url_parse s = None"
proof (cases "getScheme s")
  case (Some sr)
  obtain scheme rest where sr: "sr = (scheme, rest)" by force
  define force where "force \<longleftrightarrow> rest \<noteq> [] \<and> last rest = CHR ''?'' \<and> count_list rest (CHR ''?'') = 1"
  obtain rest' query where cut: "cut_or_all (CHR ''?'') rest = (rest', query)" by force
  have "\<exists>q. (if force then (butlast rest, []) else (rest', query)) = (rest', q)"
    using query_cut [of rest] cut by (auto simp: force_def)
  then obtain q where q: "(if force then (butlast rest, []) else (rest', query)) = (rest', q)" ..
  obtain authority path where ap: "cut_path (drop 2 rest') = (authority, path)" by force
  show ?thesis
    unfolding url_parse_value_def url_parse_def Some sr
    by (cases "parseAuthority authority")
      (simp_all only: option.case prod.case Let_def force_def [symmetric] cut q fst_conv ap, simp_all)
qed (simp add: url_parse_value_def url_parse_def)

lemma url_Parse_None: "url_Parse s = None \<longleftrightarrow> url_Parse_User s = None"
  by (auto simp: url_Parse_def url_Parse_User_def url_parse_value_None bind_eq_None_conv split: prod.split option.split)

subsection \<open>The URL of a plain server\<close>

text \<open>A host name and an optional port.\<close>

definition plain_char :: "char \<Rightarrow> bool" where
  "plain_char c \<longleftrightarrow> alphanumeric c \<or> c = CHR ''-'' \<or> c = CHR ''.'' \<or> c = CHR ''_''"

definition plain_host :: "string \<Rightarrow> bool" where
  "plain_host h \<longleftrightarrow> (\<exists>n p. h = n @ p \<and> n \<noteq> [] \<and> list_all plain_char n \<and> validOptionalPort p)"

definition plain_host_char :: "char \<Rightarrow> bool" where
  "plain_host_char c \<longleftrightarrow> plain_char c \<or> c = CHR '':''"

text \<open>A path without an escape.\<close>

definition plain_path :: "string \<Rightarrow> bool" where
  "plain_path p \<longleftrightarrow> (p = [] \<or> prefix ''/'' p) \<and> list_all path_char p"

lemma plain_segment: "plain_char c \<Longrightarrow> segment_char c"
  by (auto simp: plain_char_def segment_char_def)

lemma PathEscape_plain: "list_all plain_char n \<Longrightarrow> PathEscape n = n"
  by (induction n) (simp_all add: plain_segment)

lemma digit_plain: "is_digit c \<Longrightarrow> plain_char c"
  by (auto simp: is_digit_def plain_char_def alphanumeric_def)

lemma plain_char_in_host: "plain_host_char c \<Longrightarrow> host_char c"
  by (auto simp: plain_host_char_def plain_char_def host_char_def)

lemma plain_host_chars:
  assumes "plain_host h"
  shows "h \<noteq> []" "list_all plain_host_char h"
    "case CutLast (CHR '':'') h of None \<Rightarrow> True | Some (_, port) \<Rightarrow> validOptionalPort (CHR '':'' # port)"
proof -
  from assms obtain n p where h: "h = n @ p" "n \<noteq> []" "list_all plain_char n" "validOptionalPort p"
    by (auto simp: plain_host_def)
  have "\<not> plain_char (CHR '':'')" by code_simp
  then have no_colon: "CutLast (CHR '':'') s = None" if "list_all plain_char s" for s
    using that by (induction s) auto
  show "h \<noteq> []" using h by simp
  show "list_all plain_host_char h"
    using h by (auto simp: list_all_iff plain_host_char_def validOptionalPort_def digit_plain split: list.splits)
  show "case CutLast (CHR '':'') h of None \<Rightarrow> True | Some (_, port) \<Rightarrow> validOptionalPort (CHR '':'' # port)"
  proof (cases p)
    case Nil
    then show ?thesis using h no_colon by simp
  next
    case (Cons c ds)
    then have ds: "c = CHR '':''" "list_all is_digit ds" using h(4) by (simp_all add: validOptionalPort_def)
    then have "CutLast (CHR '':'') ds = None" by (intro no_colon) (auto simp: list_all_iff digit_plain)
    then have "CutLast (CHR '':'') (s @ p) = Some (s, ds)" for s using Cons ds by (induction s) simp_all
    then show ?thesis using h(1) ds by (simp add: validOptionalPort_def)
  qed
qed

text \<open>The characters that divide a URL are neither in a plain host nor, but for the slash, in a plain path.\<close>

lemma not_plain_chars:
  "list_all (\<lambda>c. \<not> plain_host_char c) ''#?/@%[''" "list_all (\<lambda>c. \<not> path_char c) ''#?%''"
  by code_simp+

lemma plain_not_control:
  "plain_host_char c \<Longrightarrow> \<not> control_byte c" "path_char c \<Longrightarrow> \<not> control_byte c"
proof -
  have chars: "list_all (\<lambda>c. \<not> control_byte c) ''.-_:~$&+=@,/;''" by code_simp
  have "alphanumeric c \<Longrightarrow> \<not> control_byte c" by (auto simp: alphanumeric_def control_byte_def)
  with chars show "plain_host_char c \<Longrightarrow> \<not> control_byte c" "path_char c \<Longrightarrow> \<not> control_byte c"
    by (auto simp: plain_host_char_def plain_char_def path_char_def segment_char_def)
qed

lemma cut_or_all_absent: "d \<notin> set s \<Longrightarrow> cut_or_all d s = (s, [])"
  using Cut_None_iff [of d s] by (simp add: cut_or_all_def)

lemma plain_text_id:
  "list_all host_char s \<Longrightarrow> escape_with host_char s = s" "list_all path_char s \<Longrightarrow> escape_with path_char s = s"
  "CHR ''%'' \<notin> set s \<Longrightarrow> unescape s = Some s"
  by (induction s) auto

lemma plain_host_authority:
  assumes "plain_host h"
  shows "parseAuthority h = Some None" "authority_user h = None" "authority_host h = h" "CHR ''/'' \<notin> set h"
    "escape_with host_char h = h"
proof -
  note chars = plain_host_chars [OF assms] not_plain_chars
  have host: "list_all host_char h"
    using chars(2) by (simp add: list_all_iff plain_char_in_host)
  have no_at: "CutLast (CHR ''@'') s = None" if "list_all plain_host_char s" for s
    using that not_plain_chars by (induction s) auto
  have ok: "host_ok False s" if "list_all host_char s" "list_all plain_host_char s" for s
    using that not_plain_chars by (induction s) auto
  have "\<not> prefix ''['' h" using chars(2,4) by (cases h) auto
  then have "parseHost_ok h" using chars(2,3) ok [OF host] by (simp add: parseHost_ok_def)
  with no_at [OF chars(2)] show "parseAuthority h = Some None" by (simp add: parseAuthority_def)
  show "authority_user h = None" using no_at [OF chars(2)] by (simp add: authority_user_def)
  show "authority_host h = h"
    using chars(2,4) no_at [OF chars(2)] plain_text_id(3) [of h] by (auto simp: authority_host_def list_all_iff)
  show "CHR ''/'' \<notin> set h" using chars(2,4) by (auto simp: list_all_iff)
  show "escape_with host_char h = h" by (rule plain_text_id(1) [OF host])
qed

lemma plain_url_parsed:
  assumes "scheme \<in> {''http'', ''https''}" "plain_host h" "plain_path p"
  shows "url_Parse (scheme @ ''://'' @ h @ p) = Some (empty_url\<lparr>ul_Scheme := scheme, ul_Host := h, ul_Path := p\<rparr>)"
proof -
  let ?s = "scheme @ ''://'' @ h @ p"
  note chars = plain_host_chars(2) [OF assms(2)] not_plain_chars
  have path: "list_all path_char p" using assms(3) by (simp add: plain_path_def)
  have none: "c \<notin> set ?s" if "c \<in> set ''#?%''" for c
    using that assms(1) chars path by (auto simp: list_all_iff)
  have control: "\<not> list_ex control_byte ?s"
  proof -
    have "\<not> list_ex control_byte (scheme @ ''://'')" using assms(1) by (auto simp: control_byte_def code_def)
    moreover have "\<not> list_ex control_byte (h @ p)"
      using chars(1) path by (auto simp: list_ex_iff list_all_iff dest: plain_not_control)
    ultimately show ?thesis by simp
  qed
  have scheme: "getScheme ?s = Some (scheme, ''//'' @ h @ p)"
    using assms(1) by (auto simp: getScheme_def letter_def alphanumeric_def is_digit_def code_def)
  have cuts: "cut_or_all (CHR ''#'') ?s = (?s, [])" "cut_or_all (CHR ''?'') (''//'' @ h @ p) = (''//'' @ h @ p, [])"
    using none [of "CHR ''#''"] none [of "CHR ''?''"] by (simp_all add: cut_or_all_absent)
  have "CHR ''?'' \<notin> set (''//'' @ h @ p)" using none [of "CHR ''?''"] by simp
  then have force: "\<not> (''//'' @ h @ p \<noteq> [] \<and> last (''//'' @ h @ p) = CHR ''?'' \<and> count_list (''//'' @ h @ p) (CHR ''?'') = 1)"
    by (metis last_in_set)
  have "Cut (CHR ''/'') h = None" using plain_host_authority(4) [OF assms(2)] Cut_None_iff by blast
  then have cp: "cut_path (drop 2 (''//'' @ h @ p)) = (h, p)"
    using assms(3) plain_host_authority(4) [OF assms(2)] Cut_append_sep [of "CHR ''/''" h]
    by (cases p) (auto simp: cut_path_def plain_path_def)
  have low: "ToLower scheme = scheme" using assms(1) by (auto simp: lower_def code_def)
  have star: "?s \<noteq> ''*''" using assms(1) by auto
  have "unescape p = Some p" using none [of "CHR ''%''"] plain_text_id(3) [of p] by simp
  then have "setPath u p = Some (u\<lparr>ul_Path := p, ul_RawPath := []\<rparr>)" for u
    by (simp add: setPath_def plain_text_id(2) [OF path])
  moreover have "scheme \<noteq> []" using assms(1) by auto
  ultimately have "url_parse_value ?s = Some (empty_url\<lparr>ul_Scheme := scheme, ul_Host := h, ul_Path := p\<rparr>)"
    unfolding url_parse_value_def scheme option.case prod.case Let_def if_not_P [OF force] cuts cp
    using control star low plain_host_authority(1-3) [OF assms(2)] force
    by (simp add: empty_url_def)
  then show ?thesis unfolding url_Parse_def cuts by simp
qed

lemma plain_url_written:
  assumes "scheme \<noteq> []" "plain_host h" "prefix ''/'' p"
  shows "url_String (empty_url\<lparr>ul_Scheme := scheme, ul_Host := h, ul_Path := p\<rparr>) =
    scheme @ ''://'' @ h @ escape_with path_char p"
proof -
  have "path_char (CHR ''/'')" by code_simp
  with assms(3) obtain q where "escape_with path_char p = CHR ''/'' # q" "p \<noteq> []" "p \<noteq> ''*''"
    by (cases p) auto
  with assms(1) show ?thesis
    using plain_host_chars(1) [OF assms(2)] plain_host_authority(5) [OF assms(2)]
    by (simp add: url_String_def authority_String_def EscapedPath_def empty_url_def Let_def)
qed

end
