(* ===== verification/Cask_Flags.thy ===== *)
theory Cask_Flags
  imports Cask_Json "HOL-Library.AList" "HOL-Library.Signed_Division"
begin

text \<open>
  What the programs take from their arguments: Go's \<open>flag\<close> package, \<open>time.ParseDuration\<close>
  and the durations as floats that \<open>internal/cli/run.go\<close> prints and sends.
\<close>

subsection \<open>Floats\<close>

text \<open>
  The \<open>float64\<close> nearest to a number, ties to even, where neither overflow nor underflow
  occurs, as is the case for everything below.
\<close>

definition pow2 :: "int \<Rightarrow> rat" where
  "pow2 e = (if 0 \<le> e then 2 ^ nat e else 1 / 2 ^ nat (- e))"

definition round_even :: "rat \<Rightarrow> int" where
  "round_even x =
     (let l = \<lfloor>x\<rfloor>; d = x - of_int l
      in if d < 1 / 2 then l else if d > 1 / 2 then l + 1 else if even l then l else l + 1)"

function bit_length :: "int \<Rightarrow> int" where
  "bit_length n = (if n \<le> 0 then 0 else 1 + bit_length (n div 2))"
  by pat_completeness auto
termination
  by (relation "measure nat") auto

declare bit_length.simps [simp del]

definition exponent :: "rat \<Rightarrow> int" where
  "exponent x =
     (let (p, q) = quotient_of x; e = bit_length p - bit_length q
      in if pow2 e \<le> x then e else e - 1)"

definition float64 :: "rat \<Rightarrow> rat" where
  "float64 x =
     (if x = 0 then 0
      else (let ulp = pow2 (exponent \<bar>x\<bar> - 52) in sgn x * of_int (round_even (\<bar>x\<bar> / ulp)) * ulp))"

subsection \<open>Durations\<close>

text \<open>\<open>Duration.Seconds\<close>, \<open>Minutes\<close> and \<open>Hours\<close>\<close>

definition float_units :: "duration \<Rightarrow> duration \<Rightarrow> rat" where
  "float_units u d =
     float64 (of_int (sint d sdiv sint u) + float64 (of_int (sint d smod sint u) / of_int (sint u)))"

text \<open>\<open>Time.Sub\<close> saturates, and \<open>Duration.Round\<close> rounds halves away from zero and saturates.\<close>

definition clamp64 :: "int \<Rightarrow> duration" where
  "clamp64 n = word_of_int (max (- (2 ^ 63)) (min (2 ^ 63 - 1) n))"

definition Sub :: "gtime \<Rightarrow> gtime \<Rightarrow> duration" where
  "Sub t u = clamp64 (nanos t - nanos u)"

definition Round :: "duration \<Rightarrow> duration \<Rightarrow> duration" where
  "Round d m =
     (if sint m \<le> 0 then d
      else (let a = \<bar>sint d\<bar>; r = a mod sint m
            in clamp64 (sgn (sint d) * (if 2 * r < sint m then a - r else a - r + sint m))))"

text \<open>\<open>leadingInt\<close> and \<open>leadingFraction\<close>: the latter ignores the digits that no longer fit.\<close>

fun leadingInt :: "int \<Rightarrow> string \<Rightarrow> (int \<times> string) option" where
  "leadingInt x [] = Some (x, [])"
| "leadingInt x (c # cs) =
     (if \<not> is_digit c then Some (x, c # cs)
      else if x > 2 ^ 63 div 10 then None
      else (let y = x * 10 + digit_value c in if y > 2 ^ 63 then None else leadingInt y cs))"

fun leadingFraction :: "bool \<Rightarrow> int \<Rightarrow> int \<Rightarrow> string \<Rightarrow> int \<times> int \<times> string" where
  "leadingFraction full x scale [] = (x, scale, [])"
| "leadingFraction full x scale (c # cs) =
     (if \<not> is_digit c then (x, scale, c # cs)
      else if full \<or> x > (2 ^ 63 - 1) div 10 then leadingFraction True x scale cs
      else (let y = x * 10 + digit_value c
            in if y > 2 ^ 63 then leadingFraction True x scale cs
               else leadingFraction False y (scale * 10) cs))"

lemma leadingInt_shorter: "leadingInt x s = Some (y, t) \<Longrightarrow> length t \<le> length s"
  by (induction s arbitrary: x) (auto simp: Let_def split: if_splits intro: le_SucI)

lemma leadingFraction_shorter: "length (snd (snd (leadingFraction full x scale s))) \<le> length s"
  by (induction full x scale s rule: leadingFraction.induct) (auto simp: Let_def intro: le_SucI)

definition unit_table :: "(string \<times> int) list" where
  "unit_table =
     [(''ns'', 1), (''us'', 1000), ([CHR 0xC2, CHR 0xB5] @ ''s'', 1000),
      ([CHR 0xCE, CHR 0xBC] @ ''s'', 1000), (''ms'', 1000000), (''s'', 1000000000),
      (''m'', 60000000000), (''h'', 3600000000000)]"

text \<open>One number with its unit: its value in nanoseconds, and the rest of the text.\<close>

definition point_digits :: "string \<Rightarrow> int \<times> int \<times> string" where
  "point_digits s =
     (case s of
        [] \<Rightarrow> (0, 1, [])
      | c # cs \<Rightarrow> (if c = CHR ''.'' then leadingFraction False 0 1 cs else (0, 1, s)))"

definition duration_part :: "string \<Rightarrow> (int \<times> string) option" where
  "duration_part s =
     (case leadingInt 0 s of
        None \<Rightarrow> None
      | Some (v, s1) \<Rightarrow>
          (case point_digits s1 of
             (f, scale, s2) \<Rightarrow>
               (let digits_seen = (length s1 < length s \<or> length s2 + 1 < length s1);
                    in_unit = (\<lambda>c. c \<noteq> CHR ''.'' \<and> \<not> is_digit c);
                    u = takeWhile in_unit s2;
                    rest = dropWhile in_unit s2
                in if \<not> digits_seen \<or> u = [] then None
                   else
                     (case map_of unit_table u of
                        None \<Rightarrow> None
                      | Some unit \<Rightarrow>
                          if v > 2 ^ 63 div unit then None
                          else
                            (let w = (if f > 0
                                      then v * unit + truncate (float64 (float64 (of_int f) * float64 (of_int unit / of_int scale)))
                                      else v * unit)
                             in if w > 2 ^ 63 then None else Some (w, rest))))))"

lemma point_digits_shorter: "length (snd (snd (point_digits s))) \<le> length s"
  using leadingFraction_shorter by (auto simp: point_digits_def intro: le_SucI split: list.split)

lemma duration_part_shorter:
  assumes "duration_part s = Some (w, rest)"
  shows "length rest < length s"
proof -
  obtain v s1 where s1: "leadingInt 0 s = Some (v, s1)"
    using assms by (auto simp: duration_part_def split: option.splits)
  obtain f scale s2 where s2: "point_digits s1 = (f, scale, s2)" by (metis surj_pair)
  define in_unit where "in_unit = (\<lambda>c. c \<noteq> CHR ''.'' \<and> \<not> is_digit c)"
  from assms s1 s2 have "takeWhile in_unit s2 \<noteq> []" "rest = dropWhile in_unit s2"
    by (auto simp: duration_part_def Let_def in_unit_def split: if_splits option.splits)
  then have "length rest < length s2"
    by (metis length_append length_greater_0_conv less_add_same_cancel2 takeWhile_dropWhile_id)
  moreover have "length s2 \<le> length s1" using point_digits_shorter [of s1] s2 by simp
  ultimately show ?thesis using leadingInt_shorter [OF s1] by simp
qed

text \<open>The sum is a \<open>uint64\<close>.\<close>

function duration_parts :: "int \<Rightarrow> string \<Rightarrow> int option" where
  "duration_parts d s =
     (if s = [] then Some d
      else if \<not> (hd s = CHR ''.'' \<or> is_digit (hd s)) then None
      else
        (case duration_part s of
           None \<Rightarrow> None
         | Some (w, rest) \<Rightarrow>
             (let d = (d + w) mod 2 ^ 64 in if d > 2 ^ 63 then None else duration_parts d rest)))"
  by pat_completeness auto
termination
  by (relation "measure (\<lambda>(d, s). length s)") (auto dest: duration_part_shorter)

declare duration_parts.simps [simp del]

definition ParseDuration :: "string \<Rightarrow> duration option" where
  "ParseDuration s =
     (let neg = HasPrefix s ''-'';
          s = (if neg \<or> HasPrefix s ''+'' then drop 1 s else s)
      in if s = ''0'' then Some 0
         else if s = [] then None
         else
           (case duration_parts 0 s of
              None \<Rightarrow> None
            | Some d \<Rightarrow>
                if neg then Some (- word_of_int d)
                else if d > 2 ^ 63 - 1 then None else Some (word_of_int d)))"

subsection \<open>Flags\<close>

datatype flag_value = StringFlag string | DurationFlag duration | BoolFlag bool

text \<open>The errors of \<open>FlagSet.Parse\<close>: the usage was asked for, or the arguments are wrong.\<close>

datatype flag_error = ErrHelp | BadFlags

definition ParseBool :: "string \<Rightarrow> bool option" where
  "ParseBool s =
     (if s \<in> set [''1'', ''t'', ''T'', ''true'', ''TRUE'', ''True''] then Some True
      else if s \<in> set [''0'', ''f'', ''F'', ''false'', ''FALSE'', ''False''] then Some False
      else None)"

definition set_flag :: "flag_value \<Rightarrow> string \<Rightarrow> flag_value option" where
  "set_flag old s =
     (case old of
        StringFlag _ \<Rightarrow> Some (StringFlag s)
      | DurationFlag _ \<Rightarrow> map_option DurationFlag (ParseDuration s)
      | BoolFlag _ \<Rightarrow> map_option BoolFlag (ParseBool s))"

text \<open>The name of a flag and the value after the first \<open>=\<close> that is not in front.\<close>

definition flag_name :: "string \<Rightarrow> string \<times> string option" where
  "flag_name text =
     (case Cut (CHR ''='') (drop 1 text) of
        None \<Rightarrow> (text, None)
      | Some (a, b) \<Rightarrow> (take 1 text @ a, Some b))"

text \<open>\<open>FlagSet.Parse\<close>: the flags with their values, and the arguments after them.\<close>

function flag_Parse ::
    "(string \<times> flag_value) list \<Rightarrow> string list \<Rightarrow> flag_error + (string \<times> flag_value) list \<times> string list" where
  "flag_Parse formal args =
     (case args of
        [] \<Rightarrow> Inr (formal, [])
      | s # rest \<Rightarrow>
          if length s < 2 \<or> hd s \<noteq> CHR ''-'' then Inr (formal, s # rest)
          else if s = ''--'' then Inr (formal, rest)
          else
            (let text = drop (if HasPrefix s ''--'' then 2 else 1) s
             in if text = [] \<or> hd text = CHR ''-'' \<or> hd text = CHR ''='' then Inl BadFlags
                else
                  (case flag_name text of
                     (name, val) \<Rightarrow>
                       (case map_of formal name of
                          None \<Rightarrow> Inl (if name = ''help'' \<or> name = ''h'' then ErrHelp else BadFlags)
                        | Some old \<Rightarrow>
                            (case (if val = None \<and> (case old of BoolFlag _ \<Rightarrow> True | _ \<Rightarrow> False)
                                   then Some (''true'', rest)
                                   else
                                     (case val of
                                        Some v \<Rightarrow> Some (v, rest)
                                      | None \<Rightarrow> (case rest of [] \<Rightarrow> None | v # args2 \<Rightarrow> Some (v, args2)))) of
                               None \<Rightarrow> Inl BadFlags
                             | Some (v, args2) \<Rightarrow>
                                 (case set_flag old v of
                                    None \<Rightarrow> Inl BadFlags
                                  | Some new \<Rightarrow> flag_Parse (AList.update name new formal) args2))))))"
  by pat_completeness auto
termination
  by (relation "measure (\<lambda>(formal, args). length args)") (auto split: if_splits option.splits list.splits)

declare flag_Parse.simps [simp del]

definition flag_string :: "(string \<times> flag_value) list \<Rightarrow> string \<Rightarrow> string" where
  "flag_string fs name = (case map_of fs name of Some (StringFlag s) \<Rightarrow> s | _ \<Rightarrow> [])"

definition flag_duration :: "(string \<times> flag_value) list \<Rightarrow> string \<Rightarrow> duration" where
  "flag_duration fs name = (case map_of fs name of Some (DurationFlag d) \<Rightarrow> d | _ \<Rightarrow> 0)"

definition flag_bool :: "(string \<times> flag_value) list \<Rightarrow> string \<Rightarrow> bool" where
  "flag_bool fs name = (case map_of fs name of Some (BoolFlag b) \<Rightarrow> b | _ \<Rightarrow> False)"

subsection \<open>Floats that are exact\<close>

lemma bit_length_bounds: "0 < n \<Longrightarrow> 2 ^ nat (bit_length n - 1) \<le> n \<and> n < 2 ^ nat (bit_length n) \<and> 0 < bit_length n"
proof (induction n rule: bit_length.induct)
  case (1 n)
  show ?case
  proof (cases "n = 1")
    case True
    then show ?thesis by (simp add: bit_length.simps [of 1] bit_length.simps [of 0])
  next
    case False
    with 1 have IH: "2 ^ nat (bit_length (n div 2) - 1) \<le> n div 2" "n div 2 < 2 ^ nat (bit_length (n div 2))"
      "0 < bit_length (n div 2)" by auto
    define b where "b = bit_length (n div 2)"
    have n: "bit_length n = 1 + b" using 1 by (simp add: bit_length.simps [of n] b_def)
    have "nat b = Suc (nat (b - 1))" "nat (1 + b) = Suc (nat b)" using IH(3) by (simp_all add: b_def)
    moreover have "2 ^ nat (b - 1) \<le> n div 2" "n div 2 < 2 ^ nat b" using IH by (simp_all add: b_def)
    ultimately have "2 ^ nat b \<le> n" "n < 2 ^ nat (1 + b)" by simp_all
    with n IH(3) show ?thesis by (simp add: b_def)
  qed
qed

text \<open>An integer of at most 53 bits is a \<open>float64\<close>.\<close>

lemma float64_int:
  assumes "\<bar>n\<bar> < 2 ^ 53"
  shows "float64 (of_int n) = of_int n"
proof (cases "n = 0")
  case False
  define a where "a = \<bar>n\<bar>"
  with False assms have a: "0 < a" "a < 2 ^ 53" by auto
  have abs: "\<bar>of_int n\<bar> = (of_int a :: rat)" by (simp add: a_def)
  have "bit_length a \<le> 53"
  proof (rule ccontr)
    assume "\<not> bit_length a \<le> 53"
    then have "(2 :: int) ^ 53 \<le> 2 ^ nat (bit_length a - 1)" by (intro power_increasing) auto
    with bit_length_bounds [OF a(1)] a(2) show False by linarith
  qed
  moreover have "bit_length 1 = 1" by (simp add: bit_length.simps [of 1] bit_length.simps [of 0])
  ultimately have e: "exponent (of_int a) \<le> 52"
    by (simp add: exponent_def quotient_of_int Let_def)
  define k where "k = nat (52 - exponent (of_int a))"
  have ulp: "pow2 (exponent (of_int a) - 52) = 1 / 2 ^ k"
    using e by (auto simp: pow2_def k_def)
  have "of_int a / (1 / 2 ^ k) = (of_int (a * 2 ^ k) :: rat)" by simp
  then have "round_even (of_int a / (1 / 2 ^ k)) = a * 2 ^ k"
    by (simp only: round_even_def floor_of_int) simp
  then have "float64 (of_int n) = sgn (of_int n) * of_int (a * 2 ^ k) * (1 / 2 ^ k)"
    using False by (simp add: float64_def Let_def abs ulp)
  also have "\<dots> = of_int (sgn n * a)" by (simp add: sgn_if)
  finally show ?thesis by (simp add: a_def sgn_mult_abs)
qed (simp add: float64_def)

end
