(* ===== verification/Cask_Table.thy ===== *)
theory Cask_Table
  imports Cask_Encode
begin

text \<open>
  \<open>text/tabwriter\<close>, for the parameters the program gives it: cells end with a tab, a column is as
  wide as its widest cell and two blanks, and text is aligned to the left. A column is a run of adjacent
  lines that have a cell there which is not their last.
\<close>

subsection \<open>Counting runes\<close>

text \<open>\<open>utf8.RuneCount\<close>: every byte that does not begin an encoding counts as a rune.\<close>

definition continuation :: "nat \<Rightarrow> nat \<Rightarrow> char \<Rightarrow> bool" where
  "continuation lo hi c \<longleftrightarrow> lo \<le> code c \<and> code c \<le> hi"

fun rune_size :: "string \<Rightarrow> nat" where
  "rune_size (a # b # c # d # _) =
     (if 0xC2 \<le> code a \<and> code a \<le> 0xDF \<and> continuation 0x80 0xBF b then 2
      else if 0xE0 \<le> code a \<and> code a \<le> 0xEF
        \<and> continuation (if code a = 0xE0 then 0xA0 else 0x80) (if code a = 0xED then 0x9F else 0xBF) b
        \<and> continuation 0x80 0xBF c then 3
      else if 0xF0 \<le> code a \<and> code a \<le> 0xF4
        \<and> continuation (if code a = 0xF0 then 0x90 else 0x80) (if code a = 0xF4 then 0x8F else 0xBF) b
        \<and> continuation 0x80 0xBF c \<and> continuation 0x80 0xBF d then 4
      else 1)"
| "rune_size [a, b, c] =
     (if 0xC2 \<le> code a \<and> code a \<le> 0xDF \<and> continuation 0x80 0xBF b then 2
      else if 0xE0 \<le> code a \<and> code a \<le> 0xEF
        \<and> continuation (if code a = 0xE0 then 0xA0 else 0x80) (if code a = 0xED then 0x9F else 0xBF) b
        \<and> continuation 0x80 0xBF c then 3
      else 1)"
| "rune_size [a, b] = (if 0xC2 \<le> code a \<and> code a \<le> 0xDF \<and> continuation 0x80 0xBF b then 2 else 1)"
| "rune_size _ = 1"

fun RuneCount :: "string \<Rightarrow> nat" where
  "RuneCount [] = 0"
| "RuneCount (c # cs) = Suc (RuneCount (drop (rune_size (c # cs) - 1) cs))"

subsection \<open>Cells\<close>

definition ends_cell :: "char \<Rightarrow> bool" where "ends_cell c \<longleftrightarrow> code c = 0x09 \<or> code c = 0x0B"
definition ends_line :: "char \<Rightarrow> bool" where "ends_line c \<longleftrightarrow> code c = 0x0A \<or> code c = 0x0C"
definition escapes :: "char \<Rightarrow> bool" where "escapes c \<longleftrightarrow> code c = 0xFF"

text \<open>A cell is its text and its width.\<close>

type_synonym cell = "string \<times> nat"

record tabwriter =
  tw_text :: string      \<comment> \<open>of the current cell\<close>
  tw_width :: nat        \<comment> \<open>of what was measured of it\<close>
  tw_rest :: string      \<comment> \<open>what was not measured yet\<close>
  tw_escaped :: bool
  tw_line :: "cell list"
  tw_lines :: "cell list list"
  tw_out :: string

definition tw_start :: tabwriter where
  "tw_start = \<lparr>tw_text = [], tw_width = 0, tw_rest = [], tw_escaped = False, tw_line = [], tw_lines = [],
     tw_out = []\<rparr>"

definition blanks :: "nat \<Rightarrow> string" where "blanks n = replicate n (CHR 0x20)"

text \<open>\<open>writeLines\<close>, for one line: its cells are padded to the widths of the columns it is in.\<close>

fun pad_cells :: "nat list \<Rightarrow> cell list \<Rightarrow> string" where
  "pad_cells (w # ws) ((t, n) # cs) = t @ blanks (w - n) @ pad_cells ws cs"
| "pad_cells [] cs = concat (map fst cs)"
| "pad_cells ws [] = []"

definition in_column :: "nat \<Rightarrow> cell list \<Rightarrow> bool" where
  "in_column column line \<longleftrightarrow> Suc column < length line"

definition column_of :: "nat \<Rightarrow> cell list list \<Rightarrow> nat" where
  "column_of column block = foldr max (map (\<lambda>line. snd (line ! column) + 2) block) 0"

text \<open>Laying out a column leaves fewer cells to the right of the columns, and the next lines are fewer lines.\<close>

definition cells_right :: "nat list \<Rightarrow> cell list list \<Rightarrow> nat" where
  "cells_right ws ls = sum_list (map (\<lambda>l. Suc (length l - length ws)) ls)"

lemma cells_right_column:
  assumes "ls \<noteq> []" "list_all (in_column (length ws)) ls"
  shows "cells_right (ws @ [w]) ls < cells_right ws ls"
  using assms
proof (induction ls)
  case (Cons l ls)
  then show ?case by (cases "ls = []") (auto simp: cells_right_def in_column_def)
qed simp

lemma cells_right_append: "cells_right ws (a @ b) = cells_right ws a + cells_right ws b"
  by (simp add: cells_right_def)

lemma cells_right_pos: "ls \<noteq> [] \<Longrightarrow> 0 < cells_right ws ls"
  by (cases ls) (simp_all add: cells_right_def)

text \<open>
  \<open>format\<close>: the lines of a column are laid out with its width added; the others have no more
  columns.
\<close>

function format_lines :: "nat list \<Rightarrow> cell list list \<Rightarrow> string list" where
  "format_lines ws [] = []"
| "format_lines ws (l # ls) =
     (if in_column (length ws) l then
        format_lines (ws @ [column_of (length ws) (takeWhile (in_column (length ws)) (l # ls))])
          (takeWhile (in_column (length ws)) (l # ls))
        @ format_lines ws (dropWhile (in_column (length ws)) (l # ls))
      else pad_cells ws l # format_lines ws ls)"
  by pat_completeness auto
termination
proof (relation "measure (\<lambda>(ws, ls). cells_right ws ls)")
  fix ws :: "nat list" and l :: "cell list" and ls
  assume l: "in_column (length ws) l"
  let ?a = "takeWhile (in_column (length ws)) (l # ls)" and ?b = "dropWhile (in_column (length ws)) (l # ls)"
  have split: "cells_right ws (l # ls) = cells_right ws ?a + cells_right ws ?b"
    by (metis cells_right_append takeWhile_dropWhile_id)
  have a: "?a \<noteq> []" using l by simp
  have "list_all (in_column (length ws)) ?a" by (auto simp: list_all_iff dest: set_takeWhileD)
  from cells_right_column [OF a this] show "((ws @ [column_of (length ws) ?a], ?a), ws, l # ls)
      \<in> measure (\<lambda>(ws, ls). cells_right ws ls)"
    using split by (simp only: in_measure prod.case) (meson le_add1 less_le_trans)
  show "((ws, ?b), ws, l # ls) \<in> measure (\<lambda>(ws, ls). cells_right ws ls)"
    using split cells_right_pos [OF a, of ws] by simp
qed (simp_all add: cells_right_def)

subsection \<open>Writing\<close>

definition end_cell :: "tabwriter \<Rightarrow> tabwriter" where
  "end_cell b = b\<lparr>tw_line := tw_line b @ [(tw_text b, tw_width b + RuneCount (tw_rest b))],
     tw_text := [], tw_width := 0, tw_rest := []\<rparr>"

text \<open>
  \<open>flushNoDefers\<close>: a cell that was not ended is the last one of its line, which has no line end; its
  width does not matter.
\<close>

definition tw_flush :: "tabwriter \<Rightarrow> tabwriter" where
  "tw_flush b =
     (let line = (if tw_text b = [] then tw_line b else tw_line b @ [(tw_text b, tw_width b)])
      in tw_start\<lparr>tw_out := tw_out b @ Join (CHR 0x0A) (format_lines [] (tw_lines b @ [line]))\<rparr>)"

definition tw_char :: "tabwriter \<Rightarrow> char \<Rightarrow> tabwriter" where
  "tw_char b c =
     (if tw_escaped b then
        (if escapes c
         then b\<lparr>tw_text := tw_text b @ [c], tw_width := tw_width b + RuneCount (tw_rest b @ [c]) - 2,
                tw_rest := [], tw_escaped := False\<rparr>
         else b\<lparr>tw_text := tw_text b @ [c], tw_rest := tw_rest b @ [c]\<rparr>)
      else if ends_cell c then end_cell b
      else if ends_line c then
        (let b = end_cell b; line = tw_line b;
             b = b\<lparr>tw_lines := tw_lines b @ [line], tw_line := []\<rparr>
         in if code c = 0x0C \<or> length line = 1 then tw_flush b else b)
      else if escapes c
      then b\<lparr>tw_text := tw_text b @ [c], tw_width := tw_width b + RuneCount (tw_rest b), tw_rest := [c],
             tw_escaped := True\<rparr>
      else b\<lparr>tw_text := tw_text b @ [c], tw_rest := tw_rest b @ [c]\<rparr>)"

definition tabulate :: "string \<Rightarrow> string" where
  "tabulate s = tw_out (tw_flush (foldl tw_char tw_start s))"

subsection \<open>Tables\<close>

text \<open>A cell whose text no byte of it ends.\<close>

definition plain_cell :: "string \<Rightarrow> bool" where
  "plain_cell s \<longleftrightarrow> list_all (\<lambda>c. \<not> ends_cell c \<and> \<not> ends_line c \<and> \<not> escapes c) s"

fun tab_row :: "string list \<Rightarrow> string" where
  "tab_row [] = [CHR 0x0A]"
| "tab_row [s] = s @ [CHR 0x0A]"
| "tab_row (s # ss) = s @ CHR 0x09 # tab_row ss"

text \<open>What a table should look like: each cell but the last is padded to the widest of its column and two blanks.\<close>

definition column_width :: "string list list \<Rightarrow> nat \<Rightarrow> nat" where
  "column_width rows j = Max (RuneCount ` (\<lambda>r. r ! j) ` set rows) + 2"

definition aligned_row :: "string list list \<Rightarrow> string list \<Rightarrow> string" where
  "aligned_row rows r =
     concat (map (\<lambda>j. r ! j @ blanks (column_width rows j - RuneCount (r ! j))) [0..<length r - 1])
       @ last r @ [CHR 0x0A]"

definition cells_of :: "string list \<Rightarrow> cell list" where
  "cells_of r = map (\<lambda>s. (s, RuneCount s)) r"

lemma plain_chars:
  "plain_cell s \<Longrightarrow> \<not> tw_escaped b \<Longrightarrow>
     foldl tw_char b s = b\<lparr>tw_text := tw_text b @ s, tw_rest := tw_rest b @ s\<rparr>"
  by (induction s arbitrary: b) (simp_all add: plain_cell_def tw_char_def)

definition between_lines :: "tabwriter \<Rightarrow> bool" where
  "between_lines b \<longleftrightarrow> tw_text b = [] \<and> tw_width b = 0 \<and> tw_rest b = [] \<and> \<not> tw_escaped b"

lemma separators: "ends_cell (CHR 0x09)" "\<not> ends_cell (CHR 0x0A)" "ends_line (CHR 0x0A)" "code (CHR 0x0A) = 10"
  by code_simp+

lemma cell_written:
  assumes "plain_cell s" "between_lines b"
  shows "foldl tw_char b (s @ [CHR 0x09]) = b\<lparr>tw_line := tw_line b @ [(s, RuneCount s)]\<rparr>"
  using assms by (simp add: plain_chars between_lines_def tw_char_def separators end_cell_def)

lemma line_written:
  assumes "plain_cell s" "between_lines b" "tw_line b \<noteq> []"
  shows "foldl tw_char b (s @ [CHR 0x0A]) =
    b\<lparr>tw_line := [], tw_lines := tw_lines b @ [tw_line b @ [(s, RuneCount s)]]\<rparr>"
  using assms by (simp add: plain_chars between_lines_def tw_char_def separators end_cell_def Let_def)

lemma row_written:
  assumes "list_all plain_cell r" "r \<noteq> []" "between_lines b" "tw_line b \<noteq> [] \<or> 2 \<le> length r"
  shows "foldl tw_char b (tab_row r) =
    b\<lparr>tw_line := [], tw_lines := tw_lines b @ [tw_line b @ cells_of r]\<rparr>"
  using assms
proof (induction r arbitrary: b rule: tab_row.induct)
  case (2 s)
  then show ?case using line_written [of s b] by (simp add: cells_of_def)
next
  case (3 s s' ss)
  let ?b = "b\<lparr>tw_line := tw_line b @ [(s, RuneCount s)]\<rparr>"
  have "foldl tw_char b (tab_row (s # s' # ss)) = foldl tw_char (foldl tw_char b (s @ [CHR 0x09])) (tab_row (s' # ss))"
    by simp
  also have "\<dots> = foldl tw_char ?b (tab_row (s' # ss))"
    using cell_written [of s b] 3(2,4) by (simp del: foldl_append foldl_Cons)
  also have "\<dots> = ?b\<lparr>tw_line := [], tw_lines := tw_lines ?b @ [tw_line ?b @ cells_of (s' # ss)]\<rparr>"
    using 3 by (intro "3.IH") (simp_all add: between_lines_def)
  finally show ?case by (simp add: cells_of_def)
qed simp

lemma rows_written:
  assumes "list_all (\<lambda>r. list_all plain_cell r \<and> 2 \<le> length r) rows" "between_lines b" "tw_line b = []"
  shows "foldl tw_char b (concat (map tab_row rows)) = b\<lparr>tw_lines := tw_lines b @ map cells_of rows\<rparr>"
  using assms
proof (induction rows arbitrary: b)
  case (Cons r rows)
  have "b\<lparr>tw_line := [], tw_lines := ls\<rparr> = b\<lparr>tw_lines := ls\<rparr>" for ls
    using Cons.prems(3) by (cases b) simp
  moreover have "r \<noteq> []" using Cons.prems(1) by auto
  ultimately have "foldl tw_char b (tab_row r) = b\<lparr>tw_lines := tw_lines b @ [cells_of r]\<rparr>"
    using Cons.prems row_written [of r b] by simp
  with Cons.prems Cons.IH [of "b\<lparr>tw_lines := tw_lines b @ [cells_of r]\<rparr>"] show ?case
    by (simp add: between_lines_def)
qed simp

lemma length_cells_of [simp]: "length (cells_of r) = length r"
  by (simp add: cells_of_def)

lemma foldr_max: "xs \<noteq> [] \<Longrightarrow> foldr max (map f xs) 0 = Max (f ` set xs)" for f :: "'a \<Rightarrow> nat"
  by (induction xs rule: list_nonempty_induct) simp_all

lemma column_of_rows:
  assumes "rows \<noteq> []" "list_all (\<lambda>r. j < length r) rows"
  shows "column_of j (map cells_of rows) = column_width rows j"
proof -
  let ?n = "\<lambda>r. RuneCount (r ! j)"
  have "map (\<lambda>line. snd (line ! j) + 2) (map cells_of rows) = map (\<lambda>r. ?n r + 2) rows"
    using assms(2) by (auto simp: cells_of_def list_all_iff)
  then have "column_of j (map cells_of rows) = Max ((\<lambda>r. ?n r + 2) ` set rows)"
    unfolding column_of_def by (simp only: foldr_max [OF assms(1)])
  also have "\<dots> = Max (?n ` set rows) + 2"
    using Max_add_commute [of "set rows" ?n 2] assms(1) by simp
  finally show ?thesis by (simp add: column_width_def image_image)
qed

text \<open>
  The lines of a table of \<open>k\<close> columns, of which \<open>length ws\<close> are laid out, before lines that are in none
  of them.
\<close>

lemma format_table:
  assumes "rows \<noteq> []" "list_all (\<lambda>r. length r = k) rows" "length ws < k" "list_all (\<lambda>l. l = []) tail"
  shows "format_lines ws (map cells_of rows @ tail) =
    map (\<lambda>r. pad_cells (ws @ map (column_width rows) [length ws..<k - 1]) (cells_of r)) rows @ format_lines ws tail"
  using assms(3,4)
proof (induction "k - length ws" arbitrary: ws tail rule: less_induct)
  case less
  show ?case
  proof (cases "Suc (length ws) < k")
    case True
    let ?w = "column_width rows (length ws)" and ?in = "in_column (length ws)"
    have col: "\<forall>l \<in> set (map cells_of rows). ?in l"
      using True assms(2) by (auto simp: list_all_iff in_column_def)
    have none: "takeWhile ?in tail = []" "dropWhile ?in tail = tail"
      using less.prems(2) by (cases tail; simp add: in_column_def)+
    have take: "takeWhile ?in (map cells_of rows @ tail) = map cells_of rows"
      using col none(1) by (subst takeWhile_append2) auto
    have drop: "dropWhile ?in (map cells_of rows @ tail) = tail"
      using col none(2) by (subst dropWhile_append2) auto
    have width: "column_of (length ws) (map cells_of rows) = ?w"
      using True assms(1,2) by (intro column_of_rows) (auto simp: list_all_iff)
    obtain l ls where cons: "map cells_of rows @ tail = l # ls" "?in l"
      using assms(1) col by (cases rows) auto
    then have "format_lines ws (map cells_of rows @ tail) =
        format_lines (ws @ [?w]) (map cells_of rows) @ format_lines ws tail"
      using take drop width by (simp only: format_lines.simps if_True)
    moreover have "format_lines (ws @ [?w]) (map cells_of rows @ []) =
        map (\<lambda>r. pad_cells ((ws @ [?w]) @ map (column_width rows) [length (ws @ [?w])..<k - 1]) (cells_of r)) rows
          @ format_lines (ws @ [?w]) []"
      using True by (intro less.hyps) auto
    moreover have "[length ws..<k - 1] = length ws # [length (ws @ [?w])..<k - 1]"
      using True by (simp add: upt_conv_Cons)
    ultimately show ?thesis by simp
  next
    case False
    have "format_lines ws (map cells_of rs @ tail) = map (\<lambda>r. pad_cells ws (cells_of r)) rs @ format_lines ws tail"
      if "list_all (\<lambda>r. length r = k) rs" for rs
      using that False by (induction rs) (simp_all add: in_column_def)
    with assms(2) False show ?thesis by simp
  qed
qed

lemma pad_cells_cells_of:
  "length ws < length r \<Longrightarrow> pad_cells ws (cells_of r) =
     concat (map (\<lambda>j. r ! j @ blanks (ws ! j - RuneCount (r ! j))) [0..<length ws]) @ concat (drop (length ws) r)"
proof (induction ws arbitrary: r)
  case (Cons w ws)
  then obtain s r' where r: "r = s # r'" by (cases r) auto
  with Cons show ?case
    by (simp add: cells_of_def upt_conv_Cons map_Suc_upt [symmetric] comp_def del: upt_Suc)
qed (simp add: cells_of_def comp_def)

lemma padded_row:
  assumes "length r = k" "2 \<le> k"
  shows "pad_cells (map (column_width rows) [0..<k - 1]) (cells_of r) @ [CHR 0x0A] = aligned_row rows r"
proof -
  let ?ws = "map (column_width rows) [0..<k - 1]"
  have "drop (k - 1) r = [last r]" using assms by (metis One_nat_def append_butlast_last_id append_eq_conv_conj
        diff_Suc_1 length_butlast list.size(3) not_numeral_le_zero)
  moreover have "map (\<lambda>j. r ! j @ blanks (?ws ! j - RuneCount (r ! j))) [0..<k - 1] =
      map (\<lambda>j. r ! j @ blanks (column_width rows j - RuneCount (r ! j))) [0..<k - 1]"
    by (rule map_cong) simp_all
  moreover have "length ?ws < length r" "length ?ws = k - 1" using assms by simp_all
  ultimately have "pad_cells ?ws (cells_of r) =
      concat (map (\<lambda>j. r ! j @ blanks (column_width rows j - RuneCount (r ! j))) [0..<k - 1]) @ last r"
    by (simp only: pad_cells_cells_of) simp
  then show ?thesis by (simp add: aligned_row_def assms(1))
qed

lemma Join_lines: "Join d (xs @ [[]]) = concat (map (\<lambda>s. s @ [d]) xs)"
proof (induction xs)
  case (Cons x xs)
  then show ?case by (cases "xs @ [[]]") auto
qed simp

text \<open>
  A table of plain cells in at least two columns comes out as it should look.
\<close>

lemma tabulate_rows:
  assumes "rows \<noteq> []" "list_all (\<lambda>r. list_all plain_cell r \<and> length r = k) rows" "2 \<le> k"
  shows "tabulate (concat (map tab_row rows)) = concat (map (aligned_row rows) rows)"
proof -
  let ?ws = "map (column_width rows) [0..<k - 1]"
  have lines: "foldl tw_char tw_start (concat (map tab_row rows)) = tw_start\<lparr>tw_lines := map cells_of rows\<rparr>"
    using assms(2,3) rows_written [of rows tw_start]
    by (auto simp: list_all_iff between_lines_def tw_start_def)
  have "format_lines [] (map cells_of rows @ [[]]) = map (\<lambda>r. pad_cells ?ws (cells_of r)) rows @ [[]]"
    using format_table [OF assms(1), of k "[]" "[[]]"] assms(2,3) by (simp add: list_all_iff in_column_def)
  then have "tabulate (concat (map tab_row rows)) =
      concat (map (\<lambda>s. s @ [CHR 0x0A]) (map (\<lambda>r. pad_cells ?ws (cells_of r)) rows))"
    unfolding tabulate_def lines by (simp add: tw_flush_def tw_start_def Join_lines)
  also have "\<dots> = concat (map (aligned_row rows) rows)"
    using assms(2,3) padded_row [of _ k rows] by (auto simp: list_all_iff intro!: arg_cong [of _ _ concat])
  finally show ?thesis .
qed

end
