(* ===== verification/Cask_Client.thy ===== *)
theory Cask_Client
  imports Cask_Api Cask_Flags Cask_Table
begin

text \<open>
  \<open>internal/cli/config.go\<close> and \<open>internal/cli/client.go\<close>: the configuration of the
  command-line client, its HTTP calls to the API, and the terminal connection. What the
  client makes of an answer is stated against what the API server writes.
\<close>

subsection \<open>Configuration\<close>

record ClientConfig =
  cc_APIServer :: string
  cc_Token :: string

text \<open>
  \<open>bufio.Scanner\<close> with its default buffer: the lines of a file without their ends, up to
  the first that does not fit into 64 KiB.
\<close>

definition drop_CR :: "string \<Rightarrow> string" where
  "drop_CR l = (if l \<noteq> [] \<and> last l = CHR 0x0D then butlast l else l)"

definition scan_lines :: "string \<Rightarrow> string list" where
  "scan_lines s =
     (let ls = Split (CHR 0x0A) s;
          ls = (if last ls = [] then butlast ls else ls)
      in map drop_CR (takeWhile (\<lambda>l. length l < 65536) ls))"

definition quotes :: string where "quotes = [CHR 0x22, CHR 0x27]"

definition config_line :: "ClientConfig \<Rightarrow> string \<Rightarrow> ClientConfig" where
  "config_line cfg text =
     (let line = TrimSpace text in
      if line = [] \<or> HasPrefix line ''#'' then cfg
      else
        (case Cut (CHR '':'') line of
           None \<Rightarrow> cfg
         | Some (a, b) \<Rightarrow>
             (let key = TrimSpace a; val = Trim (TrimSpace b) quotes
              in if key = ''apiServer'' then cfg\<lparr>cc_APIServer := val\<rparr>
                 else if key = ''token'' then cfg\<lparr>cc_Token := val\<rparr>
                 else cfg)))"

text \<open>
  The environment gives an empty text for a variable that is not set; a file that cannot be
  opened is \<open>None\<close>.
\<close>

definition UserHomeDir :: "(string \<Rightarrow> string) \<Rightarrow> string option" where
  "UserHomeDir env = (if env ''HOME'' = [] then None else Some (env ''HOME''))"

definition config_path :: "(string \<Rightarrow> string) \<Rightarrow> string \<Rightarrow> string" where
  "config_path env path =
     (if path = [] then
        (case UserHomeDir env of
           None \<Rightarrow> []
         | Some home \<Rightarrow> filepath_Join [home, ''.caskctl'', ''config.yaml''])
      else path)"

definition config_file :: "(string \<Rightarrow> string option) \<Rightarrow> string \<Rightarrow> ClientConfig \<Rightarrow> ClientConfig" where
  "config_file files path cfg =
     (if path = [] then cfg
      else (case files path of None \<Rightarrow> cfg | Some s \<Rightarrow> foldl config_line cfg (scan_lines s)))"

definition config_env :: "(string \<Rightarrow> string) \<Rightarrow> ClientConfig \<Rightarrow> ClientConfig" where
  "config_env env cfg =
     (let cfg = (if env ''CASK_API_SERVER'' \<noteq> [] then cfg\<lparr>cc_APIServer := env ''CASK_API_SERVER''\<rparr> else cfg)
      in if env ''CASK_TOKEN'' \<noteq> [] then cfg\<lparr>cc_Token := env ''CASK_TOKEN''\<rparr> else cfg)"

definition LoadConfig :: "(string \<Rightarrow> string) \<Rightarrow> (string \<Rightarrow> string option) \<Rightarrow> string \<Rightarrow> ClientConfig" where
  "LoadConfig env files path =
     config_env env (config_file files (config_path env path)
       \<lparr>cc_APIServer = ''http://127.0.0.1:8080'', cc_Token = ''dev-token''\<rparr>)"

subsection \<open>Requests and sessions\<close>

record CreateRequest =
  cq_Tool :: string
  cq_RepoURL :: string
  cq_Branch :: string
  cq_ModelRef :: string
  cq_ResourceProfile :: string
  cq_IsolationProfile :: string
  cq_TTLSeconds :: int64

record Session =
  cs_ID :: string
  cs_Phase :: string
  cs_Reason :: string
  cs_Message :: string
  cs_Tool :: string
  cs_ModelRef :: string
  cs_ResourceProfile :: string
  cs_IsolationProfile :: string
  cs_TerminalReady :: bool
  cs_CreatedAt :: string
  cs_ExpiresAt :: string
  cs_TerminalURL :: string

definition create_json :: "CreateRequest \<Rightarrow> json" where
  "create_json q =
     JObject
       [(''tool'', JString (cq_Tool q)), (''repoUrl'', JString (cq_RepoURL q)),
        (''branch'', JString (cq_Branch q)), (''modelRef'', JString (cq_ModelRef q)),
        (''resourceProfile'', JString (cq_ResourceProfile q)),
        (''isolationProfile'', JString (cq_IsolationProfile q)),
        (''ttlSeconds'', JInt (cq_TTLSeconds q))]"

definition zero_session :: Session where
  "zero_session = \<lparr>cs_ID = [], cs_Phase = [], cs_Reason = [], cs_Message = [], cs_Tool = [],
     cs_ModelRef = [], cs_ResourceProfile = [], cs_IsolationProfile = [], cs_TerminalReady = False,
     cs_CreatedAt = [], cs_ExpiresAt = [], cs_TerminalURL = []\<rparr>"

definition session_setters :: "Session setters" where
  "session_setters =
     [(''id'', \<lambda>v m. case set_string v (cs_ID m) of (x, ok) \<Rightarrow> (m\<lparr>cs_ID := x\<rparr>, ok)),
      (''phase'', \<lambda>v m. case set_string v (cs_Phase m) of (x, ok) \<Rightarrow> (m\<lparr>cs_Phase := x\<rparr>, ok)),
      (''reason'', \<lambda>v m. case set_string v (cs_Reason m) of (x, ok) \<Rightarrow> (m\<lparr>cs_Reason := x\<rparr>, ok)),
      (''message'', \<lambda>v m. case set_string v (cs_Message m) of (x, ok) \<Rightarrow> (m\<lparr>cs_Message := x\<rparr>, ok)),
      (''tool'', \<lambda>v m. case set_string v (cs_Tool m) of (x, ok) \<Rightarrow> (m\<lparr>cs_Tool := x\<rparr>, ok)),
      (''modelRef'', \<lambda>v m. case set_string v (cs_ModelRef m) of (x, ok) \<Rightarrow> (m\<lparr>cs_ModelRef := x\<rparr>, ok)),
      (''resourceProfile'', \<lambda>v m.
         case set_string v (cs_ResourceProfile m) of (x, ok) \<Rightarrow> (m\<lparr>cs_ResourceProfile := x\<rparr>, ok)),
      (''isolationProfile'', \<lambda>v m.
         case set_string v (cs_IsolationProfile m) of (x, ok) \<Rightarrow> (m\<lparr>cs_IsolationProfile := x\<rparr>, ok)),
      (''terminalReady'', \<lambda>v m.
         case set_bool v (cs_TerminalReady m) of (x, ok) \<Rightarrow> (m\<lparr>cs_TerminalReady := x\<rparr>, ok)),
      (''createdAt'', \<lambda>v m. case set_string v (cs_CreatedAt m) of (x, ok) \<Rightarrow> (m\<lparr>cs_CreatedAt := x\<rparr>, ok)),
      (''expiresAt'', \<lambda>v m. case set_string v (cs_ExpiresAt m) of (x, ok) \<Rightarrow> (m\<lparr>cs_ExpiresAt := x\<rparr>, ok)),
      (''terminalUrl'', \<lambda>v m.
         case set_string v (cs_TerminalURL m) of (x, ok) \<Rightarrow> (m\<lparr>cs_TerminalURL := x\<rparr>, ok))]"

definition unmarshal_Session :: "json \<Rightarrow> Session option" where
  "unmarshal_Session doc = unmarshal_struct session_setters zero_session doc"

text \<open>
  A list of sessions: an item of the wrong type makes the whole an error. The field is given
  once.
\<close>

definition set_items :: "json \<Rightarrow> Session list \<Rightarrow> Session list \<times> bool" where
  "set_items v old =
     (case v of
        JArray js \<Rightarrow>
          (let rs = map unmarshal_Session js
           in if list_all (\<lambda>r. r \<noteq> None) rs then (map the rs, True) else (old, False))
      | JNull \<Rightarrow> ([], True)
      | _ \<Rightarrow> (old, False))"

definition unmarshal_items :: "json \<Rightarrow> Session list option" where
  "unmarshal_items doc = unmarshal_struct [(''items'', set_items)] [] doc"

subsection \<open>Calls\<close>

text \<open>
  The HTTP transport (\<open>http.Client.Do\<close>) is a parameter that takes the call to an error or
  to a status with the body, whose reading may fail; so is the JSON of a text, both ways.
\<close>

record http_call =
  hc_Method :: string
  hc_URL :: string
  hc_Header :: header
  hc_Body :: "string option"

record 'w client =
  cl_Config :: ClientConfig
  cl_Do :: "http_call \<Rightarrow> 'w \<Rightarrow> (kerr + int \<times> (kerr + string)) \<times> 'w"
  cl_Marshal :: "json \<Rightarrow> string"
  cl_Unmarshal :: "string \<Rightarrow> json option"

datatype client_error =
    InvalidURL string        \<comment> \<open>of \<open>url.Parse\<close>\<close>
  | TransportError kerr
  | InvalidJSON              \<comment> \<open>of \<open>json.Unmarshal\<close>\<close>
  | ApiError string          \<comment> \<open>\<open>api error: \<close> and the text\<close>

definition client_url :: "'w client \<Rightarrow> string \<Rightarrow> string" where
  "client_url c path = TrimRight (cc_APIServer (cl_Config c)) ''/'' @ path"

definition client_header :: "'w client \<Rightarrow> json option \<Rightarrow> header" where
  "client_header c payload =
     (let h = hdr_Set [] ''Authorization'' (''Bearer '' @ cc_Token (cl_Config c))
      in if payload = None then h else hdr_Set h ''Content-Type'' ''application/json'')"

definition client_do ::
    "'w client \<Rightarrow> string \<Rightarrow> string \<Rightarrow> json option \<Rightarrow> 'w \<Rightarrow> (client_error + string) \<times> 'w" where
  "client_do c method path payload w =
     (let url = client_url c path in
      if url_Parse_User url = None then (Inl (InvalidURL url), w)
      else
        (case cl_Do c \<lparr>hc_Method = method, hc_URL = url, hc_Header = client_header c payload,
                       hc_Body = map_option (cl_Marshal c) payload\<rparr> w of
           (Inl err, w) \<Rightarrow> (Inl (TransportError err), w)
         | (Inr (status, Inl err), w) \<Rightarrow> (Inl (TransportError err), w)
         | (Inr (status, Inr data), w) \<Rightarrow>
             (if status \<ge> 300 then (Inl (ApiError (TrimSpace data)), w) else (Inr data, w))))"

definition doSession ::
    "'w client \<Rightarrow> string \<Rightarrow> string \<Rightarrow> json option \<Rightarrow> 'w \<Rightarrow> (client_error + Session \<times> string) \<times> 'w" where
  "doSession c method path payload w =
     (case client_do c method path payload w of
        (Inl err, w) \<Rightarrow> (Inl err, w)
      | (Inr body, w) \<Rightarrow>
          (case Option.bind (cl_Unmarshal c body) unmarshal_Session of
             None \<Rightarrow> (Inl InvalidJSON, w)
           | Some session \<Rightarrow> (Inr (session, body), w)))"

definition sessions_path :: string where "sessions_path = ''/api/v1/sessions''"

definition session_path :: "string \<Rightarrow> string" where
  "session_path sid = ''/api/v1/sessions/'' @ PathEscape sid"

definition client_Create :: "'w client \<Rightarrow> CreateRequest \<Rightarrow> 'w \<Rightarrow> (client_error + Session \<times> string) \<times> 'w" where
  "client_Create c q = doSession c ''POST'' sessions_path (Some (create_json q))"

definition client_List :: "'w client \<Rightarrow> 'w \<Rightarrow> (client_error + Session list \<times> string) \<times> 'w" where
  "client_List c w =
     (case client_do c ''GET'' sessions_path None w of
        (Inl err, w) \<Rightarrow> (Inl err, w)
      | (Inr body, w) \<Rightarrow>
          (case Option.bind (cl_Unmarshal c body) unmarshal_items of
             None \<Rightarrow> (Inl InvalidJSON, w)
           | Some items \<Rightarrow> (Inr (items, body), w)))"

definition client_Get :: "'w client \<Rightarrow> string \<Rightarrow> 'w \<Rightarrow> (client_error + Session \<times> string) \<times> 'w" where
  "client_Get c sid = doSession c ''GET'' (session_path sid) None"

definition client_Delete :: "'w client \<Rightarrow> string \<Rightarrow> 'w \<Rightarrow> (client_error + string) \<times> 'w" where
  "client_Delete c sid = client_do c ''DELETE'' (session_path sid) None"

subsection \<open>The terminal connection\<close>

text \<open>
  The URL and the header of the call that opens the connection. Of the URL of the server the scheme
  and the path are assigned; its other fields stay.
\<close>

definition connect_target :: "'w client \<Rightarrow> string \<Rightarrow> (client_error + string \<times> header)" where
  "connect_target c sid =
     (let server = TrimRight (cc_APIServer (cl_Config c)) ''/'' in
      case url_Parse server of
        None \<Rightarrow> Inl (InvalidURL server)
      | Some base \<Rightarrow>
          (let base = base\<lparr>ul_Scheme := (if ul_Scheme base = ''https'' then ''wss'' else ''ws''),
                           ul_Path := ''/api/v1/sessions/'' @ PathEscape sid @ ''/terminal''\<rparr>
           in Inr (url_String base, [(''Authorization'', [''Bearer '' @ cc_Token (cl_Config c)])])))"

text \<open>
  The two goroutines of a connection and the \<open>select\<close> that waits for them, as the events
  of the input, the connection and the context in the order they take effect. A write that
  fails, the end of the connection and the end of the context end the connection; the end of
  the input only ends the first goroutine.
\<close>

datatype connect_event =
    Typed bytes "kerr option"          \<comment> \<open>a chunk of input, and what \<open>WriteMessage\<close> said\<close>
  | InputEnds
  | Received bool bytes "kerr option"  \<comment> \<open>a message, whether it has data, and what \<open>out.Write\<close> said\<close>
  | ConnectionEnds
  | ContextDone kerr

record connection =
  cn_typing :: bool
  cn_sent :: "bytes list"
  cn_printed :: "bytes list"

fun connect_loop :: "connect_event list \<Rightarrow> connection \<Rightarrow> kerr option option \<times> connection" where
  "connect_loop [] c = (None, c)"
| "connect_loop (Typed p r # es) c =
     (if \<not> cn_typing c \<or> p = [] then connect_loop es c
      else
        (case r of
           None \<Rightarrow> connect_loop es (c\<lparr>cn_sent := cn_sent c @ [p]\<rparr>)
         | Some err \<Rightarrow> (Some (Some err), c)))"
| "connect_loop (InputEnds # es) c = connect_loop es (c\<lparr>cn_typing := False\<rparr>)"
| "connect_loop (Received data p r # es) c =
     (if data then
        (case r of
           None \<Rightarrow> connect_loop es (c\<lparr>cn_printed := cn_printed c @ [p]\<rparr>)
         | Some err \<Rightarrow> (Some (Some err), c))
      else connect_loop es c)"
| "connect_loop (ConnectionEnds # es) c = (Some None, c)"
| "connect_loop (ContextDone err # es) c = (Some (Some err), c)"

definition connect_start :: connection where
  "connect_start = \<lparr>cn_typing = True, cn_sent = [], cn_printed = []\<rparr>"

text \<open>
  \<open>Client.Connect\<close>, over what dialling gives: an error, or a connection with all its events. The
  result is \<open>None\<close> while the connection is open; beside it is what was written to the output.
\<close>

definition client_Connect ::
    "(string \<times> header \<Rightarrow> 'w \<Rightarrow> (kerr + connect_event list) \<times> 'w)
      \<Rightarrow> 'w client \<Rightarrow> string \<Rightarrow> 'w \<Rightarrow> (client_error option option \<times> bytes list) \<times> 'w" where
  "client_Connect dial c sid w =
     (case connect_target c sid of
        Inl err \<Rightarrow> ((Some (Some err), []), w)
      | Inr target \<Rightarrow>
          (case dial target w of
             (Inl err, w) \<Rightarrow> ((Some (Some (TransportError err)), []), w)
           | (Inr events, w) \<Rightarrow>
               (case connect_loop events connect_start of
                  (res, cn) \<Rightarrow> ((map_option (map_option TransportError) res, cn_printed cn), w))))"

subsection \<open>What the client reads is what the server wrote\<close>

text \<open>The JSON of a \<open>SessionResponse\<close>, by the tags of its fields.\<close>

definition response_json :: "SessionResponse \<Rightarrow> json" where
  "response_json r =
     JObject
       ([(''id'', JString (sr_ID r)), (''phase'', JString (sr_Phase r))]
        @ omit_empty ''reason'' (sr_Reason r) @ omit_empty ''message'' (sr_Message r)
        @ [(''tool'', JString (sr_Tool r)), (''modelRef'', JString (sr_ModelRef r)),
           (''resourceProfile'', JString (sr_ResourceProfile r)),
           (''isolationProfile'', JString (sr_IsolationProfile r))]
        @ (if sr_TerminalReady r then [(''terminalReady'', JBool True)] else [])
        @ omit_empty ''createdAt'' (sr_CreatedAt r) @ omit_empty ''expiresAt'' (sr_ExpiresAt r)
        @ omit_empty ''terminalUrl'' (sr_TerminalURL r))"

definition session_of :: "SessionResponse \<Rightarrow> Session" where
  "session_of r =
     \<lparr>cs_ID = sr_ID r, cs_Phase = sr_Phase r, cs_Reason = sr_Reason r, cs_Message = sr_Message r,
      cs_Tool = sr_Tool r, cs_ModelRef = sr_ModelRef r, cs_ResourceProfile = sr_ResourceProfile r,
      cs_IsolationProfile = sr_IsolationProfile r, cs_TerminalReady = sr_TerminalReady r,
      cs_CreatedAt = sr_CreatedAt r, cs_ExpiresAt = sr_ExpiresAt r, cs_TerminalURL = sr_TerminalURL r\<rparr>"

definition field_names :: "string list" where
  "field_names = [''id'', ''phase'', ''reason'', ''message'', ''tool'', ''modelRef'', ''resourceProfile'',
     ''isolationProfile'', ''terminalReady'', ''createdAt'', ''expiresAt'', ''terminalUrl'']"

lemma field_names_distinct: "distinct (map (map lower) field_names) \<and> list_all no_special_rune field_names"
  by code_simp

lemma EqualFold_field: "x \<in> set field_names \<Longrightarrow> y \<in> set field_names \<Longrightarrow> EqualFold x y = (x = y)"
  using field_names_distinct by (auto simp: EqualFold_plain list_all_iff distinct_map dest: inj_onD)

lemma session_set_field:
  "set_struct session_setters [(''id'', JString x)] m = (m\<lparr>cs_ID := x\<rparr>, True)"
  "set_struct session_setters [(''phase'', JString x)] m = (m\<lparr>cs_Phase := x\<rparr>, True)"
  "set_struct session_setters [(''reason'', JString x)] m = (m\<lparr>cs_Reason := x\<rparr>, True)"
  "set_struct session_setters [(''message'', JString x)] m = (m\<lparr>cs_Message := x\<rparr>, True)"
  "set_struct session_setters [(''tool'', JString x)] m = (m\<lparr>cs_Tool := x\<rparr>, True)"
  "set_struct session_setters [(''modelRef'', JString x)] m = (m\<lparr>cs_ModelRef := x\<rparr>, True)"
  "set_struct session_setters [(''resourceProfile'', JString x)] m = (m\<lparr>cs_ResourceProfile := x\<rparr>, True)"
  "set_struct session_setters [(''isolationProfile'', JString x)] m = (m\<lparr>cs_IsolationProfile := x\<rparr>, True)"
  "set_struct session_setters [(''terminalReady'', JBool b)] m = (m\<lparr>cs_TerminalReady := b\<rparr>, True)"
  "set_struct session_setters [(''createdAt'', JString x)] m = (m\<lparr>cs_CreatedAt := x\<rparr>, True)"
  "set_struct session_setters [(''expiresAt'', JString x)] m = (m\<lparr>cs_ExpiresAt := x\<rparr>, True)"
  "set_struct session_setters [(''terminalUrl'', JString x)] m = (m\<lparr>cs_TerminalURL := x\<rparr>, True)"
  by (simp_all add: session_setters_def EqualFold_field field_names_def set_string_def set_bool_def)

lemma session_set_Cons:
  "set_struct session_setters (f # fs) m =
     (case set_struct session_setters [f] m of (m1, ok) \<Rightarrow>
        (case set_struct session_setters fs m1 of (m2, ok2) \<Rightarrow> (m2, ok \<and> ok2)))"
  using set_struct_append [of session_setters "[f]" fs m] by simp

lemma unmarshal_response: "unmarshal_Session (response_json r) = Some (session_of r)"
  unfolding unmarshal_Session_def unmarshal_struct_def response_json_def omit_empty_def
  by (simp add: set_struct_append session_set_Cons [of _ "_ # _"] session_set_field zero_session_def
      session_of_def del: set_struct.simps(2))

text \<open>
  The command-line client decodes every session the API server encodes to a session with the
  same twelve fields, the ones that were left out because they are empty included.
\<close>

theorem client_reads_response: "unmarshal_Session (response_json r) = Some (session_of r)"
  by (rule unmarshal_response)

subsection \<open>What the server reads is what the client asked for\<close>

text \<open>
  A document that was written by \<open>json.Marshal\<close> and decoded into \<open>any\<close>: a byte of a string that is
  not part of a character in UTF-8 arrives as the replacement character \<open>U+FFFD\<close>, and a number as a
  \<open>float64\<close>.
\<close>

fun valid_text :: "string \<Rightarrow> string" where
  "valid_text [] = []"
| "valid_text (c # cs) =
     (let n = rune_size (c # cs) in
      if n = 1 \<and> 128 \<le> code c then [CHR 0xEF, CHR 0xBF, CHR 0xBD] @ valid_text cs
      else c # take (n - 1) cs @ valid_text (drop (n - 1) cs))"

fun any_value :: "json \<Rightarrow> json" where
  "any_value (JInt n) = JFloat (float64 (of_int (sint n)))"
| "any_value (JString s) = JString (valid_text s)"
| "any_value v = v"

definition any_fields :: "json \<Rightarrow> jmap" where
  "any_fields doc = (case doc of JObject fs \<Rightarrow> map (\<lambda>(k, v). (k, any_value v)) fs | _ \<Rightarrow> [])"

text \<open>A text in UTF-8 arrives as it is.\<close>

fun valid_utf8 :: "string \<Rightarrow> bool" where
  "valid_utf8 [] = True"
| "valid_utf8 (c # cs) =
     (let n = rune_size (c # cs) in (n \<noteq> 1 \<or> code c < 128) \<and> valid_utf8 (drop (n - 1) cs))"

lemma valid_text_id: "valid_utf8 s \<Longrightarrow> valid_text s = s"
  by (induction s rule: valid_text.induct) (auto simp: Let_def)

lemma invalid_text_changes: "valid_text [CHR 0xFF] = [CHR 0xEF, CHR 0xBF, CHR 0xBD]"
  by code_simp

lemma int64_any_value: "\<bar>sint n\<bar> < 2 ^ 53 \<Longrightarrow> int64Value oor (any_value (JInt n)) = n"
proof -
  assume n: "\<bar>sint n\<bar> < 2 ^ 53"
  define k where "k = sint n"
  have "word_of_int k = n" by (simp add: k_def)
  moreover have "float64 (of_int k) = of_int k" using float64_int [of k] n by (simp add: k_def)
  moreover have "- (2 ^ 63) \<le> k" "k < 2 ^ 63" using n by (simp_all add: k_def)
  ultimately show "int64Value oor (any_value (JInt n)) = n"
    unfolding any_value.simps int64Value.simps k_def [symmetric] by (simp add: int64_of_float_def Cask_Json.truncate_def)
qed

text \<open>
  Claim C37. Take a request of the command-line client whose texts are valid UTF-8
  and whose time to live is below \<open>2 ^ 53\<close> seconds either way. The API server reads from it the same
  values, although numbers travel through floats, but for those the client leaves empty or zero,
  which the server replaces by its defaults; and the field check of the server does not reject
  any of its names.
\<close>

theorem server_reads_request:
  assumes "list_all valid_utf8 [cq_Tool q, cq_RepoURL q, cq_Branch q, cq_ModelRef q,
      cq_ResourceProfile q, cq_IsolationProfile q]"
    and "\<bar>sint (cq_TTLSeconds q)\<bar> < 2 ^ 53"
  shows "create_request s (any_fields (create_json q)) =
      \<lparr>cr_Tool = cq_Tool q, cr_RepoURL = cq_RepoURL q,
       cr_Branch = (if cq_Branch q = [] then ''main'' else cq_Branch q),
       cr_ModelRef = (if cq_ModelRef q = [] then ''default'' else cq_ModelRef q),
       cr_ResourceProfile = (if cq_ResourceProfile q = [] then ''small'' else cq_ResourceProfile q),
       cr_IsolationProfile = (if cq_IsolationProfile q = [] then ''default'' else cq_IsolationProfile q),
       cr_TTLSeconds = (if cq_TTLSeconds q = 0 then 7200 else cq_TTLSeconds q)\<rparr> \<and>
    list_all (\<lambda>k. k \<in> set allowedFields) (map fst (any_fields (create_json q)))"
proof
  have ttl: "int64Value (sv_oor s) (JFloat (float64 (of_int (sint (cq_TTLSeconds q))))) = cq_TTLSeconds q"
    using int64_any_value [OF assms(2), of "sv_oor s"] by simp
  have texts: "valid_text (cq_Tool q) = cq_Tool q" "valid_text (cq_RepoURL q) = cq_RepoURL q"
    "valid_text (cq_Branch q) = cq_Branch q" "valid_text (cq_ModelRef q) = cq_ModelRef q"
    "valid_text (cq_ResourceProfile q) = cq_ResourceProfile q"
    "valid_text (cq_IsolationProfile q) = cq_IsolationProfile q"
    using assms(1) by (simp_all add: valid_text_id)
  show "create_request s (any_fields (create_json q)) =
      \<lparr>cr_Tool = cq_Tool q, cr_RepoURL = cq_RepoURL q,
       cr_Branch = (if cq_Branch q = [] then ''main'' else cq_Branch q),
       cr_ModelRef = (if cq_ModelRef q = [] then ''default'' else cq_ModelRef q),
       cr_ResourceProfile = (if cq_ResourceProfile q = [] then ''small'' else cq_ResourceProfile q),
       cr_IsolationProfile = (if cq_IsolationProfile q = [] then ''default'' else cq_IsolationProfile q),
       cr_TTLSeconds = (if cq_TTLSeconds q = 0 then 7200 else cq_TTLSeconds q)\<rparr>"
    unfolding create_request_def any_fields_def create_json_def using ttl
    by (simp add: defaultString_def texts)
  show "list_all (\<lambda>k. k \<in> set allowedFields) (map fst (any_fields (create_json q)))"
    by (simp add: any_fields_def create_json_def allowedFields_def)
qed

definition example_create :: CreateRequest where
  "example_create = \<lparr>cq_Tool = ''opencode'', cq_RepoURL = [], cq_Branch = ''main'', cq_ModelRef = ''default'',
     cq_ResourceProfile = ''small'', cq_IsolationProfile = ''default'', cq_TTLSeconds = 7200\<rparr>"

theorem server_reads_request_witness:
  "cr_TTLSeconds (create_request (example_server None) (any_fields (create_json example_create))) = 7200"
proof -
  have "list_all valid_utf8 [cq_Tool example_create, cq_RepoURL example_create, cq_Branch example_create,
      cq_ModelRef example_create, cq_ResourceProfile example_create, cq_IsolationProfile example_create]"
    by code_simp
  from server_reads_request [OF this, of "example_server None"] show ?thesis by (simp add: example_create_def)
qed

subsection \<open>Where a terminal connection goes\<close>

lemma TrimRight_append:
  assumes "s \<noteq> []" "last s \<notin> set cs" "list_all (\<lambda>c. c \<in> set cs) t"
  shows "TrimRight (s @ t) cs = s"
proof -
  have "dropWhile (\<lambda>c. c \<in> set cs) (rev t @ rev s) = dropWhile (\<lambda>c. c \<in> set cs) (rev s)"
    using assms(3) by (intro dropWhile_append2) (simp add: list_all_iff)
  moreover have "hd (rev s) \<notin> set cs" using assms(1,2) by (simp add: hd_rev)
  ultimately show ?thesis using assms(1) by (cases "rev s") (simp_all add: TrimRight_def)
qed

definition websocket_scheme :: "string \<Rightarrow> string" where
  "websocket_scheme s = (if s = ''https'' then ''wss'' else ''ws'')"

text \<open>A URL as an administrator configures it: of a host and a port, with a path in front of the API or without one.\<close>

definition plain_server :: "string \<Rightarrow> string \<Rightarrow> string \<Rightarrow> bool" where
  "plain_server scheme h p \<longleftrightarrow>
     scheme \<in> {''http'', ''https''} \<and> plain_host h \<and> plain_path p \<and> (p = [] \<or> last p \<noteq> CHR ''/'')"

lemma server_trimmed:
  assumes "plain_server scheme h p" "list_all (\<lambda>c. c = CHR ''/'') slashes"
  shows "TrimRight (scheme @ ''://'' @ h @ p @ slashes) ''/'' = scheme @ ''://'' @ h @ p"
proof -
  let ?s = "scheme @ ''://'' @ h @ p"
  have h: "plain_host h" and p: "p = [] \<or> last p \<noteq> CHR ''/''" using assms(1) by (simp_all add: plain_server_def)
  have "last h \<noteq> CHR ''/''" using plain_host_chars(1) plain_host_authority(4) h last_in_set by metis
  then have "last ?s \<notin> set ''/''" using p plain_host_chars(1) [OF h] by (cases "p = []") simp_all
  then show ?thesis using assms(2) TrimRight_append [of ?s "''/''" slashes] by (simp add: list_all_iff)
qed

lemma connect_target_server:
  assumes "plain_server scheme h p" "list_all (\<lambda>c. c = CHR ''/'') slashes"
    and server: "cc_APIServer (cl_Config c) = scheme @ ''://'' @ h @ p @ slashes"
  shows "connect_target c sid =
    Inr (websocket_scheme scheme @ ''://'' @ h
           @ escape_with path_char (''/api/v1/sessions/'' @ PathEscape sid @ ''/terminal''),
         [(''Authorization'', [''Bearer '' @ cc_Token (cl_Config c)])])"
proof -
  let ?path = "''/api/v1/sessions/'' @ PathEscape sid @ ''/terminal''"
  have plain: "scheme \<in> {''http'', ''https''}" "plain_host h" "plain_path p"
    using assms(1) by (simp_all add: plain_server_def)
  note trim = server_trimmed [OF assms(1,2), folded server]
  let ?u = "empty_url\<lparr>ul_Scheme := websocket_scheme scheme, ul_Host := h, ul_Path := ?path\<rparr>"
  have "connect_target c sid = Inr (url_String ?u, [(''Authorization'', [''Bearer '' @ cc_Token (cl_Config c)])])"
    using plain_url_parsed [OF plain(1-3)]
    by (simp add: connect_target_def trim Let_def websocket_scheme_def empty_url_def)
  moreover have "url_String ?u = websocket_scheme scheme @ ''://'' @ h @ escape_with path_char ?path"
    using plain(2) by (intro plain_url_written) (simp_all add: websocket_scheme_def)
  ultimately show ?thesis by simp
qed

text \<open>
  Claim C25. For a server that is configured by \<open>http\<close> or \<open>https\<close>, a host and a port, with any
  number of final slashes, and an identifier as the server gives them, the client connects to the
  terminal of that session on that host, with \<open>ws\<close> or \<open>wss\<close> and its token; a path that the URL
  of the server has does not reach the connection, although the other calls of the client keep it.
\<close>

theorem connect_dials_terminal:
  assumes "plain_server scheme h p" "list_all (\<lambda>c. c = CHR ''/'') slashes"
    and "cc_APIServer (cl_Config c) = scheme @ ''://'' @ h @ p @ slashes" "route_name sid"
  shows "connect_target c sid =
      Inr (websocket_scheme scheme @ ''://'' @ h @ terminal_path sid,
           [(''Authorization'', [''Bearer '' @ cc_Token (cl_Config c)])]) \<and>
    client_url c (session_path sid) = scheme @ ''://'' @ h @ p @ session_path sid"
proof -
  have plain: "list_all plain_char sid" using assms(4) by (simp add: route_name_def)
  note escaped = PathEscape_plain [OF plain]
  have "list_all path_char (''/api/v1/sessions/'' @ sid @ ''/terminal'')"
  proof -
    have "list_all path_char ''/api/v1/sessions/'' \<and> list_all path_char ''/terminal''" by code_simp
    moreover have "list_all path_char sid" using plain by (auto simp: list_all_iff path_char_def plain_segment)
    ultimately show ?thesis by simp
  qed
  from plain_text_id(2) [OF this] connect_target_server [OF assms(1-3), of sid]
  show ?thesis using server_trimmed [OF assms(1,2)] by (simp add: escaped terminal_path_def client_url_def assms(3))
qed

definition example_client :: "unit client" where
  "example_client =
     \<lparr>cl_Config = \<lparr>cc_APIServer = ''https://cask.example:8443/team//'', cc_Token = ''t''\<rparr>,
      cl_Do = (\<lambda>_ w. (Inl (OtherError []), w)), cl_Marshal = (\<lambda>_. []), cl_Unmarshal = (\<lambda>_. None)\<rparr>"

theorem connect_dials_terminal_witness:
  "connect_target example_client ''sess-1'' =
    Inr (''wss://cask.example:8443/api/v1/sessions/sess-1/terminal'', [(''Authorization'', [''Bearer t''])])"
proof -
  have "plain_host ''cask.example:8443''"
    unfolding plain_host_def by (rule exI [of _ "''cask.example''"], rule exI [of _ "'':8443''"]) code_simp
  moreover have "plain_path ''/team''" "route_name ''sess-1''" by code_simp+
  ultimately show ?thesis
    using connect_dials_terminal [of "''https''" "''cask.example:8443''" "''/team''" "''//''" example_client "''sess-1''"]
    by (simp add: plain_server_def example_client_def websocket_scheme_def terminal_path_def)
qed

subsection \<open>Limits\<close>

text \<open>
  The path of a terminal connection is escaped twice, unlike that of the other calls. A server that is
  given by host and port alone parses, its host being taken for the scheme, and the host is lost.
\<close>

lemma connect_limits:
  "\<exists>h. connect_target example_client ''a b'' = Inr (''wss://cask.example:8443/api/v1/sessions/a%2520b/terminal'', h)"
  "session_path ''a b'' = ''/api/v1/sessions/a%20b''"
  "\<exists>h. connect_target (example_client\<lparr>cl_Config := \<lparr>cc_APIServer = ''localhost:8080'', cc_Token = ''t''\<rparr>\<rparr>) ''a''
    = Inr (''ws:8080'', h)"
proof -
  have "map_sum id fst (connect_target example_client ''a b'')
      = Inr ''wss://cask.example:8443/api/v1/sessions/a%2520b/terminal''"
    "map_sum id fst (connect_target (example_client\<lparr>cl_Config := \<lparr>cc_APIServer = ''localhost:8080'',
       cc_Token = ''t''\<rparr>\<rparr>) ''a'') = Inr ''ws:8080''"
    by code_simp+
  then show
    "\<exists>h. connect_target example_client ''a b'' = Inr (''wss://cask.example:8443/api/v1/sessions/a%2520b/terminal'', h)"
    "\<exists>h. connect_target (example_client\<lparr>cl_Config := \<lparr>cc_APIServer = ''localhost:8080'', cc_Token = ''t''\<rparr>\<rparr>) ''a''
      = Inr (''ws:8080'', h)"
    by (auto simp: map_sum_def elim: sum.map_cong split: sum.splits)
qed code_simp

end
