(* ===== verification/Cask_Cli.thy ===== *)
theory Cask_Cli
  imports Cask_Client Cask_Table
begin

text \<open>
  \<open>internal/cli/run.go\<close>: the commands of \<open>caskctl\<close>. A command gives its exit code and
  what it prints, and the world after it; the code is \<open>None\<close> while a terminal connection is
  still open.
\<close>

datatype printed =
    Out string                \<comment> \<open>on standard output\<close>
  | Err string                \<comment> \<open>on standard error\<close>
  | ErrClient client_error    \<comment> \<open>an error of the client, and a newline\<close>
  | ErrOutput kerr            \<comment> \<open>an error of the standard output, and a newline\<close>
  | FlagMessage               \<comment> \<open>what the \<open>flag\<close> package prints for wrong arguments\<close>

type_synonym 'w outcome = "(int option \<times> printed list) \<times> 'w"

text \<open>
  The local terminal: whether the standard input is one, switching it to raw mode, which gives the
  state it had, and setting it to such a state again. \<open>golang.org/x/term\<close> does that.
\<close>

record 'w tty =
  tt_IsTerminal :: "'w \<Rightarrow> bool"
  tt_MakeRaw :: "'w \<Rightarrow> (kerr + string) \<times> 'w"
  tt_Restore :: "string \<Rightarrow> 'w \<Rightarrow> 'w"

text \<open>
  The system a command runs in: the environment, the files, the HTTP transport and the JSON
  of \<open>'w client\<close>, the clock at its \<open>i\<close>-th look, the standard output, which takes a text or fails
  after a part of it, the terminal, and the dialling of a terminal connection with all its events.
\<close>

record 'w system =
  sy_Env :: "string \<Rightarrow> string"
  sy_Files :: "string \<Rightarrow> string option"
  sy_Do :: "http_call \<Rightarrow> 'w \<Rightarrow> (kerr + int \<times> (kerr + string)) \<times> 'w"
  sy_Marshal :: "json \<Rightarrow> string"
  sy_Unmarshal :: "string \<Rightarrow> json option"
  sy_Clock :: "'w \<Rightarrow> nat \<Rightarrow> gtime"
  sy_Stdout :: "string \<Rightarrow> 'w \<Rightarrow> (nat \<times> kerr) option"
  sy_Tty :: "'w tty"
  sy_Dial :: "string \<times> header \<Rightarrow> 'w \<Rightarrow> (kerr + connect_event list) \<times> 'w"

definition system_client :: "'w system \<Rightarrow> 'w client" where
  "system_client sys =
     \<lparr>cl_Config = LoadConfig (sy_Env sys) (sy_Files sys) [], cl_Do = sy_Do sys,
      cl_Marshal = sy_Marshal sys, cl_Unmarshal = sy_Unmarshal sys\<rparr>"

definition newline :: string where "newline = [CHR 0x0A]"
definition tab :: string where "tab = [CHR 0x09]"

definition usage_text :: string where
  "usage_text = ''Usage: caskctl session <create|list|get|connect|delete>'' @ newline"

definition exit_with :: "int \<Rightarrow> printed list \<Rightarrow> 'w \<Rightarrow> 'w outcome" where
  "exit_with n ps w = ((Some n, ps), w)"

subsection \<open>Creating and listing\<close>

definition create_flags :: "(string \<times> flag_value) list" where
  "create_flags =
     [(''tool'', StringFlag ''opencode''), (''repo'', StringFlag []), (''branch'', StringFlag ''main''),
      (''model'', StringFlag ''default''), (''resource'', StringFlag ''small''),
      (''isolation'', StringFlag ''default''), (''ttl'', DurationFlag (2 * Hour)), (''o'', StringFlag [])]"

text \<open>\<open>int64(ttl.Seconds())\<close>, which always fits.\<close>

definition ttl_seconds :: "duration \<Rightarrow> int64" where
  "ttl_seconds d = word_of_int (Cask_Json.truncate (float_units Second d))"

definition request_of_flags :: "(string \<times> flag_value) list \<Rightarrow> CreateRequest" where
  "request_of_flags fs =
     \<lparr>cq_Tool = flag_string fs ''tool'', cq_RepoURL = flag_string fs ''repo'',
      cq_Branch = flag_string fs ''branch'', cq_ModelRef = flag_string fs ''model'',
      cq_ResourceProfile = flag_string fs ''resource'',
      cq_IsolationProfile = flag_string fs ''isolation'',
      cq_TTLSeconds = ttl_seconds (flag_duration fs ''ttl'')\<rparr>"

definition runCreate :: "'w client \<Rightarrow> string list \<Rightarrow> 'w \<Rightarrow> 'w outcome" where
  "runCreate c args w =
     (case flag_Parse create_flags args of
        Inl _ \<Rightarrow> exit_with 2 [FlagMessage] w
      | Inr (fs, _) \<Rightarrow>
          (case client_Create c (request_of_flags fs) w of
             (Inl err, w) \<Rightarrow> exit_with 1 [ErrClient err] w
           | (Inr (session, raw), w) \<Rightarrow>
               (if flag_string fs ''o'' = ''json'' then exit_with 0 [Out raw] w
                else exit_with 0
                  [Out (''ID: '' @ cs_ID session @ newline @ ''Phase: '' @ cs_Phase session @ newline)] w)))"

text \<open>\<open>age\<close> at the time \<open>now\<close>\<close>

definition age :: "gtime \<Rightarrow> string \<Rightarrow> string" where
  "age now createdAt =
     (if createdAt = [] then ''-''
      else
        (case ParseRFC3339 createdAt of
           None \<Rightarrow> ''-''
         | Some created \<Rightarrow>
             (let d = Round (Sub now created) Second in
              if sint d < sint Minute then FormatInt (Cask_Json.truncate (float_units Second d)) @ ''s''
              else if sint d < sint Hour then FormatInt (Cask_Json.truncate (float_units Minute d)) @ ''m''
              else FormatInt (Cask_Json.truncate (float_units Hour d)) @ ''h'')))"

definition list_header :: "string list" where
  "list_header = [''ID'', ''TOOL'', ''PHASE'', ''ISOLATION'', ''AGE'']"

definition list_row :: "gtime \<Rightarrow> Session \<Rightarrow> string list" where
  "list_row now item =
     [cs_ID item, cs_Tool item, cs_Phase item, cs_IsolationProfile item, age now (cs_CreatedAt item)]"

text \<open>The clock is read once for each row.\<close>

definition list_rows :: "(nat \<Rightarrow> gtime) \<Rightarrow> Session list \<Rightarrow> string list list" where
  "list_rows clock items = list_header # map (\<lambda>(i, item). list_row (clock i) item) (enumerate 0 items)"

text \<open>
  Only for the table does the command look at an error of the standard output. The table is written at
  the end, unless a text that the server sent has a line end in it.
\<close>

definition runList :: "'w system \<Rightarrow> 'w client \<Rightarrow> string list \<Rightarrow> 'w \<Rightarrow> 'w outcome" where
  "runList sys c args w =
     (case flag_Parse [(''o'', StringFlag [])] args of
        Inl _ \<Rightarrow> exit_with 2 [FlagMessage] w
      | Inr (fs, _) \<Rightarrow>
          (case client_List c w of
             (Inl err, w) \<Rightarrow> exit_with 1 [ErrClient err] w
           | (Inr (items, raw), w) \<Rightarrow>
               (if flag_string fs ''o'' = ''json'' then exit_with 0 [Out raw] w
                else
                  (let table = tabulate (concat (map tab_row (list_rows (sy_Clock sys w) items))) in
                   case sy_Stdout sys table w of
                     Some (n, err) \<Rightarrow> exit_with 1 [Out (take n table), ErrOutput err] w
                   | None \<Rightarrow> exit_with 0 [Out table] w))))"

subsection \<open>Reading and deleting\<close>

text \<open>\<open>parseGetArgs\<close>: the output format and the other arguments; \<open>None\<close> is its error.\<close>

fun parse_get_loop :: "string \<Rightarrow> string list \<Rightarrow> string list \<Rightarrow> (string \<times> string list) option" where
  "parse_get_loop out pos [] = Some (out, pos)"
| "parse_get_loop out pos (arg # args) =
     (if arg = ''-o'' then
        (case args of [] \<Rightarrow> None | v # rest \<Rightarrow> parse_get_loop v pos rest)
      else if HasPrefix arg ''-o='' then parse_get_loop (TrimPrefix arg ''-o='') pos args
      else parse_get_loop out (pos @ [arg]) args)"

definition parseGetArgs :: "string list \<Rightarrow> (string \<times> string list) option" where
  "parseGetArgs args = parse_get_loop [] [] args"

definition bool_text :: "bool \<Rightarrow> string" where
  "bool_text b = (if b then ''true'' else ''false'')"

definition get_text :: "Session \<Rightarrow> string" where
  "get_text s =
     ''ID: '' @ cs_ID s @ newline @ ''Phase: '' @ cs_Phase s @ newline @ ''Tool: '' @ cs_Tool s @ newline
       @ ''Isolation: '' @ cs_IsolationProfile s @ newline
       @ ''TerminalReady: '' @ bool_text (cs_TerminalReady s) @ newline"

definition id_required :: printed where
  "id_required = Err (''session id required'' @ newline)"

definition runGet :: "'w client \<Rightarrow> string list \<Rightarrow> 'w \<Rightarrow> 'w outcome" where
  "runGet c args w =
     (case parseGetArgs args of
        None \<Rightarrow> exit_with 2 [Err (''-o requires a value'' @ newline)] w
      | Some (out, positional) \<Rightarrow>
          (if length positional \<noteq> 1 then exit_with 2 [id_required] w
           else
             (case client_Get c (hd positional) w of
                (Inl err, w) \<Rightarrow> exit_with 1 [ErrClient err] w
              | (Inr (session, raw), w) \<Rightarrow>
                  (if out = ''json'' then exit_with 0 [Out raw] w
                   else exit_with 0 [Out (get_text session)] w))))"

definition runDelete :: "'w client \<Rightarrow> string list \<Rightarrow> 'w \<Rightarrow> 'w outcome" where
  "runDelete c args w =
     (case flag_Parse [] args of
        Inl _ \<Rightarrow> exit_with 2 [FlagMessage] w
      | Inr (_, rest) \<Rightarrow>
          (if length rest \<noteq> 1 then exit_with 2 [id_required] w
           else
             (case client_Delete c (hd rest) w of
                (Inl err, w) \<Rightarrow> exit_with 1 [ErrClient err] w
              | (Inr _, w) \<Rightarrow> exit_with 0 [Out (''deleted: '' @ hd rest @ newline)] w)))"

subsection \<open>Connecting\<close>

text \<open>
  Whether the text of an error contains \<open>normal\<close>; that of \<open>InvalidURL\<close> does so exactly
  when the URL it quotes does.
\<close>

fun normal_error :: "client_error \<Rightarrow> bool" where
  "normal_error (InvalidURL url) = Contains url ''normal''"
| "normal_error (TransportError err) = Contains (err_text err) ''normal''"
| "normal_error InvalidJSON = False"
| "normal_error (ApiError text) = Contains text ''normal''"

definition connect_exit :: "client_error option \<Rightarrow> int \<times> printed list" where
  "connect_exit err =
     (case err of
        Some e \<Rightarrow> (if normal_error e then (0, []) else (1, [ErrClient e]))
      | None \<Rightarrow> (0, []))"

text \<open>Raw mode, and the deferred way back: the state to restore is there only when both steps went well.\<close>

definition enter_raw :: "'w tty \<Rightarrow> 'w \<Rightarrow> string option \<times> 'w" where
  "enter_raw t w =
     (if tt_IsTerminal t w then
        (case tt_MakeRaw t w of
           (Inl _, w) \<Rightarrow> (None, w)
         | (Inr state, w) \<Rightarrow> (Some state, w))
      else (None, w))"

definition leave_raw :: "'w tty \<Rightarrow> string option \<Rightarrow> 'w \<Rightarrow> 'w" where
  "leave_raw t oldState w = (case oldState of None \<Rightarrow> w | Some state \<Rightarrow> tt_Restore t state w)"

definition runConnect :: "'w system \<Rightarrow> 'w client \<Rightarrow> string list \<Rightarrow> 'w \<Rightarrow> 'w outcome" where
  "runConnect sys c args w =
     (case flag_Parse [] args of
        Inl _ \<Rightarrow> exit_with 2 [FlagMessage] w
      | Inr (_, rest) \<Rightarrow>
          (if length rest \<noteq> 1 then exit_with 2 [id_required] w
           else
             (case enter_raw (sy_Tty sys) w of
                (oldState, w) \<Rightarrow>
                  (case client_Connect (sy_Dial sys) c (hd rest) w of
                     ((None, out), w) \<Rightarrow> ((None, map Out out), w)
                   | ((Some err, out), w) \<Rightarrow>
                       (case connect_exit err of
                          (n, ps) \<Rightarrow> exit_with n (map Out out @ ps) (leave_raw (sy_Tty sys) oldState w))))))"

subsection \<open>The command line\<close>

definition Run_cli :: "'w system \<Rightarrow> string list \<Rightarrow> 'w \<Rightarrow> 'w outcome" where
  "Run_cli sys args w =
     (if args = [] \<or> hd args = ''--help'' \<or> hd args = ''-h'' then exit_with 0 [Out usage_text] w
      else if hd args \<noteq> ''session'' \<or> length args < 2
      then exit_with 2 [Err (''expected session command'' @ newline), Err usage_text] w
      else
        (let c = system_client sys; cmd = args ! 1; rest = drop 2 args
         in if cmd = ''create'' then runCreate c rest w
            else if cmd = ''list'' then runList sys c rest w
            else if cmd = ''get'' then runGet c rest w
            else if cmd = ''delete'' then runDelete c rest w
            else if cmd = ''connect'' then runConnect sys c rest w
            else exit_with 2 [Err (''unknown session command '' @ Quote cmd @ newline)] w))"

lemmas command_defs = runCreate_def runList_def runGet_def runDelete_def runConnect_def

subsection \<open>Properties of the commands\<close>

lemma exit_code_range: "connect_exit err = (n, ps) \<Longrightarrow> n = 0 \<or> n = 1"
  by (auto simp: connect_exit_def split: option.splits if_splits)

definition silent :: "printed list \<Rightarrow> bool" where
  "silent ps = list_all (\<lambda>p. case p of Out _ \<Rightarrow> False | _ \<Rightarrow> True) ps"

text \<open>What every outcome of a command at \<open>w\<close> satisfies.\<close>

definition proper_exit :: "'w \<Rightarrow> 'w outcome \<Rightarrow> bool" where
  "proper_exit w res =
     (case res of ((n, ps), w') \<Rightarrow>
        n \<in> {None, Some 0, Some 1, Some 2} \<and> (n = Some 2 \<longrightarrow> w' = w \<and> silent ps))"

lemma proper_exit_simps [simp]:
  "proper_exit w (exit_with 0 ps w')" "proper_exit w (exit_with 1 ps w')"
  "proper_exit w (exit_with 2 ps w) = silent ps" "proper_exit w ((None, ps), w')"
  by (simp_all add: proper_exit_def exit_with_def)

lemma proper_connect_exit: "proper_exit w (case connect_exit err of (n, ps) \<Rightarrow> exit_with n (f ps) w')"
  using exit_code_range by (cases "connect_exit err") force

lemma silent_simps [simp]:
  "silent []" "silent (Err s # ps) = silent ps" "silent (ErrClient e # ps) = silent ps"
  "silent (FlagMessage # ps) = silent ps"
  by (simp_all add: silent_def)

lemma commands_proper:
  "proper_exit w (runCreate c args w)" "proper_exit w (runList sys c args w)"
  "proper_exit w (runGet c args w)" "proper_exit w (runDelete c args w)"
  "proper_exit w (runConnect sys c args w)"
  by (auto simp: command_defs id_required_def proper_connect_exit Let_def split: sum.split prod.split option.split)

text \<open>
  Claim C40. Whatever the arguments, a command ends with the code 0, 1 or 2, unless a terminal
  connection is still open; and with the code 2, which is for wrong arguments, it has made no
  call, so the world is as it was, and has printed nothing on the standard output.
\<close>

theorem usage_errors_do_nothing:
  assumes "Run_cli sys args w = ((n, ps), w')"
  shows "n \<in> {None, Some 0, Some 1, Some 2} \<and> (n = Some 2 \<longrightarrow> w' = w \<and> silent ps)"
proof -
  have "proper_exit w (Run_cli sys args w)"
    by (simp add: Run_cli_def Let_def commands_proper)
  with assms show ?thesis by (simp add: proper_exit_def)
qed

definition offline :: "unit system" where
  "offline =
     \<lparr>sy_Env = (\<lambda>_. []), sy_Files = (\<lambda>_. None),
      sy_Do = (\<lambda>_ w. (Inl (OtherError ''connection refused''), w)),
      sy_Marshal = (\<lambda>_. []), sy_Unmarshal = (\<lambda>_. None), sy_Clock = (\<lambda>_ _. UnixTime 0),
      sy_Stdout = (\<lambda>_ _. None),
      sy_Tty = \<lparr>tt_IsTerminal = (\<lambda>_. False), tt_MakeRaw = (\<lambda>w. (Inl (OtherError []), w)), tt_Restore = (\<lambda>_ w. w)\<rparr>,
      sy_Dial = (\<lambda>_ w. (Inl (OtherError ''connection refused''), w))\<rparr>"

theorem usage_errors_do_nothing_witness:
  "\<exists>ps. Run_cli offline [''session'', ''get'', ''-o''] () = ((Some 2, ps), ()) \<and> silent ps"
proof -
  have "Run_cli offline [''session'', ''get'', ''-o''] () =
      ((Some 2, [Err (''-o requires a value'' @ newline)]), ())"
    by (simp add: Run_cli_def runGet_def parseGetArgs_def exit_with_def Let_def)
  from this usage_errors_do_nothing [OF this] show ?thesis by blast
qed

subsection \<open>The calls of a command\<close>

text \<open>The same system with a log of the HTTP calls.\<close>

definition logged_system :: "'w system \<Rightarrow> ('w \<times> http_call list) system" where
  "logged_system sys =
     \<lparr>sy_Env = sy_Env sys, sy_Files = sy_Files sys,
      sy_Do = (\<lambda>call (w, log). case sy_Do sys call w of (r, w') \<Rightarrow> (r, (w', log @ [call]))),
      sy_Marshal = sy_Marshal sys, sy_Unmarshal = sy_Unmarshal sys,
      sy_Clock = (\<lambda>(w, log). sy_Clock sys w), sy_Stdout = (\<lambda>s (w, log). sy_Stdout sys s w),
      sy_Tty = \<lparr>tt_IsTerminal = (\<lambda>(w, log). tt_IsTerminal (sy_Tty sys) w),
        tt_MakeRaw = (\<lambda>(w, log). case tt_MakeRaw (sy_Tty sys) w of (r, w') \<Rightarrow> (r, (w', log))),
        tt_Restore = (\<lambda>state (w, log). (tt_Restore (sy_Tty sys) state w, log))\<rparr>,
      sy_Dial = (\<lambda>target (w, log). case sy_Dial sys target w of (r, w') \<Rightarrow> (r, (w', log)))\<rparr>"

definition proper_call :: "'w system \<Rightarrow> http_call \<Rightarrow> bool" where
  "proper_call sys call \<longleftrightarrow>
     (let cfg = LoadConfig (sy_Env sys) (sy_Files sys) [] in
      hdr_Get (hc_Header call) ''Authorization'' = ''Bearer '' @ cc_Token cfg \<and>
      prefix (TrimRight (cc_APIServer cfg) ''/'' @ ''/api/v1/sessions'') (hc_URL call) \<and>
      hc_Method call \<in> {''GET'', ''POST'', ''DELETE''})"

definition one_call :: "'w system \<Rightarrow> 'w \<times> http_call list \<Rightarrow> 'w \<times> http_call list \<Rightarrow> bool" where
  "one_call sys u u' \<longleftrightarrow>
     snd u' = snd u \<or> (\<exists>call. snd u' = snd u @ [call] \<and> proper_call sys call)"

lemma one_call_refl [simp]: "one_call sys u u"
  by (simp add: one_call_def)

lemma client_header_token:
  "hdr_Get (client_header c payload) ''Authorization'' = ''Bearer '' @ cc_Token (cl_Config c)"
proof -
  have "CanonicalHeaderKey ''Content-Type'' = ''Content-Type''" by code_simp
  then show ?thesis
    by (simp add: client_header_def Let_def hdr_Get_def hdr_values_def hdr_Set_def hdr_Del_def canonical_names)
qed

lemma client_do_one_call:
  assumes "method \<in> {''GET'', ''POST'', ''DELETE''}" "prefix ''/api/v1/sessions'' path"
  shows "one_call sys u (snd (client_do (system_client (logged_system sys)) method path payload u))"
proof -
  let ?c = "system_client (logged_system sys)"
  let ?call = "\<lparr>hc_Method = method, hc_URL = client_url ?c path, hc_Header = client_header ?c payload,
    hc_Body = map_option (cl_Marshal ?c) payload\<rparr>"
  have "proper_call sys ?call"
    using assms by (auto simp: proper_call_def client_header_token client_url_def system_client_def
        logged_system_def Let_def)
  moreover obtain w log where u: "u = (w, log)" by (cases u)
  ultimately show ?thesis
    by (auto simp: client_do_def one_call_def Let_def u system_client_def logged_system_def
        split: prod.split sum.split)
qed

lemma session_paths: "prefix ''/api/v1/sessions'' sessions_path" "prefix ''/api/v1/sessions'' (session_path sid)"
  by (simp_all add: sessions_path_def session_path_def)

lemma snd_doSession: "snd (doSession c method path payload u) = snd (client_do c method path payload u)"
  by (simp add: doSession_def split: prod.split sum.split option.split)

lemma snd_client_List: "snd (client_List c u) = snd (client_do c ''GET'' sessions_path None u)"
  by (simp add: client_List_def split: prod.split sum.split option.split)

lemma client_calls:
  "one_call sys u (snd (client_Create (system_client (logged_system sys)) q u))"
  "one_call sys u (snd (client_List (system_client (logged_system sys)) u))"
  "one_call sys u (snd (client_Get (system_client (logged_system sys)) sid u))"
  "one_call sys u (snd (client_Delete (system_client (logged_system sys)) sid u))"
  by (simp_all add: client_Create_def client_Get_def client_Delete_def snd_doSession snd_client_List
      client_do_one_call session_paths)

text \<open>The world after a command is the one its call left.\<close>

lemma snd_exit_with [simp]: "snd (exit_with n ps u) = u"
  by (simp add: exit_with_def)

lemma snd_commands:
  "snd (runCreate c args u) = u \<or> (\<exists>q. snd (runCreate c args u) = snd (client_Create c q u))"
  "snd (runList sys c args u) = u \<or> snd (runList sys c args u) = snd (client_List c u)"
  "snd (runGet c args u) = u \<or> (\<exists>sid. snd (runGet c args u) = snd (client_Get c sid u))"
  "snd (runDelete c args u) = u \<or> (\<exists>sid. snd (runDelete c args u) = snd (client_Delete c sid u))"
  by (auto simp: runCreate_def runList_def runGet_def runDelete_def Let_def split: sum.split prod.split option.split)
    (metis snd_conv)+

lemma logged_terminal:
  "snd (snd (sy_Dial (logged_system sys) target u)) = snd u"
  "snd (snd (enter_raw (sy_Tty (logged_system sys)) u)) = snd u"
  "snd (leave_raw (sy_Tty (logged_system sys)) oldState u) = snd u"
  by (cases u; simp add: logged_system_def enter_raw_def leave_raw_def split: prod.split sum.split option.split)+

lemma snd_client_Connect:
  "snd (client_Connect dial c sid u) = u \<or> (\<exists>target. snd (client_Connect dial c sid u) = snd (dial target u))"
  by (auto simp: client_Connect_def split: sum.split prod.split) (metis snd_conv)+

lemma connect_calls: "snd (snd (runConnect (logged_system sys) c args u)) = snd u"
proof -
  let ?s = "logged_system sys"
  have call: "snd (snd (client_Connect (sy_Dial ?s) c sid v)) = snd v" for sid v
    using snd_client_Connect [of "sy_Dial ?s" c sid v] logged_terminal(1) by metis
  have "snd v = snd u" if "enter_raw (sy_Tty ?s) u = (old, v)" for old v
    using logged_terminal(2) [of sys u] that by simp
  moreover have "snd x = snd v" if "client_Connect (sy_Dial ?s) c sid v = (r, x)" for sid v r x
    using call [of sid v] that by simp
  ultimately show ?thesis
    by (auto simp: runConnect_def logged_terminal(3) split: sum.split prod.split option.split)
qed

text \<open>
  Claim C34. Whatever the arguments, a command makes at most one HTTP call (its terminal connection is not
  one): a GET, POST or DELETE of the API's session routes on the configured server, with the
  configured token as its bearer token.
\<close>

theorem command_calls:
  "one_call sys (w, []) (snd (Run_cli (logged_system sys) args (w, [])))"
proof -
  let ?c = "system_client (logged_system sys)" and ?u = "(w, [])"
  have "one_call sys ?u (snd (runCreate ?c rest ?u))" for rest
    using snd_commands(1) [of ?c rest ?u] client_calls(1) by auto
  moreover have "one_call sys ?u (snd (runList (logged_system sys) ?c rest ?u))" for rest
    using snd_commands(2) [of "logged_system sys" ?c rest ?u] client_calls(2) by auto
  moreover have "one_call sys ?u (snd (runGet ?c rest ?u))" for rest
    using snd_commands(3) [of ?c rest ?u] client_calls(3) by auto
  moreover have "one_call sys ?u (snd (runDelete ?c rest ?u))" for rest
    using snd_commands(4) [of ?c rest ?u] client_calls(4) by auto
  moreover have "one_call sys ?u (snd (runConnect (logged_system sys) ?c rest ?u))" for rest
    by (simp add: one_call_def connect_calls)
  ultimately show ?thesis by (simp add: Run_cli_def Let_def)
qed

subsection \<open>The local terminal\<close>

lemma snd_client_do:
  "snd (client_do c method path payload u) = u \<or> (\<exists>call. snd (client_do c method path payload u) = snd (cl_Do c call u))"
  by (auto simp: client_do_def Let_def split: prod.split sum.split) (metis snd_conv)+

lemma command_keeps:
  assumes "\<And>call w. mode (snd (cl_Do c call w)) = mode w"
  shows "mode (snd (runCreate c args u)) = mode u" "mode (snd (runList sys c args u)) = mode u"
    "mode (snd (runGet c args u)) = mode u" "mode (snd (runDelete c args u)) = mode u"
proof -
  have "mode (snd (client_do c m p q u)) = mode u" for m p q
    using snd_client_do [of c m p q u] assms by metis
  then have "mode (snd (client_Create c q u)) = mode u" "mode (snd (client_List c u)) = mode u"
    "mode (snd (client_Get c sid u)) = mode u" "mode (snd (client_Delete c sid u)) = mode u" for q sid
    by (simp_all add: client_Create_def client_Get_def client_Delete_def snd_doSession snd_client_List)
  with snd_commands show "mode (snd (runCreate c args u)) = mode u" "mode (snd (runList sys c args u)) = mode u"
    "mode (snd (runGet c args u)) = mode u" "mode (snd (runDelete c args u)) = mode u"
    by metis+
qed

text \<open>
  Claim C35. A command that ends leaves the local terminal in the mode it found, however it ends: if
  raw mode could be entered, the mode of before is set again after the connection, failed or not.
  This needs of the terminal that \<open>MakeRaw\<close> gives the mode it replaces and changes nothing when it
  fails, and that \<open>Restore\<close> sets the mode it is given; and that nothing else changes it.
\<close>

theorem terminal_restored:
  fixes mode :: "'w \<Rightarrow> string"
  assumes "\<And>w err w'. tt_MakeRaw (sy_Tty sys) w = (Inl err, w') \<Longrightarrow> mode w' = mode w"
    and "\<And>w state w'. tt_MakeRaw (sy_Tty sys) w = (Inr state, w') \<Longrightarrow> state = mode w"
    and "\<And>state w. mode (tt_Restore (sy_Tty sys) state w) = state"
    and "\<And>call w. mode (snd (sy_Do sys call w)) = mode w"
    and "\<And>target w. mode (snd (sy_Dial sys target w)) = mode w"
    and run: "Run_cli sys args w = ((Some n, ps), w')"
  shows "mode w' = mode w"
proof -
  let ?c = "system_client sys" and ?t = "sy_Tty sys"
  have connected: "mode (snd (client_Connect (sy_Dial sys) c sid v)) = mode v" for c sid v
    using snd_client_Connect [of "sy_Dial sys" c sid v] assms(5) by metis
  have left: "mode (leave_raw ?t oldState x) = mode v"
    if "enter_raw ?t v = (oldState, v')" "mode x = mode v'" for oldState v v' x
    using that assms(1-3) by (auto simp: enter_raw_def leave_raw_def split: if_splits prod.splits sum.splits)
  have connect: "mode x = mode w" if "runConnect sys ?c rest w = ((Some n, ps), x)" for rest x
  proof -
    obtain oldState v where enter: "enter_raw ?t w = (oldState, v)" by fastforce
    obtain res out y where conn: "client_Connect (sy_Dial sys) ?c (hd (snd (projr (flag_Parse [] rest)))) v = ((res, out), y)"
      by (metis prod.exhaust)
    then have "mode (leave_raw ?t oldState y) = mode w" using left [OF enter] connected by (metis snd_conv)
    with that enter conn show ?thesis
      by (auto simp: runConnect_def exit_with_def split: sum.splits prod.splits if_splits option.splits)
  qed
  have "mode (snd (cl_Do ?c call v)) = mode v" for call v using assms(4) by (simp add: system_client_def)
  from command_keeps [of mode ?c, OF this] run connect show ?thesis
    by (auto simp: Run_cli_def Let_def exit_with_def split: if_splits) (metis snd_conv)+
qed

text \<open>A terminal that keeps its modes, the latest first, and a connection that is dropped.\<close>

definition recording_system :: "string list system" where
  "recording_system =
     \<lparr>sy_Env = (\<lambda>_. []), sy_Files = (\<lambda>_. None), sy_Do = (\<lambda>_ w. (Inl (OtherError ''connection refused''), w)),
      sy_Marshal = (\<lambda>_. []), sy_Unmarshal = (\<lambda>_. None), sy_Clock = (\<lambda>_ _. UnixTime 0),
      sy_Stdout = (\<lambda>_ _. None),
      sy_Tty = \<lparr>tt_IsTerminal = (\<lambda>_. True), tt_MakeRaw = (\<lambda>w. (Inr (hd w), ''raw'' # w)),
        tt_Restore = (\<lambda>state w. state # w)\<rparr>,
      sy_Dial = (\<lambda>_ w. (Inr [Received True ''$ '' None, ConnectionEnds], w))\<rparr>"

lemma dropped_connection:
  "Run_cli recording_system [''session'', ''connect'', ''a''] [''cooked''] =
    ((Some 0, [Out ''$ '']), [''cooked'', ''raw'', ''cooked''])"
  by code_simp

text \<open>An error whose text has the word \<open>normal\<close> in it, wherever it comes from, is taken for a normal end.\<close>

lemma normal_hides_error:
  "connect_exit (Some (TransportError (OtherError ''lookup normal.example: no such host''))) = (0, [])"
  by code_simp

theorem terminal_restored_witness:
  "hd [''cooked'', ''raw'', ''cooked''] = hd [''cooked'']"
  by (rule terminal_restored [of recording_system hd, OF _ _ _ _ _ dropped_connection])
    (simp_all add: recording_system_def)

subsection \<open>The table\<close>

lemma plain_cell_append [simp]: "plain_cell (s @ t) \<longleftrightarrow> plain_cell s \<and> plain_cell t"
  by (simp add: plain_cell_def)

lemma plain_cell_FormatInt: "plain_cell (FormatInt n)"
proof -
  have digit: "plain_cell [c]" if "is_digit c" for c
    using that by (auto simp: plain_cell_def is_digit_def ends_cell_def ends_line_def escapes_def)
  have "plain_cell (FormatUint m)" if "0 \<le> m" for m
    using FormatUint_digits [OF that] digit by (auto simp: plain_cell_def list_all_iff)
  moreover have "plain_cell ''-''" by code_simp
  ultimately show ?thesis
    using plain_cell_append [of "''-''" "FormatUint (- n)"] by (simp add: FormatInt_def del: plain_cell_append)
qed

lemma plain_cell_age: "plain_cell (age now s)"
proof -
  have "list_all plain_cell [''-'', ''s'', ''m'', ''h'']" by code_simp
  then show ?thesis by (simp add: age_def plain_cell_FormatInt Let_def split: option.split)
qed

text \<open>
  Claim C36. When the server answers the list of sessions, their texts have no tab, line
  end or escape byte and the output takes what is written, \<open>session list\<close> ends with 0 and prints a
  line with the five headings and then one line for each session, in the order of the server: its
  identifier, tool, phase, isolation profile and age. The lines are aligned: the cells of a column,
  all but the last, are padded to the widest of them, in characters, and two blanks more.
\<close>

theorem list_table:
  assumes "client_List (system_client sys) w = (Inr (items, raw), w')"
    and "\<forall>item \<in> set items.
      list_all plain_cell [cs_ID item, cs_Tool item, cs_Phase item, cs_IsolationProfile item]"
    and "\<And>text. sy_Stdout sys text w' = None"
  shows "Run_cli sys [''session'', ''list''] w =
    (let rows = [''ID'', ''TOOL'', ''PHASE'', ''ISOLATION'', ''AGE''] #
           map (\<lambda>(i, s). [cs_ID s, cs_Tool s, cs_Phase s, cs_IsolationProfile s,
                          age (sy_Clock sys w' i) (cs_CreatedAt s)]) (enumerate 0 items)
     in ((Some 0, [Out (concat (map (aligned_row rows) rows))]), w'))"
proof -
  let ?rows = "list_rows (sy_Clock sys w') items"
  have "list_all (\<lambda>r. list_all plain_cell r \<and> length r = 5) ?rows"
  proof -
    have "list_all plain_cell list_header \<and> length list_header = 5" by code_simp
    moreover have "list_all plain_cell (list_row now item)" if "item \<in> set items" for now item
      using assms(2) that by (simp add: list_row_def plain_cell_age)
    ultimately show ?thesis
      by (auto simp: list_rows_def list_all_iff list_row_def in_set_enumerate_eq dest!: nth_mem)
  qed
  then have "tabulate (concat (map tab_row ?rows)) = concat (map (aligned_row ?rows) ?rows)"
    using tabulate_rows [of ?rows 5] by (simp add: list_rows_def)
  moreover have "flag_Parse [(''o'', StringFlag [])] [] = Inr ([(''o'', StringFlag [])], [])" by code_simp
  moreover have "flag_string [(''o'', StringFlag [])] ''o'' = []" by code_simp
  moreover have "?rows = [''ID'', ''TOOL'', ''PHASE'', ''ISOLATION'', ''AGE''] #
      map (\<lambda>(i, s). [cs_ID s, cs_Tool s, cs_Phase s, cs_IsolationProfile s,
                     age (sy_Clock sys w' i) (cs_CreatedAt s)]) (enumerate 0 items)"
    by (simp add: list_rows_def list_header_def list_row_def)
  ultimately show ?thesis
    using assms(1,3) by (simp add: Run_cli_def runList_def Let_def exit_with_def)
qed

definition listed_response :: SessionResponse where
  "listed_response = \<lparr>sr_ID = ''sess-1'', sr_Phase = ''Running'', sr_Reason = [], sr_Message = [],
     sr_Tool = ''opencode'', sr_ModelRef = [], sr_ResourceProfile = [], sr_IsolationProfile = ''default'',
     sr_TerminalReady = True, sr_CreatedAt = [], sr_ExpiresAt = [], sr_TerminalURL = []\<rparr>"

definition listing_system :: "unit system" where
  "listing_system = offline
     \<lparr>sy_Do := (\<lambda>_ w. (Inr (200, Inr ''body''), w)),
      sy_Unmarshal := (\<lambda>_. Some (JObject [(''items'', JArray [response_json listed_response])]))\<rparr>"

theorem list_table_witness:
  "Run_cli listing_system [''session'', ''list''] () =
    ((Some 0, [Out (''ID      TOOL      PHASE    ISOLATION  AGE'' @ newline
                  @ ''sess-1  opencode  Running  default    -'' @ newline)]), ())"
proof -
  have items: "client_List (system_client listing_system) () = (Inr ([session_of listed_response], ''body''), ())"
    by code_simp
  have "list_all plain_cell [cs_ID s, cs_Tool s, cs_Phase s, cs_IsolationProfile s]"
    if "s = session_of listed_response" for s
    unfolding that by code_simp
  then have "Run_cli listing_system [''session'', ''list''] () =
    (let rows = list_rows (sy_Clock listing_system ()) [session_of listed_response]
     in ((Some 0, [Out (concat (map (aligned_row rows) rows))]), ()))"
    using list_table [OF items]
    by (simp add: listing_system_def offline_def list_rows_def list_header_def list_row_def)
  moreover have "(let rows = list_rows (sy_Clock listing_system ()) [session_of listed_response]
     in concat (map (aligned_row rows) rows)) =
    ''ID      TOOL      PHASE    ISOLATION  AGE'' @ newline @ ''sess-1  opencode  Running  default    -'' @ newline"
    by code_simp
  ultimately show ?thesis by (simp add: Let_def)
qed

subsection \<open>Lifetimes\<close>

text \<open>
  The default lifetime is two hours; one below a second is sent as zero, for which the server
  takes its own default.
\<close>

lemma ttl_examples:
  "ttl_seconds (2 * Hour) = 7200" "map_option ttl_seconds (ParseDuration ''90m'') = Some 5400"
  "map_option ttl_seconds (ParseDuration ''500ms'') = Some 0"
  by code_simp+

end
