(* ===== verification/Cask_Terminal.thy ===== *)
theory Cask_Terminal
  imports Cask_Api
begin

text \<open>
  \<open>internal/terminal/gateway.go\<close>: who gets a terminal, the command it runs, and the control
  messages of a terminal. The session loop that follows the admission is in
  \<open>Cask_Gateway\<close>, the streams it drives are in \<open>Cask_Streams\<close>.
\<close>

subsection \<open>Commands\<close>

text \<open>A quote ends the quoted text, adds an escaped quote and starts it again.\<close>

definition quote :: char where "quote = CHR 0x27"

definition backslash :: char where "backslash = CHR 0x5C"

definition shellQuote :: "string \<Rightarrow> string" where
  "shellQuote s = ReplaceAll s [quote] [quote, backslash, quote, quote]"

definition toolCommand :: "string \<rightharpoonup> string" where
  "toolCommand =
     [''stub'' \<mapsto> ''if [ -x /usr/local/bin/cask-stub-tui ]; then /usr/local/bin/cask-stub-tui; else /bin/sh; fi'',
      ''opencode'' \<mapsto> ''if command -v opencode >/dev/null 2>&1; then opencode; else /bin/sh; fi'',
      ''claude-code'' \<mapsto> ''if command -v claude >/dev/null 2>&1; then claude; else /bin/sh; fi'',
      ''codex'' \<mapsto> ''if command -v codex >/dev/null 2>&1; then codex; else /bin/sh; fi'',
      ''openclaw'' \<mapsto> ''if command -v openclaw >/dev/null 2>&1; then openclaw; else /bin/sh; fi'',
      ''hermes'' \<mapsto> ''if command -v hermes >/dev/null 2>&1; then hermes; else /bin/sh; fi'']"

definition tool_command :: "string \<Rightarrow> string" where
  "tool_command tool = (case toolCommand tool of None \<Rightarrow> ''/bin/sh'' | Some c \<Rightarrow> c)"

text \<open>The script that runs a command in tmux where there is one.\<close>

definition tmux_script :: "string \<Rightarrow> string" where
  "tmux_script cmd =
     ''if command -v tmux >/dev/null 2>&1; then tmux new-session -A -s agent ''
       @ [quote] @ shellQuote cmd @ [quote] @ ''; else '' @ cmd @ ''; fi''"

definition DefaultCommand :: "string \<Rightarrow> string list" where
  "DefaultCommand tool =
     (let cmd = tool_command tool in
      if tool = ''stub'' then [''/bin/sh'', ''-lc'', cmd]
      else [''/bin/sh'', ''-lc'', tmux_script cmd])"

subsection \<open>Control messages\<close>

record Size =
  sz_Cols :: "16 word"
  sz_Rows :: "16 word"

record control =
  ct_Type :: string
  ct_Cols :: "16 word"
  ct_Rows :: "16 word"

text \<open>
  \<open>json.Unmarshal\<close> into this struct, as \<open>unmarshal_struct\<close> describes it; a number that is
  out of range is an error too.
\<close>

definition set_uint16 :: "json \<Rightarrow> 16 word \<Rightarrow> 16 word \<times> bool" where
  "set_uint16 v old =
     (case v of
        JInt n \<Rightarrow> (if 0 \<le> sint n \<and> sint n < 65536 then (word_of_int (sint n), True) else (old, False))
      | JNull \<Rightarrow> (old, True)
      | _ \<Rightarrow> (old, False))"

fun set_fields :: "jmap \<Rightarrow> control \<Rightarrow> control \<times> bool" where
  "set_fields [] m = (m, True)"
| "set_fields ((k, v) # rest) m =
     (if EqualFold k ''type'' then
        (case set_string v (ct_Type m) of (x, ok) \<Rightarrow>
           (case set_fields rest (m\<lparr>ct_Type := x\<rparr>) of (m', ok') \<Rightarrow> (m', ok \<and> ok')))
      else if EqualFold k ''cols'' then
        (case set_uint16 v (ct_Cols m) of (x, ok) \<Rightarrow>
           (case set_fields rest (m\<lparr>ct_Cols := x\<rparr>) of (m', ok') \<Rightarrow> (m', ok \<and> ok')))
      else if EqualFold k ''rows'' then
        (case set_uint16 v (ct_Rows m) of (x, ok) \<Rightarrow>
           (case set_fields rest (m\<lparr>ct_Rows := x\<rparr>) of (m', ok') \<Rightarrow> (m', ok \<and> ok')))
      else set_fields rest m)"

definition unmarshal_control :: "json option \<Rightarrow> control option" where
  "unmarshal_control doc =
     (let zero = \<lparr>ct_Type = [], ct_Cols = 0, ct_Rows = 0\<rparr> in
      case doc of
        Some JNull \<Rightarrow> Some zero
      | Some (JObject fs) \<Rightarrow>
          (case set_fields fs zero of (m, ok) \<Rightarrow> (if ok then Some m else None))
      | _ \<Rightarrow> None)"

text \<open>\<open>handleControl\<close>: the resize it asks of the stream; its error is not used.\<close>

definition handleControl :: "json option \<Rightarrow> Size option" where
  "handleControl doc =
     (case unmarshal_control doc of
        None \<Rightarrow> None
      | Some msg \<Rightarrow>
          (if ct_Type msg = ''resize'' \<and> ct_Cols msg > 0 \<and> ct_Rows msg > 0
           then Some \<lparr>sz_Cols = ct_Cols msg, sz_Rows = ct_Rows msg\<rparr> else None))"

subsection \<open>Admission\<close>

record ExecRequest =
  er_Namespace :: string
  er_PodName :: string
  er_ContainerName :: string
  er_Command :: "string list"

text \<open>
  The upgrade of the connection (\<open>github.com/gorilla/websocket\<close>) is a parameter: it is
  given the origin check to use and says whether it succeeded. A stream has an arbitrary
  type \<open>'s\<close>.
\<close>

record ('w, 's) gateway =
  gw_Resolver :: "(string \<Rightarrow> 'w \<Rightarrow> (kerr + AgentSession) \<times> 'w) option"
  gw_Start :: "(ExecRequest \<Rightarrow> 'w \<Rightarrow> (kerr + 's) \<times> 'w) option"   \<comment> \<open>\<open>Backend\<close>\<close>
  gw_CheckOrigin :: "(request \<Rightarrow> bool) option"
  gw_Upgrade :: "(request \<Rightarrow> bool) \<Rightarrow> request \<Rightarrow> 'w \<Rightarrow> bool \<times> 'w"
  gw_Timeout :: duration

datatype 's admission =
    Refused reply          \<comment> \<open>an HTTP error\<close>
  | NotUpgraded            \<comment> \<open>the upgrade failed and has answered\<close>
  | ExecFailed             \<comment> \<open>the error message was sent over the connection\<close>
  | Started 's             \<comment> \<open>the session loop runs\<close>

definition exec_request :: "AgentSession \<Rightarrow> ExecRequest" where
  "exec_request session =
     \<lparr>er_Namespace = m_Namespace (s_Meta session),
      er_PodName = st_PodName (s_Status session),
      er_ContainerName = defaultString (st_ContainerName (s_Status session)) ContainerName,
      er_Command = DefaultCommand (sp_Tool (s_Spec session))\<rparr>"

definition Serve :: "('w, 's) gateway \<Rightarrow> request \<Rightarrow> string \<Rightarrow> string \<Rightarrow> 'w \<Rightarrow> 's admission \<times> 'w" where
  "Serve g r userID sessionID w =
     (case (gw_Resolver g, gw_Start g) of
        (Some get, Some start) \<Rightarrow>
          (case get sessionID w of
             (Inl _, w) \<Rightarrow> (Refused (http_Error ''session not found'' StatusNotFound), w)
           | (Inr session, w) \<Rightarrow>
               (if s_UserID session \<noteq> userID
                then (Refused (http_Error ''forbidden'' StatusForbidden), w)
                else if st_Phase (s_Status session) \<noteq> PhaseRunning
                  \<or> \<not> st_TerminalReady (s_Status session) \<or> st_PodName (s_Status session) = []
                then (Refused (http_Error ''session not ready'' StatusConflict), w)
                else
                  (let check = (case gw_CheckOrigin g of None \<Rightarrow> (\<lambda>_. True) | Some f \<Rightarrow> f) in
                   case gw_Upgrade g check r w of
                     (False, w) \<Rightarrow> (NotUpgraded, w)
                   | (True, w) \<Rightarrow>
                       (case start (exec_request session) w of
                          (Inl _, w) \<Rightarrow> (ExecFailed, w)
                        | (Inr stream, w) \<Rightarrow> (Started stream, w)))))
      | _ \<Rightarrow> (Refused (http_Error ''terminal gateway not configured'' StatusServiceUnavailable), w))"

definition gw_timeout :: "('w, 's) gateway \<Rightarrow> duration" where
  "gw_timeout g = (if gw_Timeout g = 0 then 30 * Minute else gw_Timeout g)"

text \<open>The deadline a read gets at time \<open>now\<close>; a negative timeout sets none.\<close>

definition read_deadline :: "('w, 's) gateway \<Rightarrow> gtime \<Rightarrow> gtime option" where
  "read_deadline g now =
     (if sint (gw_timeout g) > 0 then Some (Add now (gw_timeout g)) else None)"

text \<open>What the watcher of a terminal makes of the session it reads: is it over?\<close>

definition session_stopped :: "kerr + AgentSession option \<Rightarrow> bool" where
  "session_stopped res =
     (case res of
        Inl _ \<Rightarrow> True
      | Inr None \<Rightarrow> True
      | Inr (Some session) \<Rightarrow>
          m_DeletionTimestamp (s_Meta session) \<noteq> None
          \<or> st_Phase (s_Status session) = PhaseExpired
          \<or> st_Phase (s_Status session) = PhaseTerminating
          \<or> st_Phase (s_Status session) = PhaseFailed
          \<or> \<not> st_TerminalReady (s_Status session))"

subsection \<open>Quoting\<close>


lemma shellQuote_simps [simp]:
  "shellQuote [] = []"
  "shellQuote (c # s) = (if c = quote then [quote, backslash, quote, quote] else [c]) @ shellQuote s"
  by (simp_all add: shellQuote_def)

lemma quote_neq [simp]: "backslash \<noteq> quote" "quote \<noteq> backslash" "CHR '';'' \<noteq> quote" "CHR '';'' \<noteq> backslash"
  by (simp_all add: quote_def backslash_def)



subsection \<open>Properties\<close>

text \<open>
  A resize message is obeyed exactly when both sizes are between 1 and 65535, and then
  with these sizes; outside that range, where 16 bits would wrap around, it is ignored.
\<close>

theorem handleControl_exact:
  "handleControl (Some (JObject
      [(''type'', JString ''resize''), (''cols'', JInt c), (''rows'', JInt r)])) =
    (if 1 \<le> sint c \<and> sint c \<le> 65535 \<and> 1 \<le> sint r \<and> sint r \<le> 65535
     then Some \<lparr>sz_Cols = word_of_int (sint c), sz_Rows = word_of_int (sint r)\<rparr> else None)"
proof -
  have k: "EqualFold ''type'' ''type''" "EqualFold ''cols'' ''cols''" "EqualFold ''rows'' ''rows''"
    "\<not> EqualFold ''cols'' ''type''" "\<not> EqualFold ''rows'' ''type''" "\<not> EqualFold ''rows'' ''cols''"
    by code_simp+
  have pos: "0 < (word_of_int x :: 16 word) \<longleftrightarrow> 0 < x" if "0 \<le> x" "x < 65536" for x
    using that by (simp add: word_less_def uint_word_of_int)
  show ?thesis
    using pos [of "sint c"] pos [of "sint r"]
    by (auto simp: handleControl_def unmarshal_control_def Let_def k set_string_def set_uint16_def)
qed

text \<open>
  Claim C22. A terminal is started only for the owner of the session, only while the session is
  running with its terminal ready, and only in the session's own Pod, namespace and
  container with the command of the session's tool; and only after the connection was
  upgraded.
\<close>

theorem Serve_admission:
  assumes "Serve g r u sid w = (Started stream, w')"
  shows "\<exists>get start s w1 w2. gw_Resolver g = Some get \<and> gw_Start g = Some start \<and>
    get sid w = (Inr s, w1) \<and> s_UserID s = u \<and> st_Phase (s_Status s) = PhaseRunning \<and>
    st_TerminalReady (s_Status s) \<and> st_PodName (s_Status s) \<noteq> [] \<and>
    (\<exists>check. gw_Upgrade g check r w1 = (True, w2)) \<and>
    start \<lparr>er_Namespace = m_Namespace (s_Meta s), er_PodName = st_PodName (s_Status s),
      er_ContainerName = defaultString (st_ContainerName (s_Status s)) ContainerName,
      er_Command = DefaultCommand (sp_Tool (s_Spec s))\<rparr> w2 = (Inr stream, w')"
  using assms unfolding Serve_def
  by (auto simp: Let_def exec_request_def split: option.splits prod.splits sum.splits if_splits bool.splits)

definition ready_store :: MemoryStore where
  "ready_store = snd (ms_Create example_session (NewMemoryStore True))"

definition example_gateway :: "(MemoryStore, ExecRequest) gateway" where
  "example_gateway =
     \<lparr>gw_Resolver = Some (so_Get memory_store), gw_Start = Some (\<lambda>req w. (Inr req, w)),
      gw_CheckOrigin = None, gw_Upgrade = (\<lambda>check r w. (check r, w)), gw_Timeout = 0\<rparr>"

lemma example_serve:
  "\<exists>req. Serve example_gateway (example_request ''GET'' [] ''x'') ''dev-user'' ''sess-1'' ready_store =
     (Started req, ready_store)"
  by (simp add: Serve_def example_gateway_def ready_store_def memory_store_def ms_Create_def ms_Get_def
      NewMemoryStore_def example_session_def ms_auto_run_def sample_spec_def Let_def)

theorem Serve_admission_witness:
  "\<exists>s req. so_Get memory_store ''sess-1'' ready_store = (Inr s, ready_store) \<and> s_UserID s = ''dev-user'' \<and>
    st_PodName (s_Status s) \<noteq> [] \<and>
    Serve example_gateway (example_request ''GET'' [] ''x'') ''dev-user'' ''sess-1'' ready_store =
      (Started req, ready_store) \<and> er_PodName req = st_PodName (s_Status s)"
proof -
  obtain req where r: "Serve example_gateway (example_request ''GET'' [] ''x'') ''dev-user'' ''sess-1'' ready_store =
     (Started req, ready_store)"
    using example_serve by blast
  have g: "gw_Resolver example_gateway = Some (so_Get memory_store)"
    "gw_Start example_gateway = Some (\<lambda>req w. (Inr req, w))"
    "gw_Upgrade example_gateway = (\<lambda>check r w. (check r, w))"
    by (simp_all add: example_gateway_def)
  from Serve_admission [OF r] show ?thesis
    unfolding g using r by auto
qed

subsection \<open>The gateway behind the API\<close>

text \<open>What \<open>sessionByID\<close> sees of the gateway: an error reply, or a connection taken over.\<close>

definition terminal_handler ::
    "('w, 's) gateway \<Rightarrow> request \<Rightarrow> string \<Rightarrow> string \<Rightarrow> 'w \<Rightarrow> reply \<times> 'w" where
  "terminal_handler g r userID sessionID w =
     (case Serve g r userID sessionID w of
        (Refused rep, w) \<Rightarrow> (rep, w)
      | (_, w) \<Rightarrow> (TerminalReply, w))"

end
