(* ===== verification/Cask_Streams.thy ===== *)
theory Cask_Streams
  imports Cask_Terminal
begin

text \<open>
  The streams a terminal session drives: the interface \<open>ExecStream\<close> of
  \<open>internal/terminal/gateway.go\<close> as a locale, the echo stream of that file and the exec
  stream of \<open>internal/terminal/kubernetes.go\<close>. An operation gives the list of its possible
  outcomes: none while it has to wait, several where Go's \<open>select\<close> may choose.
\<close>

datatype write_result = Wrote | WriteError | WritePanic

record 's exec_ops =
  eo_Write :: "bytes \<Rightarrow> 's \<Rightarrow> (write_result \<times> 's) list"
  eo_Recv :: "'s \<Rightarrow> (bytes option \<times> 's) list"   \<comment> \<open>from \<open>Output()\<close>; \<open>None\<close>: closed\<close>
  eo_Resize :: "Size \<Rightarrow> 's \<Rightarrow> 's"
  eo_Close :: "'s \<Rightarrow> 's"

text \<open>
  What the gateway relies on: a closed stream lets no write wait, takes no more input and
  stays closed, closing again changes nothing, and reading its output or resizing it does not close it.
\<close>

locale exec_stream =
  fixes ops :: "'s exec_ops"
    and shut :: "'s \<Rightarrow> bool"
  assumes close_closes: "shut (eo_Close ops s)"
    and close_again: "shut s \<Longrightarrow> eo_Close ops s = s"
    and closed_answers: "shut s \<Longrightarrow> eo_Write ops p s \<noteq> []"
    and closed_rejects: "shut s \<Longrightarrow> (r, s') \<in> set (eo_Write ops p s) \<Longrightarrow> r \<noteq> Wrote \<and> s' = s"
    and write_keeps: "(r, s') \<in> set (eo_Write ops p s) \<Longrightarrow> shut s' = shut s"
    and recv_keeps: "(out, s') \<in> set (eo_Recv ops s) \<Longrightarrow> shut s' = shut s"
    and resize_keeps: "shut (eo_Resize ops sz s) = shut s"

text \<open>A stream whose writes never panic.\<close>

locale calm_stream = exec_stream +
  assumes no_panic: "(r, s') \<in> set (eo_Write ops p s) \<Longrightarrow> r \<noteq> WritePanic"

subsection \<open>The echo stream\<close>

text \<open>
  \<open>closed\<close> and \<open>out\<close> are closed together, under the \<open>once\<close>. On a closed stream both cases
  of the \<open>select\<close> in \<open>Write\<close> are ready: receiving from \<open>closed\<close> gives the error, sending
  on the closed \<open>out\<close> panics.
\<close>

record echoStream =
  ec_out :: "bytes list"
  ec_closed :: bool

definition echo_Start :: echoStream where
  "echo_Start = \<lparr>ec_out = [''cask terminal ready'' @ [CHR 0x0A]], ec_closed = False\<rparr>"

definition echo_Write :: "bytes \<Rightarrow> echoStream \<Rightarrow> (write_result \<times> echoStream) list" where
  "echo_Write p s =
     (if ec_closed s then [(WriteError, s), (WritePanic, s)]
      else if length (ec_out s) < 16 then [(Wrote, s\<lparr>ec_out := ec_out s @ [p]\<rparr>)]
      else [])"

definition echo_Recv :: "echoStream \<Rightarrow> (bytes option \<times> echoStream) list" where
  "echo_Recv s =
     (case ec_out s of
        b # bs \<Rightarrow> [(Some b, s\<lparr>ec_out := bs\<rparr>)]
      | [] \<Rightarrow> (if ec_closed s then [(None, s)] else []))"

definition echo_Resize :: "Size \<Rightarrow> echoStream \<Rightarrow> echoStream" where
  "echo_Resize sz s = s"

definition echo_Close :: "echoStream \<Rightarrow> echoStream" where
  "echo_Close s = (if ec_closed s then s else s\<lparr>ec_closed := True\<rparr>)"

definition echo_ops :: "echoStream exec_ops" where
  "echo_ops = \<lparr>eo_Write = echo_Write, eo_Recv = echo_Recv, eo_Resize = echo_Resize, eo_Close = echo_Close\<rparr>"

lemmas echo_defs = echo_ops_def echo_Write_def echo_Recv_def echo_Resize_def echo_Close_def

interpretation echo: exec_stream echo_ops ec_closed
  by unfold_locales (auto simp: echo_defs split: if_splits list.splits)

subsection \<open>The resize queue\<close>

text \<open>A channel of eight sizes: a push into a full one is dropped.\<close>

definition resize_capacity :: nat where "resize_capacity = 8"

definition rq_Push :: "Size \<Rightarrow> Size list \<Rightarrow> Size list" where
  "rq_Push sz q = (if length q < resize_capacity then q @ [sz] else q)"

definition rq_Next :: "Size list \<Rightarrow> (Size \<times> Size list) option" where
  "rq_Next q = (case q of [] \<Rightarrow> None | sz # rest \<Rightarrow> Some (sz, rest))"   \<comment> \<open>\<open>None\<close>: wait\<close>

subsection \<open>The exec stream of Kubernetes\<close>

text \<open>
  The pipe to the remote process takes a write when something reads from it and makes it wait
  otherwise; what was taken is kept in \<open>ks_stdin\<close>. The output channel holds 32 chunks; the
  goroutine that runs the exec fills it and closes it at the end. \<open>ks_copying\<close> says whether the
  goroutines of the executor that copy the output may still write, \<open>ks_panicked\<close> whether one of
  them has sent on the closed channel, which ends the whole program.
\<close>

record kubeExecStream =
  ks_stdin :: "bytes list"
  ks_reading :: bool
  ks_closed :: bool
  ks_out :: "bytes list"
  ks_finished :: bool   \<comment> \<open>\<open>out\<close> is closed\<close>
  ks_copying :: bool
  ks_panicked :: bool
  ks_resize :: "Size list"

definition kube_stream_new :: kubeExecStream where
  "kube_stream_new = \<lparr>ks_stdin = [], ks_reading = True, ks_closed = False, ks_out = [],
     ks_finished = False, ks_copying = True, ks_panicked = False, ks_resize = []\<rparr>"

record PodExecOptions =
  pe_Container :: string
  pe_Command :: "string list"
  pe_Stdin :: bool
  pe_Stdout :: bool
  pe_Stderr :: bool
  pe_TTY :: bool

definition exec_options :: "ExecRequest \<Rightarrow> PodExecOptions" where
  "exec_options req = \<lparr>pe_Container = er_ContainerName req, pe_Command = er_Command req,
     pe_Stdin = True, pe_Stdout = True, pe_Stderr = True, pe_TTY = True\<rparr>"

text \<open>
  \<open>KubernetesExecBackend.Start\<close>: \<open>exec\<close> is \<open>remotecommand.NewSPDYExecutor\<close> on the URL for
  the namespace, the Pod and the options; \<open>None\<close> when the client or its configuration is nil.
\<close>

definition kube_Start ::
    "(string \<Rightarrow> string \<Rightarrow> PodExecOptions \<Rightarrow> kerr option) option \<Rightarrow> ExecRequest \<Rightarrow> 'w
      \<Rightarrow> (kerr + kubeExecStream) \<times> 'w" where
  "kube_Start exec req w =
     (case exec of
        None \<Rightarrow> (Inl (OtherError ''exec backend not configured''), w)
      | Some new \<Rightarrow>
          (case new (er_Namespace req) (er_PodName req) (exec_options req) of
             Some err \<Rightarrow> (Inl err, w)
           | None \<Rightarrow> (Inr kube_stream_new, w)))"

definition ks_Write :: "bytes \<Rightarrow> kubeExecStream \<Rightarrow> (write_result \<times> kubeExecStream) list" where
  "ks_Write p s =
     (if ks_closed s then [(WriteError, s)]
      else if ks_reading s then [(Wrote, s\<lparr>ks_stdin := ks_stdin s @ [p]\<rparr>)]
      else [])"

definition ks_Recv :: "kubeExecStream \<Rightarrow> (bytes option \<times> kubeExecStream) list" where
  "ks_Recv s =
     (case ks_out s of
        b # bs \<Rightarrow> [(Some b, s\<lparr>ks_out := bs\<rparr>)]
      | [] \<Rightarrow> (if ks_finished s then [(None, s)] else []))"

definition ks_Resize :: "Size \<Rightarrow> kubeExecStream \<Rightarrow> kubeExecStream" where
  "ks_Resize sz s = s\<lparr>ks_resize := rq_Push sz (ks_resize s)\<rparr>"

definition ks_Close :: "kubeExecStream \<Rightarrow> kubeExecStream" where
  "ks_Close s = (if ks_closed s then s else s\<lparr>ks_closed := True\<rparr>)"

definition kube_ops :: "kubeExecStream exec_ops" where
  "kube_ops = \<lparr>eo_Write = ks_Write, eo_Recv = ks_Recv, eo_Resize = ks_Resize, eo_Close = ks_Close\<rparr>"

lemmas kube_ops_defs = kube_ops_def ks_Write_def ks_Recv_def ks_Resize_def ks_Close_def

interpretation kube_exec: calm_stream kube_ops ks_closed
  by unfold_locales (auto simp: kube_ops_defs split: if_splits list.splits)

text \<open>
  \<open>outputWriter.Write\<close> sends on the channel, waits while it is full, and panics when it is
  closed. The goroutine of the exec: output, a size taken from the queue, and two ends.
  \<open>StreamWithContext\<close> returns when the process has ended and its output is copied, or as soon
  as the context is cancelled, and then the goroutines that copy the output may go on.
\<close>

definition outputWriter_Write :: "bytes \<Rightarrow> kubeExecStream \<Rightarrow> kubeExecStream option" where
  "outputWriter_Write p s =
     (if ks_finished s then Some (s\<lparr>ks_panicked := True\<rparr>)
      else if length (ks_out s) < 32 then Some (s\<lparr>ks_out := ks_out s @ [p]\<rparr>) else None)"

inductive exec_step :: "bool \<Rightarrow> kubeExecStream \<Rightarrow> kubeExecStream \<Rightarrow> bool" for cancelled :: bool where
  emit: "ks_copying s \<Longrightarrow> outputWriter_Write p s = Some s' \<Longrightarrow> exec_step cancelled s s'"
| resized: "rq_Next (ks_resize s) = Some (sz, q) \<Longrightarrow> exec_step cancelled s (s\<lparr>ks_resize := q\<rparr>)"
| stop_reading: "exec_step cancelled s (s\<lparr>ks_reading := False\<rparr>)"
| stop_copying: "exec_step cancelled s (s\<lparr>ks_copying := False\<rparr>)"
| finish: "\<not> ks_finished s \<Longrightarrow>
    exec_step cancelled s (s\<lparr>ks_finished := True, ks_copying := False, ks_reading := False\<rparr>)"
| give_up: "cancelled \<Longrightarrow> \<not> ks_finished s \<Longrightarrow> exec_step cancelled s (s\<lparr>ks_finished := True\<rparr>)"

lemma exec_step_closed: "exec_step x s s' \<Longrightarrow> ks_closed s' = ks_closed s"
  by (induction rule: exec_step.induct) (auto simp: outputWriter_Write_def split: if_splits)

lemma exec_step_output:
  "exec_step x s s' \<Longrightarrow>
     ks_stdin s' = ks_stdin s \<and> (ks_out s' = ks_out s \<or> (\<exists>p. ks_out s' = ks_out s @ [p]))"
  by (induction rule: exec_step.induct) (auto simp: outputWriter_Write_def split: if_splits)

text \<open>Only a cancelled context leaves a writer beside a closed channel.\<close>

definition late_only_cancelled :: "bool \<Rightarrow> kubeExecStream \<Rightarrow> bool" where
  "late_only_cancelled cancelled s \<longleftrightarrow>
     (ks_finished s \<and> ks_copying s \<longrightarrow> cancelled) \<and> (ks_panicked s \<longrightarrow> ks_finished s \<and> cancelled)"

lemma exec_step_late: "exec_step x s s' \<Longrightarrow> late_only_cancelled x s \<Longrightarrow> late_only_cancelled x s'"
  by (induction rule: exec_step.induct)
    (auto simp: late_only_cancelled_def outputWriter_Write_def split: if_splits)

subsection \<open>Properties of the resize queue\<close>

fun push_all :: "Size list \<Rightarrow> Size list \<Rightarrow> Size list" where
  "push_all q [] = q"
| "push_all q (sz # szs) = push_all (rq_Push sz q) szs"

lemma push_all_take: "length q \<le> resize_capacity \<Longrightarrow> push_all q szs = take resize_capacity (q @ szs)"
proof (induction szs arbitrary: q)
  case (Cons sz szs)
  show ?case
  proof (cases "length q < resize_capacity")
    case True
    then have "take (resize_capacity - length q) (sz # szs) = sz # take (resize_capacity - Suc (length q)) szs"
      by (simp add: take_Cons' flip: diff_Suc_eq_diff_pred)
    with True Cons show ?thesis by (simp add: rq_Push_def)
  qed (use Cons in \<open>simp add: rq_Push_def\<close>)
qed simp

text \<open>
  A burst of resizes that nobody takes leaves the first eight of them in the queue, in
  order, and no more: the queue never grows beyond its capacity, and it is the newest sizes,
  the last one included, that are dropped.
\<close>

theorem resize_queue_bounded:
  assumes "length q \<le> 8"
  shows "push_all q szs = take 8 (q @ szs)"
  using push_all_take [of q szs] assms by (simp add: resize_capacity_def)

theorem resize_queue_bounded_witness:
  "push_all [] (map (\<lambda>n. \<lparr>sz_Cols = n, sz_Rows = 1\<rparr>) [1, 2, 3, 4, 5, 6, 7, 8, 9, 10]) =
    map (\<lambda>n. \<lparr>sz_Cols = n, sz_Rows = 1\<rparr>) [1, 2, 3, 4, 5, 6, 7, 8]"
  using resize_queue_bounded [of "[]" "map (\<lambda>n. \<lparr>sz_Cols = n, sz_Rows = 1\<rparr>) [1, 2, 3, 4, 5, 6, 7, 8, 9, 10]"]
  by simp

text \<open>
  Two limits of the streams: a write to an echo stream that was closed may panic, and a write
  to the pipe of an exec that no longer reads waits for as long as the stream is open.
\<close>

lemma echo_write_after_close: "(WritePanic, echo_Close s) \<in> set (echo_Write p (echo_Close s))"
  by (simp add: echo_Close_def echo_Write_def)

lemma kube_write_waits: "\<not> ks_reading s \<Longrightarrow> \<not> ks_closed s \<Longrightarrow> ks_Write p s = []"
  by (simp add: ks_Write_def)

end
