(* ===== verification/Cask_Gateway.thy ===== *)
theory Cask_Gateway
  imports Cask_Streams
begin

text \<open>
  The session loop of \<open>Gateway.Serve\<close> in \<open>internal/terminal/gateway.go\<close> as a transition
  system: the reader (the handler itself, with its deferred calls), the pump (the goroutine
  that forwards output), the watcher (\<open>closeWhenSessionStops\<close>) and the backend take turns
  in any order. Each rule is one blocking or shared-state action of the code; where a
  goroutine waits, it has no rule.
\<close>

subsection \<open>States\<close>

text \<open>Where each goroutine is. The last three places of the reader are its deferred calls.\<close>

datatype reader_pc =
    RSelect            \<comment> \<open>the \<open>select\<close> on \<open>done\<close>\<close>
  | RRead              \<comment> \<open>\<open>conn.ReadMessage()\<close>\<close>
  | RWrite bytes       \<comment> \<open>\<open>stream.Write(payload)\<close>\<close>
  | RControl bytes     \<comment> \<open>\<open>handleControl(payload, stream)\<close>\<close>
  | RCloseStream | RCancel | RCloseConn | REnd

datatype pump_pc =
    PRecv              \<comment> \<open>the next chunk of \<open>stream.Output()\<close>\<close>
  | PSend bytes        \<comment> \<open>\<open>conn.WriteMessage(BinaryMessage, out)\<close>\<close>
  | PCloseConn | PSignal | PEnd

text \<open>A message of the client that has arrived and is not read yet.\<close>

datatype frame = Binary bytes | Text bytes

datatype watch_pc = WWait | WCloseStream | WCloseConn | WCancel | WEnd

text \<open>
  \<open>gs_inbox\<close> is what the client has sent and the handler has not read yet. The last four fields
  are a record of what went by: \<open>gs_read\<close> and \<open>gs_received\<close> are the binary messages read from the client and the chunks
  received from the stream so far, \<open>gs_fed\<close> and \<open>gs_sent\<close> those that were written to the
  stream and sent to the client.
\<close>

record 's session =
  gs_stream :: 's
  gs_inbox :: "frame list"
  gs_conn :: bool       \<comment> \<open>the connection is open\<close>
  gs_cancelled :: bool  \<comment> \<open>the context is done\<close>
  gs_done :: bool       \<comment> \<open>the channel \<open>done\<close> is closed\<close>
  gs_reader :: reader_pc
  gs_pump :: pump_pc
  gs_watch :: watch_pc
  gs_stopped :: bool    \<comment> \<open>the watcher found the session stopped\<close>
  gs_panicked :: bool   \<comment> \<open>a write panicked\<close>
  gs_read :: "bytes list"
  gs_fed :: "bytes list"
  gs_received :: "bytes list"
  gs_sent :: "bytes list"

definition session_start :: "'s \<Rightarrow> 's session" where
  "session_start stream =
     \<lparr>gs_stream = stream, gs_inbox = [], gs_conn = True, gs_cancelled = False, gs_done = False,
      gs_reader = RSelect, gs_pump = PRecv, gs_watch = WWait, gs_stopped = False,
      gs_panicked = False, gs_read = [], gs_fed = [], gs_received = [], gs_sent = []\<rparr>"

subsection \<open>The reader\<close>

text \<open>
  A read fails at any time (the client closed, the deadline passed) and always on a closed
  connection. A panic of a write unwinds through the deferred calls.
\<close>

inductive reader_step ::
    "'s exec_ops \<Rightarrow> (bytes \<Rightarrow> json option) \<Rightarrow> 's session \<Rightarrow> 's session \<Rightarrow> bool"
  for ops :: "'s exec_ops" and decode :: "bytes \<Rightarrow> json option" where
  done_seen: "gs_reader c = RSelect \<Longrightarrow> gs_done c \<Longrightarrow> reader_step ops decode c (c\<lparr>gs_reader := RCloseStream\<rparr>)"
| not_done: "gs_reader c = RSelect \<Longrightarrow> \<not> gs_done c \<Longrightarrow> reader_step ops decode c (c\<lparr>gs_reader := RRead\<rparr>)"
| read_binary: "gs_reader c = RRead \<Longrightarrow> gs_conn c \<Longrightarrow> gs_inbox c = Binary p # rest \<Longrightarrow>
    reader_step ops decode c (c\<lparr>gs_inbox := rest, gs_reader := RWrite p, gs_read := gs_read c @ [p]\<rparr>)"
| read_text: "gs_reader c = RRead \<Longrightarrow> gs_conn c \<Longrightarrow> gs_inbox c = Text p # rest \<Longrightarrow>
    reader_step ops decode c (c\<lparr>gs_inbox := rest, gs_reader := RControl p\<rparr>)"
| read_error: "gs_reader c = RRead \<Longrightarrow> reader_step ops decode c (c\<lparr>gs_reader := RCloseStream\<rparr>)"
| wrote: "gs_reader c = RWrite p \<Longrightarrow> (Wrote, s) \<in> set (eo_Write ops p (gs_stream c)) \<Longrightarrow>
    reader_step ops decode c (c\<lparr>gs_stream := s, gs_fed := gs_fed c @ [p], gs_reader := RSelect\<rparr>)"
| write_error: "gs_reader c = RWrite p \<Longrightarrow> (WriteError, s) \<in> set (eo_Write ops p (gs_stream c)) \<Longrightarrow>
    reader_step ops decode c (c\<lparr>gs_stream := s, gs_reader := RCloseStream\<rparr>)"
| write_panic: "gs_reader c = RWrite p \<Longrightarrow> (WritePanic, s) \<in> set (eo_Write ops p (gs_stream c)) \<Longrightarrow>
    reader_step ops decode c (c\<lparr>gs_stream := s, gs_panicked := True, gs_reader := RCloseStream\<rparr>)"
| resize: "gs_reader c = RControl p \<Longrightarrow> handleControl (decode p) = Some sz \<Longrightarrow>
    reader_step ops decode c (c\<lparr>gs_stream := eo_Resize ops sz (gs_stream c), gs_reader := RSelect\<rparr>)"
| no_resize: "gs_reader c = RControl p \<Longrightarrow> handleControl (decode p) = None \<Longrightarrow>
    reader_step ops decode c (c\<lparr>gs_reader := RSelect\<rparr>)"
| defer_stream: "gs_reader c = RCloseStream \<Longrightarrow>
    reader_step ops decode c (c\<lparr>gs_stream := eo_Close ops (gs_stream c), gs_reader := RCancel\<rparr>)"
| defer_cancel: "gs_reader c = RCancel \<Longrightarrow>
    reader_step ops decode c (c\<lparr>gs_cancelled := True, gs_reader := RCloseConn\<rparr>)"
| defer_conn: "gs_reader c = RCloseConn \<Longrightarrow>
    reader_step ops decode c (c\<lparr>gs_conn := False, gs_reader := REnd\<rparr>)"

subsection \<open>The pump, the watcher and the backend\<close>

text \<open>The deferred calls of the pump close the connection first and then \<open>done\<close>.\<close>

inductive pump_step :: "'s exec_ops \<Rightarrow> 's session \<Rightarrow> 's session \<Rightarrow> bool" for ops :: "'s exec_ops" where
  receive: "gs_pump c = PRecv \<Longrightarrow> (Some b, s) \<in> set (eo_Recv ops (gs_stream c)) \<Longrightarrow>
    pump_step ops c (c\<lparr>gs_stream := s, gs_pump := PSend b, gs_received := gs_received c @ [b]\<rparr>)"
| output_closed: "gs_pump c = PRecv \<Longrightarrow> (None, s) \<in> set (eo_Recv ops (gs_stream c)) \<Longrightarrow>
    pump_step ops c (c\<lparr>gs_stream := s, gs_pump := PCloseConn\<rparr>)"
| send: "gs_pump c = PSend b \<Longrightarrow> gs_conn c \<Longrightarrow>
    pump_step ops c (c\<lparr>gs_pump := PRecv, gs_sent := gs_sent c @ [b]\<rparr>)"
| send_error: "gs_pump c = PSend b \<Longrightarrow> pump_step ops c (c\<lparr>gs_pump := PCloseConn\<rparr>)"
| close_conn: "gs_pump c = PCloseConn \<Longrightarrow> pump_step ops c (c\<lparr>gs_conn := False, gs_pump := PSignal\<rparr>)"
| signal: "gs_pump c = PSignal \<Longrightarrow> pump_step ops c (c\<lparr>gs_done := True, gs_pump := PEnd\<rparr>)"

text \<open>A tick with a session that goes on changes nothing.\<close>

inductive watch_step :: "'s exec_ops \<Rightarrow> 's session \<Rightarrow> 's session \<Rightarrow> bool" for ops :: "'s exec_ops" where
  context_done: "gs_watch c = WWait \<Longrightarrow> gs_cancelled c \<Longrightarrow> watch_step ops c (c\<lparr>gs_watch := WEnd\<rparr>)"
| tick: "gs_watch c = WWait \<Longrightarrow>
    watch_step ops c (if session_stopped res then c\<lparr>gs_watch := WCloseStream, gs_stopped := True\<rparr> else c)"
| stop_stream: "gs_watch c = WCloseStream \<Longrightarrow>
    watch_step ops c (c\<lparr>gs_stream := eo_Close ops (gs_stream c), gs_watch := WCloseConn\<rparr>)"
| stop_conn: "gs_watch c = WCloseConn \<Longrightarrow> watch_step ops c (c\<lparr>gs_conn := False, gs_watch := WCancel\<rparr>)"
| stop_context: "gs_watch c = WCancel \<Longrightarrow> watch_step ops c (c\<lparr>gs_cancelled := True, gs_watch := WEnd\<rparr>)"

text \<open>
  The backend works on the stream and may look at the context; the request's own context
  may be cancelled at any time, and the client may send a message at any time.
\<close>

inductive env_step :: "(bool \<Rightarrow> 's \<Rightarrow> 's \<Rightarrow> bool) \<Rightarrow> 's session \<Rightarrow> 's session \<Rightarrow> bool"
  for backend :: "bool \<Rightarrow> 's \<Rightarrow> 's \<Rightarrow> bool" where
  backend: "backend (gs_cancelled c) (gs_stream c) s \<Longrightarrow> env_step backend c (c\<lparr>gs_stream := s\<rparr>)"
| request_gone: "env_step backend c (c\<lparr>gs_cancelled := True\<rparr>)"
| client_sends: "env_step backend c (c\<lparr>gs_inbox := gs_inbox c @ [m]\<rparr>)"

definition session_step ::
    "'s exec_ops \<Rightarrow> (bytes \<Rightarrow> json option) \<Rightarrow> (bool \<Rightarrow> 's \<Rightarrow> 's \<Rightarrow> bool) \<Rightarrow> 's session \<Rightarrow> 's session \<Rightarrow> bool" where
  "session_step ops decode backend c c' \<longleftrightarrow>
     reader_step ops decode c c' \<or> pump_step ops c c' \<or> watch_step ops c c' \<or> env_step backend c c'"

abbreviation session_run ::
    "'s exec_ops \<Rightarrow> (bytes \<Rightarrow> json option) \<Rightarrow> (bool \<Rightarrow> 's \<Rightarrow> 's \<Rightarrow> bool) \<Rightarrow> 's session \<Rightarrow> 's session \<Rightarrow> bool" where
  "session_run ops decode backend \<equiv> (session_step ops decode backend)\<^sup>*\<^sup>*"

text \<open>The two backends: the exec goroutine, and the goroutine that closes an echo stream.\<close>

definition kube_backend :: "bool \<Rightarrow> kubeExecStream \<Rightarrow> kubeExecStream \<Rightarrow> bool" where
  "kube_backend cancelled s s' = exec_step cancelled s s'"

definition echo_backend :: "bool \<Rightarrow> echoStream \<Rightarrow> echoStream \<Rightarrow> bool" where
  "echo_backend cancelled s s' \<longleftrightarrow> cancelled \<and> s' = echo_Close s"

inductive_cases reader_stepE: "reader_step ops decode c c'"
inductive_cases pump_stepE: "pump_step ops c c'"
inductive_cases watch_stepE: "watch_step ops c c'"
inductive_cases env_stepE: "env_step backend c c'"

subsection \<open>What a session keeps\<close>

text \<open>
  What is done is not undone, and what reached its end stays there. \<open>session_order\<close> is the
  relation between a state and any later one.
\<close>

definition session_order :: "('s \<Rightarrow> bool) \<Rightarrow> 's session \<Rightarrow> 's session \<Rightarrow> bool" where
  "session_order shut c c' \<longleftrightarrow>
     (shut (gs_stream c) \<longrightarrow> shut (gs_stream c') \<and> gs_fed c' = gs_fed c) \<and>
     (\<not> gs_conn c \<longrightarrow> \<not> gs_conn c' \<and> gs_sent c' = gs_sent c \<and> gs_read c' = gs_read c) \<and>
     (gs_cancelled c \<longrightarrow> gs_cancelled c') \<and> (gs_stopped c \<longrightarrow> gs_stopped c')"

text \<open>
  The invariants. Of what was forwarded, each way: it is what came in, in order, but for the
  one in hand or lost at the end. Of each goroutine: what it has closed is closed.
\<close>

definition input_inv :: "'s session \<Rightarrow> bool" where
  "input_inv c =
     (case gs_reader c of
        RWrite p \<Rightarrow> gs_read c = gs_fed c @ [p]
      | RSelect \<Rightarrow> gs_read c = gs_fed c
      | RRead \<Rightarrow> gs_read c = gs_fed c
      | RControl p \<Rightarrow> gs_read c = gs_fed c
      | _ \<Rightarrow> (\<exists>lost. gs_read c = gs_fed c @ lost \<and> length lost \<le> 1))"

definition output_inv :: "'s session \<Rightarrow> bool" where
  "output_inv c =
     (case gs_pump c of
        PSend b \<Rightarrow> gs_received c = gs_sent c @ [b]
      | PRecv \<Rightarrow> gs_received c = gs_sent c
      | _ \<Rightarrow> (\<exists>lost. gs_received c = gs_sent c @ lost \<and> length lost \<le> 1))"

definition reader_closed :: "('s \<Rightarrow> bool) \<Rightarrow> 's session \<Rightarrow> bool" where
  "reader_closed shut c =
     (case gs_reader c of
        RCancel \<Rightarrow> shut (gs_stream c)
      | RCloseConn \<Rightarrow> shut (gs_stream c) \<and> gs_cancelled c
      | REnd \<Rightarrow> shut (gs_stream c) \<and> gs_cancelled c \<and> \<not> gs_conn c
      | _ \<Rightarrow> True)"

definition pump_closed :: "'s session \<Rightarrow> bool" where
  "pump_closed c = (case gs_pump c of PEnd \<Rightarrow> \<not> gs_conn c | PSignal \<Rightarrow> \<not> gs_conn c \<and> \<not> gs_done c | _ \<Rightarrow> \<not> gs_done c)"

definition watch_closed :: "('s \<Rightarrow> bool) \<Rightarrow> 's session \<Rightarrow> bool" where
  "watch_closed shut c =
     (case gs_watch c of
        WWait \<Rightarrow> \<not> gs_stopped c
      | WCloseStream \<Rightarrow> gs_stopped c
      | WCloseConn \<Rightarrow> gs_stopped c \<and> shut (gs_stream c)
      | WCancel \<Rightarrow> gs_stopped c \<and> shut (gs_stream c) \<and> \<not> gs_conn c
      | WEnd \<Rightarrow> gs_cancelled c \<and> (gs_stopped c \<longrightarrow> shut (gs_stream c) \<and> \<not> gs_conn c))"

definition session_inv :: "('s \<Rightarrow> bool) \<Rightarrow> 's session \<Rightarrow> bool" where
  "session_inv shut c \<longleftrightarrow>
     input_inv c \<and> output_inv c \<and> reader_closed shut c \<and> pump_closed c \<and> watch_closed shut c"

text \<open>What a step of one goroutine leaves alone, and what that keeps.\<close>

definition reader_view where "reader_view c = (gs_reader c, gs_read c, gs_fed c)"
definition pump_view where "pump_view c = (gs_pump c, gs_received c, gs_sent c, gs_done c)"
definition watch_view where "watch_view c = (gs_watch c, gs_stopped c)"

lemmas view_defs = reader_view_def pump_view_def watch_view_def

lemma input_frame: "reader_view c' = reader_view c \<Longrightarrow> input_inv c' = input_inv c"
  by (simp add: input_inv_def reader_view_def split: reader_pc.split)

lemma output_frame: "pump_view c' = pump_view c \<Longrightarrow> output_inv c' = output_inv c"
  by (simp add: output_inv_def pump_view_def split: pump_pc.split)

lemma reader_frame:
  "session_order shut c c' \<Longrightarrow> reader_view c' = reader_view c \<Longrightarrow> reader_closed shut c \<Longrightarrow> reader_closed shut c'"
  by (auto simp: reader_closed_def reader_view_def session_order_def split: reader_pc.splits)

lemma pump_frame:
  "session_order shut c c' \<Longrightarrow> pump_view c' = pump_view c \<Longrightarrow> pump_closed c \<Longrightarrow> pump_closed c'"
  by (auto simp: pump_closed_def pump_view_def session_order_def split: pump_pc.splits)

lemma watch_frame:
  "session_order shut c c' \<Longrightarrow> watch_view c' = watch_view c \<Longrightarrow> watch_closed shut c \<Longrightarrow> watch_closed shut c'"
  by (auto simp: watch_closed_def watch_view_def session_order_def split: watch_pc.splits)

lemmas session_frames = input_frame output_frame reader_frame pump_frame watch_frame

lemma reader_views: "reader_step ops decode c c' \<Longrightarrow> pump_view c' = pump_view c \<and> watch_view c' = watch_view c"
  by (erule reader_stepE) (simp_all add: view_defs)

lemma pump_views: "pump_step ops c c' \<Longrightarrow> reader_view c' = reader_view c \<and> watch_view c' = watch_view c"
  by (erule pump_stepE) (simp_all add: view_defs)

lemma watch_views: "watch_step ops c c' \<Longrightarrow> reader_view c' = reader_view c \<and> pump_view c' = pump_view c"
  by (erule watch_stepE) (simp_all add: view_defs split: if_splits)

lemma env_views:
  "env_step backend c c' \<Longrightarrow>
     reader_view c' = reader_view c \<and> pump_view c' = pump_view c \<and> watch_view c' = watch_view c"
  by (erule env_stepE) (simp_all add: view_defs)

lemma reader_input: "reader_step ops decode c c' \<Longrightarrow> input_inv c \<Longrightarrow> input_inv c'"
  by (erule reader_stepE) (simp_all add: input_inv_def)

lemma pump_output: "pump_step ops c c' \<Longrightarrow> output_inv c \<Longrightarrow> output_inv c'"
  by (erule pump_stepE) (simp_all add: output_inv_def)

lemma pump_closing: "pump_step ops c c' \<Longrightarrow> pump_closed c \<Longrightarrow> pump_closed c'"
  by (erule pump_stepE) (simp_all add: pump_closed_def)

subsection \<open>What a session promises\<close>

text \<open>
  The abstract session: two links, one each way. A link has a queue of messages that have
  arrived, holds at most one message that it took from the front of the queue, and gives it
  on before it takes the next. It takes none from a closed source, gives none to a closed
  sink, and drops a message only when it ends: the one it holds.
\<close>

record link =
  ln_queue :: "bytes list"
  ln_held :: "bytes option"
  ln_given :: "bytes list"
  ln_source :: bool   \<comment> \<open>open\<close>
  ln_sink :: bool     \<comment> \<open>open\<close>
  ln_over :: bool

inductive link_step :: "link \<Rightarrow> link \<Rightarrow> bool" where
  arrive: "link_step l (l\<lparr>ln_queue := ln_queue l @ [p]\<rparr>)"
| take_one: "\<not> ln_over l \<Longrightarrow> ln_source l \<Longrightarrow> ln_held l = None \<Longrightarrow> ln_queue l = p # rest \<Longrightarrow>
    link_step l (l\<lparr>ln_queue := rest, ln_held := Some p\<rparr>)"
| give_one: "\<not> ln_over l \<Longrightarrow> ln_sink l \<Longrightarrow> ln_held l = Some p \<Longrightarrow>
    link_step l (l\<lparr>ln_held := None, ln_given := ln_given l @ [p]\<rparr>)"
| end_link: "link_step l (l\<lparr>ln_held := None, ln_over := True\<rparr>)"
| close_source: "link_step l (l\<lparr>ln_source := False\<rparr>)"
| close_sink: "link_step l (l\<lparr>ln_sink := False\<rparr>)"

text \<open>
  The links of a session. The input link runs from the messages that wait on the connection to
  what the process was given, the output link from the channel of the exec to what the client
  was sent; \<open>taken\<close> and \<open>pending\<close> read the two off the stream.
\<close>

definition binaries :: "frame list \<Rightarrow> bytes list" where
  "binaries fs = concat (map (\<lambda>f. case f of Binary p \<Rightarrow> [p] | Text p \<Rightarrow> []) fs)"

definition input_link :: "('s \<Rightarrow> bool) \<Rightarrow> ('s \<Rightarrow> bytes list) \<Rightarrow> 's session \<Rightarrow> link" where
  "input_link shut taken c =
     \<lparr>ln_queue = binaries (gs_inbox c),
      ln_held = (case gs_reader c of RWrite p \<Rightarrow> Some p | _ \<Rightarrow> None),
      ln_given = taken (gs_stream c), ln_source = gs_conn c, ln_sink = (\<not> shut (gs_stream c)),
      ln_over = (gs_reader c \<in> {RCloseStream, RCancel, RCloseConn, REnd})\<rparr>"

definition output_link :: "('s \<Rightarrow> bytes list) \<Rightarrow> 's session \<Rightarrow> link" where
  "output_link pending c =
     \<lparr>ln_queue = pending (gs_stream c),
      ln_held = (case gs_pump c of PSend b \<Rightarrow> Some b | _ \<Rightarrow> None),
      ln_given = gs_sent c, ln_source = True, ln_sink = gs_conn c,
      ln_over = (gs_pump c \<in> {PCloseConn, PSignal, PEnd})\<rparr>"

definition link_move :: "link \<Rightarrow> link \<Rightarrow> bool" where
  "link_move l l' \<longleftrightarrow> l' = l \<or> link_step l l'"

lemma link_moves:
  "link_move l l"
  "l' = l\<lparr>ln_queue := ln_queue l @ [p]\<rparr> \<Longrightarrow> link_move l l'"
  "\<not> ln_over l \<Longrightarrow> ln_source l \<Longrightarrow> ln_held l = None \<Longrightarrow> ln_queue l = p # rest \<Longrightarrow>
     l' = l\<lparr>ln_queue := rest, ln_held := Some p\<rparr> \<Longrightarrow> link_move l l'"
  "\<not> ln_over l \<Longrightarrow> ln_sink l \<Longrightarrow> ln_held l = Some p \<Longrightarrow>
     l' = l\<lparr>ln_held := None, ln_given := ln_given l @ [p]\<rparr> \<Longrightarrow> link_move l l'"
  "l' = l\<lparr>ln_held := None, ln_over := True\<rparr> \<Longrightarrow> link_move l l'"
  "l' = l\<lparr>ln_source := False\<rparr> \<Longrightarrow> link_move l l'"
  "l' = l\<lparr>ln_sink := False\<rparr> \<Longrightarrow> link_move l l'"
  by (auto simp: link_move_def intro: link_step.intros)

lemma binaries_simps [simp]:
  "binaries [] = []" "binaries (Binary p # fs) = p # binaries fs" "binaries (Text p # fs) = binaries fs"
  "binaries (fs @ gs) = binaries fs @ binaries gs"
  by (simp_all add: binaries_def)

text \<open>
  How far the reader and the pump are from their ends once nothing is left to read from or
  to write to.
\<close>

definition reader_rank :: "reader_pc \<Rightarrow> nat" where
  "reader_rank pc = (case pc of RControl p \<Rightarrow> 6 | RSelect \<Rightarrow> 5 | RRead \<Rightarrow> 4 | RWrite p \<Rightarrow> 4
     | RCloseStream \<Rightarrow> 3 | RCancel \<Rightarrow> 2 | RCloseConn \<Rightarrow> 1 | REnd \<Rightarrow> 0)"

definition pump_rank :: "pump_pc \<Rightarrow> nat" where
  "pump_rank pc = (case pc of PRecv \<Rightarrow> 4 | PSend b \<Rightarrow> 3 | PCloseConn \<Rightarrow> 2 | PSignal \<Rightarrow> 1 | PEnd \<Rightarrow> 0)"

text \<open>A run, with the number of steps that the handler and the pump take in it.\<close>

abbreviation counted_run ::
    "'s exec_ops \<Rightarrow> (bytes \<Rightarrow> json option) \<Rightarrow> (bool \<Rightarrow> 's \<Rightarrow> 's \<Rightarrow> bool) \<Rightarrow> nat \<Rightarrow> 's session \<Rightarrow> 's session \<Rightarrow> bool" where
  "counted_run ops decode backend \<equiv>
     counted (\<lambda>b c. reader_step ops decode b c \<or> pump_step ops b c) (\<lambda>b c. watch_step ops b c \<or> env_step backend b c)"

definition gateway_rank :: "'s session \<Rightarrow> nat" where
  "gateway_rank c = reader_rank (gs_reader c) + pump_rank (gs_pump c)"

lemma gateway_rank_bound: "gateway_rank c \<le> 10"
  by (simp add: gateway_rank_def reader_rank_def pump_rank_def split: reader_pc.split pump_pc.split)

lemma ranks_kept:
  "reader_view c' = reader_view c \<Longrightarrow> pump_view c' = pump_view c \<Longrightarrow> gateway_rank c' = gateway_rank c"
  by (simp add: gateway_rank_def view_defs)

lemma pump_step_rank: "pump_step ops c c' \<Longrightarrow> \<not> gs_conn c \<Longrightarrow> pump_rank (gs_pump c') < pump_rank (gs_pump c)"
  by (erule pump_stepE) (simp_all add: pump_rank_def)

lemma some_outcome: "xs \<noteq> [] \<Longrightarrow> \<exists>r s. (r, s) \<in> set xs"
  by (cases xs) auto

lemma pump_progress:
  assumes "gs_pump c \<noteq> PEnd" and "gs_pump c = PRecv \<Longrightarrow> eo_Recv ops (gs_stream c) \<noteq> []"
  shows "\<exists>c'. pump_step ops c c'"
proof (cases "gs_pump c")
  case PRecv
  then obtain out s where "(out, s) \<in> set (eo_Recv ops (gs_stream c))"
    using some_outcome [OF assms(2)] by blast
  with PRecv show ?thesis by (cases out) (blast intro: pump_step.intros)+
qed (use assms in \<open>blast intro: pump_step.intros\<close>)+

locale terminal_session = exec_stream ops shut
  for ops :: "'s exec_ops" and shut :: "'s \<Rightarrow> bool" +
  fixes decode :: "bytes \<Rightarrow> json option" and backend :: "bool \<Rightarrow> 's \<Rightarrow> 's \<Rightarrow> bool"
  assumes backend_keeps: "backend cancelled s s' \<Longrightarrow> shut s \<Longrightarrow> shut s'"
begin

lemma reader_order: "reader_step ops decode c c' \<Longrightarrow> session_order shut c c'"
  by (erule reader_stepE)
    (auto simp: session_order_def close_closes resize_keeps write_keeps dest: closed_rejects)

lemma pump_order: "pump_step ops c c' \<Longrightarrow> session_order shut c c'"
  by (erule pump_stepE) (auto simp: session_order_def recv_keeps)

lemma watch_order: "watch_step ops c c' \<Longrightarrow> session_order shut c c'"
  by (erule watch_stepE) (auto simp: session_order_def close_closes)

lemma env_order: "env_step backend c c' \<Longrightarrow> session_order shut c c'"
  by (erule env_stepE) (auto simp: session_order_def backend_keeps)

lemma step_order: "session_step ops decode backend c c' \<Longrightarrow> session_order shut c c'"
  unfolding session_step_def using reader_order pump_order watch_order env_order by blast

lemma order_trans: "session_order shut a b \<Longrightarrow> session_order shut b c \<Longrightarrow> session_order shut a c"
  by (auto simp: session_order_def)

lemma run_order: "session_run ops decode backend c c' \<Longrightarrow> session_order shut c c'"
proof (induction rule: rtranclp_induct)
  case base
  then show ?case by (simp add: session_order_def)
next
  case (step y z)
  then show ?case using step_order order_trans by blast
qed

lemma start_inv: "session_inv shut (session_start s)"
  by (simp add: session_inv_def session_start_def input_inv_def output_inv_def reader_closed_def
      pump_closed_def watch_closed_def)

lemma reader_closing: "reader_step ops decode c c' \<Longrightarrow> reader_closed shut c \<Longrightarrow> reader_closed shut c'"
  by (erule reader_stepE) (simp_all add: reader_closed_def close_closes)

lemma watch_closing: "watch_step ops c c' \<Longrightarrow> watch_closed shut c \<Longrightarrow> watch_closed shut c'"
  by (erule watch_stepE) (simp_all add: watch_closed_def close_closes)

lemma reader_inv: "reader_step ops decode c c' \<Longrightarrow> session_inv shut c \<Longrightarrow> session_inv shut c'"
  using reader_order reader_views reader_input reader_closing session_frames
  unfolding session_inv_def by metis

lemma pump_inv: "pump_step ops c c' \<Longrightarrow> session_inv shut c \<Longrightarrow> session_inv shut c'"
  using pump_order pump_views pump_output pump_closing session_frames
  unfolding session_inv_def by metis

lemma watch_inv: "watch_step ops c c' \<Longrightarrow> session_inv shut c \<Longrightarrow> session_inv shut c'"
  using watch_order watch_views watch_closing session_frames
  unfolding session_inv_def by metis

lemma env_inv: "env_step backend c c' \<Longrightarrow> session_inv shut c \<Longrightarrow> session_inv shut c'"
  using env_order env_views session_frames
  unfolding session_inv_def by metis

lemma step_inv: "session_step ops decode backend c c' \<Longrightarrow> session_inv shut c \<Longrightarrow> session_inv shut c'"
  unfolding session_step_def using reader_inv pump_inv watch_inv env_inv by blast

lemma run_inv: "session_run ops decode backend (session_start s) c \<Longrightarrow> session_inv shut c"
  by (induction rule: rtranclp_induct) (auto intro: start_inv step_inv)

lemma reader_step_rank:
  assumes "reader_step ops decode c c'" "shut (gs_stream c)" "\<not> gs_conn c"
  shows "reader_rank (gs_reader c') < reader_rank (gs_reader c)"
  using assms by (cases rule: reader_step.cases) (auto simp: reader_rank_def dest: closed_rejects)

lemma reader_progress:
  assumes "gs_reader c \<noteq> REnd" "shut (gs_stream c)"
  shows "\<exists>c'. reader_step ops decode c c'"
proof (cases "gs_reader c")
  case (RWrite p)
  obtain r s where *: "(r, s) \<in> set (eo_Write ops p (gs_stream c))"
    using some_outcome [OF closed_answers [OF assms(2)]] by blast
  with RWrite show ?thesis by (cases r) (blast intro: reader_step.intros)+
next
  case (RControl p)
  then show ?thesis by (cases "handleControl (decode p)") (blast intro: reader_step.intros)+
qed (use assms in \<open>blast intro: reader_step.intros\<close>)+

lemma own_step_rank:
  assumes "reader_step ops decode b c \<or> pump_step ops b c" "shut (gs_stream b)" "\<not> gs_conn b"
  shows "gateway_rank c < gateway_rank b"
  using assms(1)
proof
  assume r: "reader_step ops decode b c"
  with reader_step_rank [OF r assms(2,3)] reader_views [OF r] show ?thesis
    by (simp add: gateway_rank_def pump_view_def)
next
  assume p: "pump_step ops b c"
  with pump_step_rank [OF p assms(3)] pump_views [OF p] show ?thesis
    by (simp add: gateway_rank_def reader_view_def)
qed

lemma counted_run_rank:
  assumes "counted_run ops decode backend n c c'" "shut (gs_stream c)" "\<not> gs_conn c"
  shows "shut (gs_stream c') \<and> \<not> gs_conn c'" and "n + gateway_rank c' \<le> gateway_rank c"
proof -
  let ?P = "\<lambda>c. shut (gs_stream c) \<and> \<not> gs_conn c"
  have keeps: "session_step ops decode backend b d \<Longrightarrow> ?P b \<Longrightarrow> ?P d" for b d
    using step_order [of b d] by (auto simp: session_order_def)
  have other: "watch_step ops b d \<or> env_step backend b d \<Longrightarrow> gateway_rank d = gateway_rank b" for b d
    using watch_views env_views by (intro ranks_kept) blast+
  have "?P c' \<and> int n + int (gateway_rank c') \<le> int (gateway_rank c)"
    using assms(1) conjI [OF assms(2,3)]
  proof (rule counted_rank)
    fix b d :: "'s session"
    assume b: "?P b"
    show "reader_step ops decode b d \<or> pump_step ops b d \<Longrightarrow> ?P d \<and> int (gateway_rank d) < int (gateway_rank b)"
      using keeps [of b d] own_step_rank [of b d] b by (auto simp: session_step_def)
    show "watch_step ops b d \<or> env_step backend b d \<Longrightarrow> ?P d \<and> int (gateway_rank d) \<le> int (gateway_rank b)"
      using keeps [of b d] other [of b d] b by (auto simp: session_step_def)
  qed
  then show "shut (gs_stream c') \<and> \<not> gs_conn c'" "n + gateway_rank c' \<le> gateway_rank c" by auto
qed

end

text \<open>
  A stream that shows what it was given and what it has yet to give out: writes and reads do
  what they say, and only the backend adds output.
\<close>

locale linked_session = terminal_session ops shut decode backend
  for ops :: "'s exec_ops" and shut :: "'s \<Rightarrow> bool" and decode :: "bytes \<Rightarrow> json option"
    and backend :: "bool \<Rightarrow> 's \<Rightarrow> 's \<Rightarrow> bool" +
  fixes taken :: "'s \<Rightarrow> bytes list" and pending :: "'s \<Rightarrow> bytes list"
  assumes write_takes: "(r, s') \<in> set (eo_Write ops p s) \<Longrightarrow>
        taken s' = (if r = Wrote then taken s @ [p] else taken s) \<and> pending s' = pending s"
    and recv_gives: "(out, s') \<in> set (eo_Recv ops s) \<Longrightarrow>
        taken s' = taken s \<and> pending s = (case out of Some b \<Rightarrow> b # pending s' | None \<Rightarrow> pending s')"
    and others_keep: "taken (eo_Resize ops sz s) = taken s" "pending (eo_Resize ops sz s) = pending s"
        "taken (eo_Close ops s) = taken s" "pending (eo_Close ops s) = pending s"
    and backend_emits: "backend x s s' \<Longrightarrow>
        taken s' = taken s \<and> (pending s' = pending s \<or> (\<exists>p. pending s' = pending s @ [p]))"
begin

lemmas link_defs = input_link_def output_link_def

lemma reader_links:
  assumes "reader_step ops decode c c'"
  shows "link_move (input_link shut taken c) (input_link shut taken c') \<and>
    link_move (output_link pending c) (output_link pending c')"
  using assms
proof (cases rule: reader_step.cases)
  case (wrote p s)
  then have "\<not> shut (gs_stream c)" "\<not> shut s" using closed_rejects write_keeps by blast+
  moreover have "taken s = taken (gs_stream c) @ [p]" "pending s = pending (gs_stream c)"
    using wrote write_takes by fastforce+
  ultimately show ?thesis using wrote by (auto simp: link_defs intro: link_moves)
next
  case (write_error p s)
  then have "shut s = shut (gs_stream c)" "taken s = taken (gs_stream c)" "pending s = pending (gs_stream c)"
    using write_keeps write_takes by fastforce+
  with write_error show ?thesis by (auto simp: link_defs intro: link_moves)
next
  case (write_panic p s)
  then have "shut s = shut (gs_stream c)" "taken s = taken (gs_stream c)" "pending s = pending (gs_stream c)"
    using write_keeps write_takes by fastforce+
  with write_panic show ?thesis by (auto simp: link_defs intro: link_moves)
qed (auto simp: link_defs resize_keeps close_closes others_keep intro: link_moves)

lemma pump_links:
  assumes "pump_step ops c c'"
  shows "link_move (input_link shut taken c) (input_link shut taken c') \<and>
    link_move (output_link pending c) (output_link pending c')"
  using assms
proof (cases rule: pump_step.cases)
  case (receive b s)
  then have "shut s = shut (gs_stream c)" "taken s = taken (gs_stream c)" "pending (gs_stream c) = b # pending s"
    using recv_keeps recv_gives by fastforce+
  with receive show ?thesis by (auto simp: link_defs intro: link_moves)
next
  case (output_closed s)
  then have "shut s = shut (gs_stream c)" "taken s = taken (gs_stream c)" "pending s = pending (gs_stream c)"
    using recv_keeps recv_gives by fastforce+
  with output_closed show ?thesis by (auto simp: link_defs intro: link_moves)
qed (auto simp: link_defs intro: link_moves)

lemma watch_links:
  "watch_step ops c c' \<Longrightarrow> link_move (input_link shut taken c) (input_link shut taken c') \<and>
     link_move (output_link pending c) (output_link pending c')"
  by (erule watch_stepE) (auto simp: link_defs close_closes others_keep intro: link_moves)

lemma env_links:
  assumes "env_step backend c c'"
  shows "link_move (input_link shut taken c) (input_link shut taken c') \<and>
    link_move (output_link pending c) (output_link pending c')"
  using assms
proof (cases rule: env_step.cases)
  case (backend s)
  then have "taken s = taken (gs_stream c)"
    and out: "pending s = pending (gs_stream c) \<or> (\<exists>p. pending s = pending (gs_stream c) @ [p])"
    using backend_emits by blast+
  then have "link_move (input_link shut taken c) (input_link shut taken c')"
    using backend backend_keeps [of "gs_cancelled c" "gs_stream c" s]
    by (cases "shut s = shut (gs_stream c)") (auto simp: link_defs intro: link_moves)
  moreover have "link_move (output_link pending c) (output_link pending c')"
    using out backend by (auto simp: link_defs intro: link_moves)
  ultimately show ?thesis by blast
next
  case (client_sends m)
  then show ?thesis by (cases m) (auto simp: link_defs intro: link_moves)
qed (auto simp: link_defs intro: link_moves)

lemma step_links:
  "session_step ops decode backend c c' \<Longrightarrow> link_move (input_link shut taken c) (input_link shut taken c') \<and>
     link_move (output_link pending c) (output_link pending c')"
  unfolding session_step_def using reader_links pump_links watch_links env_links by blast

end

subsection \<open>The two backends\<close>

interpretation kube_session: linked_session kube_ops ks_closed decode kube_backend ks_stdin ks_out for decode
  by unfold_locales
    (auto simp: kube_backend_def exec_step_closed kube_ops_defs split: if_splits list.splits
      dest: exec_step_output)

interpretation echo_session: terminal_session echo_ops ec_closed decode echo_backend for decode
  by unfold_locales (simp add: echo_backend_def echo_Close_def)

lemma links_run:
  assumes "step\<^sup>*\<^sup>* c c'" and "\<And>c c'. step c c' \<Longrightarrow> link_move (f c) (f c')"
  shows "link_step\<^sup>*\<^sup>* (f c) (f c')"
  using assms(1)
proof (induction rule: rtranclp_induct)
  case (step y z)
  from step.hyps(2) have "link_move (f y) (f z)" by (rule assms(2))
  with step show ?case by (auto simp: link_move_def intro: rtranclp.rtrancl_into_rtrancl)
qed simp

text \<open>
  A run with a message each way, and one that the watcher ends: the client types \<open>ls\<close>, the
  process answers, the session is deleted while the handler waits for the next message.
\<close>

definition no_control :: "bytes \<Rightarrow> json option" where "no_control p = None"

definition chat_stream :: kubeExecStream where
  "chat_stream = kube_stream_new\<lparr>ks_stdin := [''ls''], ks_out := []\<rparr>"

definition chat :: "kubeExecStream session" where
  "chat = (session_start chat_stream)\<lparr>gs_read := [''ls''], gs_fed := [''ls''],
     gs_received := [''bin''], gs_sent := [''bin'']\<rparr>"

definition chat_over :: "kubeExecStream session" where
  "chat_over = chat\<lparr>gs_stream := chat_stream\<lparr>ks_closed := True\<rparr>, gs_conn := False, gs_cancelled := True,
     gs_reader := RRead, gs_watch := WEnd, gs_stopped := True\<rparr>"

lemma run_snoc:
  assumes "session_run ops decode backend a b"
  shows run_reader: "reader_step ops decode b c \<Longrightarrow> session_run ops decode backend a c"
    and run_pump: "pump_step ops b c \<Longrightarrow> session_run ops decode backend a c"
    and run_watch: "watch_step ops b c \<Longrightarrow> session_run ops decode backend a c"
    and run_env: "env_step backend b c \<Longrightarrow> session_run ops decode backend a c"
  by (rule rtranclp.rtrancl_into_rtrancl [OF assms], simp add: session_step_def)+

lemmas chat_defs = chat_over_def chat_def chat_stream_def session_start_def kube_stream_new_def

lemma chat_run: "session_run kube_ops no_control kube_backend (session_start kube_stream_new) chat"
proof -
  let ?run = "session_run kube_ops no_control kube_backend (session_start kube_stream_new)"
  let ?c1 = "(session_start kube_stream_new)\<lparr>gs_reader := RRead\<rparr>"
  let ?c0 = "?c1\<lparr>gs_inbox := gs_inbox ?c1 @ [Binary ''ls'']\<rparr>"
  let ?c2 = "?c0\<lparr>gs_inbox := [], gs_reader := RWrite ''ls'', gs_read := gs_read ?c0 @ [''ls'']\<rparr>"
  let ?c3 = "?c2\<lparr>gs_stream := chat_stream, gs_fed := gs_fed ?c2 @ [''ls''], gs_reader := RSelect\<rparr>"
  let ?c4 = "?c3\<lparr>gs_stream := chat_stream\<lparr>ks_out := [''bin'']\<rparr>\<rparr>"
  let ?c5 = "?c4\<lparr>gs_stream := chat_stream, gs_pump := PSend ''bin'', gs_received := gs_received ?c4 @ [''bin'']\<rparr>"
  let ?c6 = "?c5\<lparr>gs_pump := PRecv, gs_sent := gs_sent ?c5 @ [''bin'']\<rparr>"
  have "?run (session_start kube_stream_new)" by simp
  then have "?run ?c1"
    by (rule run_reader) (rule reader_step.not_done; simp add: chat_defs)
  then have "?run ?c0" by (rule run_env) (rule env_step.client_sends)
  then have "?run ?c2"
    by (rule run_reader) (rule reader_step.read_binary; simp add: chat_defs)
  then have "?run ?c3"
    by (rule run_reader) (rule reader_step.wrote; simp add: chat_defs kube_ops_defs)
  then have "?run ?c4"
    by (rule run_env) (rule env_step.backend;
        simp add: kube_backend_def chat_defs exec_step.simps outputWriter_Write_def)
  then have "?run ?c5"
    by (rule run_pump) (rule pump_step.receive; simp add: chat_defs kube_ops_defs)
  then have "?run ?c6"
    by (rule run_pump) (rule pump_step.send; simp add: chat_defs)
  then show ?thesis by (simp add: chat_defs)
qed

lemma chat_over_run:
  "session_run kube_ops no_control kube_backend (session_start kube_stream_new) chat_over"
proof -
  let ?run = "session_run kube_ops no_control kube_backend (session_start kube_stream_new)"
  let ?c1 = "chat\<lparr>gs_reader := RRead\<rparr>"
  let ?c2 = "?c1\<lparr>gs_watch := WCloseStream, gs_stopped := True\<rparr>"
  let ?c3 = "?c2\<lparr>gs_stream := chat_stream\<lparr>ks_closed := True\<rparr>, gs_watch := WCloseConn\<rparr>"
  let ?c4 = "?c3\<lparr>gs_conn := False, gs_watch := WCancel\<rparr>"
  let ?c5 = "?c4\<lparr>gs_cancelled := True, gs_watch := WEnd\<rparr>"
  have "watch_step kube_ops ?c1 (if session_stopped (Inr None) then ?c2 else ?c1)"
    by (rule watch_step.tick) (simp add: chat_defs)
  then have tick: "watch_step kube_ops ?c1 ?c2" by (simp add: session_stopped_def)
  have close: "?c3 = ?c2\<lparr>gs_stream := eo_Close kube_ops (gs_stream ?c2), gs_watch := WCloseConn\<rparr>"
    by (simp add: chat_defs kube_ops_defs)
  from chat_run have "?run ?c1"
    by (rule run_reader) (rule reader_step.not_done; simp add: chat_defs)
  then have "?run ?c2" using tick by (rule run_watch)
  then have "?run ?c3" unfolding close
    by (rule run_watch) (rule watch_step.stop_stream; simp)
  then have "?run ?c4"
    by (rule run_watch) (rule watch_step.stop_conn; simp)
  then have "?run ?c5"
    by (rule run_watch) (rule watch_step.stop_context; simp)
  then show ?thesis by (simp add: chat_defs)
qed





text \<open>
  And then it may: when the request goes away while the process writes, the exec returns and
  closes the channel of the output under the goroutine that copies it, whose next chunk panics.
\<close>

lemma late_output_panics:
  "\<exists>c. session_run kube_ops no_control kube_backend (session_start kube_stream_new) c \<and>
     ks_panicked (gs_stream c)"
proof -
  let ?run = "session_run kube_ops no_control kube_backend (session_start kube_stream_new)"
  let ?c1 = "(session_start kube_stream_new)\<lparr>gs_cancelled := True\<rparr>"
  let ?c2 = "?c1\<lparr>gs_stream := kube_stream_new\<lparr>ks_finished := True\<rparr>\<rparr>"
  let ?c3 = "?c2\<lparr>gs_stream := kube_stream_new\<lparr>ks_finished := True, ks_panicked := True\<rparr>\<rparr>"
  have "?run (session_start kube_stream_new)" by simp
  then have "?run ?c1" by (rule run_env) (rule env_step.request_gone)
  then have "?run ?c2"
    by (rule run_env) (rule env_step.backend;
        simp add: kube_backend_def chat_defs exec_step.simps)
  then have "?run ?c3"
    by (rule run_env) (rule env_step.backend;
        simp add: kube_backend_def chat_defs exec_step.simps outputWriter_Write_def)
  then show ?thesis by (intro exI [of _ ?c3] conjI) (assumption, simp)
qed

subsection \<open>Properties of a terminal session\<close>

text \<open>
  Claim C5. Whatever order the handler, its pump, its watcher and the
  exec take turns in, a terminal session is two links: the binary messages that wait on the
  connection are taken in order and written to the process, and the chunks in the channel of
  the exec are taken in order and sent to the client. Each link holds at most one message, and
  gives it on before it takes the next; it takes nothing from a closed connection and gives nothing to a
  closed stream or connection. No message it took is dropped but the one in hand when it ends.
\<close>

theorem session_refines_links:
  assumes "session_run kube_ops decode kube_backend c c'"
  shows "link_step\<^sup>*\<^sup>* (input_link ks_closed ks_stdin c) (input_link ks_closed ks_stdin c') \<and>
    link_step\<^sup>*\<^sup>* (output_link ks_out c) (output_link ks_out c')"
  using assms
  by (blast intro: links_run [of "session_step kube_ops decode kube_backend"] dest: kube_session.step_links)

theorem session_refines_links_witness:
  "link_step\<^sup>*\<^sup>*
     \<lparr>ln_queue = [], ln_held = None, ln_given = [], ln_source = True, ln_sink = True, ln_over = False\<rparr>
     \<lparr>ln_queue = [], ln_held = None, ln_given = [''ls''], ln_source = False, ln_sink = False, ln_over = False\<rparr>"
  using session_refines_links [OF chat_over_run] by (simp add: input_link_def chat_defs)

text \<open>
  In every state a session over an exec can reach, the
  messages written to the process are a prefix of the binary messages read from the client,
  all of them while the handler waits for the next one and otherwise all but one at most; and
  the same holds of the chunks of output and what was sent to the client.
\<close>

theorem session_forwards_in_order:
  assumes "session_run kube_ops decode kube_backend (session_start s) c"
  shows "(\<exists>rest. gs_read c = gs_fed c @ rest \<and> length rest \<le> 1) \<and>
    (\<exists>rest. gs_received c = gs_sent c @ rest \<and> length rest \<le> 1) \<and>
    (gs_reader c = RRead \<longrightarrow> gs_fed c = gs_read c) \<and> (gs_pump c = PRecv \<longrightarrow> gs_sent c = gs_received c)"
proof -
  have "session_inv ks_closed c" using assms by (rule kube_session.run_inv)
  then have "input_inv c" "output_inv c" by (simp_all add: session_inv_def)
  then show ?thesis
    by (cases "gs_reader c"; cases "gs_pump c"; simp add: input_inv_def output_inv_def)
qed

theorem session_forwards_in_order_witness: "gs_fed chat_over = [''ls''] \<and> gs_sent chat_over = [''bin'']"
  using session_forwards_in_order [OF chat_over_run] by (simp add: chat_defs)

text \<open>
  From a state on in which the stream to the process is closed,
  nothing more is written to the process; from a state on in which the connection is closed,
  nothing more is read from the client or sent to it; and neither is ever open again, nor is
  the context ever live again once it was cancelled.
\<close>

theorem closed_session_silent:
  assumes "session_run kube_ops decode kube_backend c c'"
  shows "(ks_closed (gs_stream c) \<longrightarrow> ks_closed (gs_stream c') \<and> gs_fed c' = gs_fed c) \<and>
    (\<not> gs_conn c \<longrightarrow> \<not> gs_conn c' \<and> gs_read c' = gs_read c \<and> gs_sent c' = gs_sent c) \<and>
    (gs_cancelled c \<longrightarrow> gs_cancelled c')"
  using kube_session.run_order [OF assms] by (simp add: session_order_def)

theorem closed_session_silent_witness:
  "\<not> gs_conn (chat_over\<lparr>gs_reader := RCloseStream\<rparr>) \<and>
   gs_sent (chat_over\<lparr>gs_reader := RCloseStream\<rparr>) = [''bin'']"
proof -
  have "session_run kube_ops no_control kube_backend chat_over (chat_over\<lparr>gs_reader := RCloseStream\<rparr>)"
    by (rule run_reader [OF rtranclp.rtrancl_refl]) (rule reader_step.read_error; simp add: chat_defs)
  from closed_session_silent [OF this] show ?thesis by (simp add: chat_defs)
qed



text \<open>
  Claim C13. Once the watcher has closed the stream and the connection
  of a session that stopped, the handler and the pump together take at most ten more steps,
  in whatever order everything runs. The handler is never blocked on the way: it either has
  returned or can take a step; and the pump has returned, can take a step, or waits for an exec that
  has neither output left nor come to its end.
\<close>

theorem stopped_session_returns:
  assumes "session_run kube_ops decode kube_backend (session_start s) c"
    and "gs_stopped c" and "gs_watch c \<in> {WCancel, WEnd}"
    and "counted_run kube_ops decode kube_backend n c c'"
  shows "n \<le> 10 \<and> (gs_reader c' = REnd \<or> (\<exists>d. reader_step kube_ops decode c' d)) \<and>
    (gs_pump c' = PEnd \<or> (\<exists>d. pump_step kube_ops c' d) \<or>
      gs_pump c' = PRecv \<and> ks_out (gs_stream c') = [] \<and> \<not> ks_finished (gs_stream c'))"
proof -
  have "session_inv ks_closed c" using assms(1) by (rule kube_session.run_inv)
  with assms(2,3) have shut: "ks_closed (gs_stream c)" "\<not> gs_conn c"
    by (auto simp: session_inv_def watch_closed_def)
  have "n + gateway_rank c' \<le> gateway_rank c"
    by (rule kube_session.counted_run_rank(2) [OF assms(4) shut])
  then have "n \<le> 10" using gateway_rank_bound [of c] by linarith
  moreover have "ks_closed (gs_stream c')"
    using kube_session.counted_run_rank(1) [OF assms(4) shut] by simp
  then have "gs_reader c' = REnd \<or> (\<exists>d. reader_step kube_ops decode c' d)"
    using kube_session.reader_progress by blast
  moreover have "eo_Recv kube_ops (gs_stream c') \<noteq> []"
    if "\<not> (ks_out (gs_stream c') = [] \<and> \<not> ks_finished (gs_stream c'))"
    using that by (auto simp: kube_ops_defs split: list.split)
  then have "gs_pump c' = PEnd \<or> (\<exists>d. pump_step kube_ops c' d) \<or>
      gs_pump c' = PRecv \<and> ks_out (gs_stream c') = [] \<and> \<not> ks_finished (gs_stream c')"
    using pump_progress [of c' kube_ops] by blast
  ultimately show ?thesis by blast
qed

theorem stopped_session_returns_witness: "\<exists>d. reader_step kube_ops no_control chat_over d"
proof -
  have "gs_stopped chat_over" "gs_watch chat_over \<in> {WCancel, WEnd}" "gs_reader chat_over \<noteq> REnd"
    by (simp_all add: chat_defs)
  with stopped_session_returns [OF chat_over_run _ _ counted.none_taken] show ?thesis by blast
qed

end
