(* ===== verification/Cask_Isolation.thy ===== *)
theory Cask_Isolation
  imports Cask_Cluster
begin

text \<open>
  \<open>internal/isolation/isolation.go\<close>: the profiles that a session may name, how a profile
  is applied to a Pod, and the check that its runtime class exists.
\<close>

record Profile =
  pr_RuntimeClassName :: string
  pr_NodeSelector :: "(string \<times> string) list"
  pr_Tolerations :: "Toleration list"

definition zero_profile :: Profile where
  "zero_profile = \<lparr>pr_RuntimeClassName = [], pr_NodeSelector = [], pr_Tolerations = []\<rparr>"

type_synonym Profiles = "string \<rightharpoonup> Profile"

definition DefaultProfiles :: Profiles where
  "DefaultProfiles =
     [''default'' \<mapsto> zero_profile\<lparr>pr_RuntimeClassName := []\<rparr>,
      ''kata'' \<mapsto> zero_profile\<lparr>pr_RuntimeClassName := ''kata''\<rparr>]"

text \<open>The error is its text.\<close>

definition Resolve :: "Profiles \<Rightarrow> string \<Rightarrow> string + Profile" where
  "Resolve p name =
     (case p name of
        None \<Rightarrow> Inl (''unsupported isolation profile '' @ Quote name)
      | Some profile \<Rightarrow>
          (if name = [] then Inl (''unsupported isolation profile '' @ Quote name)
           else Inr profile))"

definition Apply :: "Profile \<Rightarrow> Pod \<Rightarrow> Pod" where
  "Apply p pod =
     (let spec = pod_Spec pod;
          spec = (if pr_RuntimeClassName p \<noteq> []
                  then spec\<lparr>ps_RuntimeClassName := Some (pr_RuntimeClassName p)\<rparr> else spec);
          spec = (if length (pr_NodeSelector p) > 0
                  then spec\<lparr>ps_NodeSelector := pr_NodeSelector p\<rparr> else spec);
          spec = (if length (pr_Tolerations p) > 0
                  then spec\<lparr>ps_Tolerations := [] @ pr_Tolerations p\<rparr> else spec)
      in pod\<lparr>pod_Spec := spec\<rparr>)"

text \<open>\<open>None\<close> is no error; the error is its text.\<close>

definition CheckRuntimeClass :: "'w cluster \<Rightarrow> Profile \<Rightarrow> 'w \<Rightarrow> string option \<times> 'w" where
  "CheckRuntimeClass K p w =
     (if pr_RuntimeClassName p = [] then (None, w)
      else (case k_RuntimeClassGet K (pr_RuntimeClassName p) w of
              (None, w') \<Rightarrow> (None, w')
            | (Some e, w') \<Rightarrow>
                (if IsNotFound e
                 then (Some (''runtimeclass '' @ Quote (pr_RuntimeClassName p) @ '' not found''), w')
                 else (Some (err_text e), w'))))"

subsection \<open>What applying a profile changes\<close>

lemma Apply_pod [simp]:
  "pod_Name (Apply p pod) = pod_Name pod" "pod_Namespace (Apply p pod) = pod_Namespace pod"
  "pod_Labels (Apply p pod) = pod_Labels pod"
  "pod_OwnerReferences (Apply p pod) = pod_OwnerReferences pod"
  "pod_Phase (Apply p pod) = pod_Phase pod"
  by (simp_all add: Apply_def Let_def)

lemma Apply_spec [simp]:
  "ps_RestartPolicy (pod_Spec (Apply p pod)) = ps_RestartPolicy (pod_Spec pod)"
  "ps_ServiceAccountName (pod_Spec (Apply p pod)) = ps_ServiceAccountName (pod_Spec pod)"
  "ps_Containers (pod_Spec (Apply p pod)) = ps_Containers (pod_Spec pod)"
  "ps_SeccompProfile (pod_Spec (Apply p pod)) = ps_SeccompProfile (pod_Spec pod)"
  "ps_HostNetwork (pod_Spec (Apply p pod)) = ps_HostNetwork (pod_Spec pod)"
  "ps_HostPID (pod_Spec (Apply p pod)) = ps_HostPID (pod_Spec pod)"
  "ps_HostIPC (pod_Spec (Apply p pod)) = ps_HostIPC (pod_Spec pod)"
  "ps_Volumes (pod_Spec (Apply p pod)) = ps_Volumes (pod_Spec pod)"
  by (simp_all add: Apply_def Let_def)

lemma Apply_placement:
  "ps_RuntimeClassName (pod_Spec (Apply p pod)) =
     (if pr_RuntimeClassName p = [] then ps_RuntimeClassName (pod_Spec pod)
      else Some (pr_RuntimeClassName p))"
  "ps_NodeSelector (pod_Spec (Apply p pod)) =
     (if pr_NodeSelector p = [] then ps_NodeSelector (pod_Spec pod) else pr_NodeSelector p)"
  "ps_Tolerations (pod_Spec (Apply p pod)) =
     (if pr_Tolerations p = [] then ps_Tolerations (pod_Spec pod) else pr_Tolerations p)"
  by (simp_all add: Apply_def Let_def)

lemma Resolve_Inr: "Resolve p name = Inr profile \<longleftrightarrow> p name = Some profile \<and> name \<noteq> []"
  by (auto simp: Resolve_def split: option.splits)

text \<open>Every profile the API accepts resolves with the controller's default profiles.\<close>

lemma Resolve_allowed:
  "name \<in> AllowedIsolationProfiles \<Longrightarrow> \<exists>profile. Resolve DefaultProfiles name = Inr profile"
  by (auto simp: AllowedIsolationProfiles_def DefaultProfiles_def Resolve_def)

end
