(* ===== verification/Cask_Token.thy ===== *)
theory Cask_Token
  imports Cask_Cluster
begin

text \<open>
  \<open>internal/modelproxy/token.go\<close>: session proxy tokens of the form
  \<open>cask-proxy.<session>.<expiry>.<signature>\<close>. The keyed hash (HMAC-SHA-256 of
  \<open>crypto/hmac\<close>) is a parameter \<open>mac key message\<close>: the theorems hold for every such
  function, so what they conclude rests on the token format alone.
\<close>

type_synonym mac = "string \<Rightarrow> string \<Rightarrow> string"

definition tokenPrefix :: string where "tokenPrefix = ''cask-proxy''"

definition DefaultTokenTTL :: duration where "DefaultTokenTTL = 2 * Hour"

text \<open>The clock \<open>m.now()\<close> is passed to the methods that read it.\<close>

record TokenManager =
  tm_Secret :: string
  tm_TTL :: duration

definition tm_secret :: "TokenManager \<Rightarrow> string" where
  "tm_secret m = (if tm_Secret m = [] then ''dev-session-proxy-secret'' else tm_Secret m)"

definition tm_ttl :: "TokenManager \<Rightarrow> duration" where
  "tm_ttl m = (if sint (tm_TTL m) > 0 then tm_TTL m else DefaultTokenTTL)"

definition GenerateUntil :: "mac \<Rightarrow> TokenManager \<Rightarrow> string \<Rightarrow> gtime \<Rightarrow> string" where
  "GenerateUntil mac m sessionID expiresAt =
     (let expiry = Unix expiresAt;
          payload = sessionID @ ''.'' @ FormatInt expiry;
          sig = base64 (mac (tm_secret m) payload)
      in tokenPrefix @ ''.'' @ sessionID @ ''.'' @ FormatInt expiry @ ''.'' @ sig)"

definition Generate :: "mac \<Rightarrow> TokenManager \<Rightarrow> gtime \<Rightarrow> string \<Rightarrow> string" where
  "Generate mac m now sessionID = GenerateUntil mac m sessionID (Add now (tm_ttl m))"

text \<open>The session, the expiry and whether the token is valid.\<close>

definition ValidateWithExpiry ::
    "mac \<Rightarrow> TokenManager \<Rightarrow> gtime \<Rightarrow> string \<Rightarrow> string \<times> gtime \<times> bool" where
  "ValidateWithExpiry mac m now token =
     (let parts = Split (CHR ''.'') token in
      if length parts \<noteq> 4 \<or> parts ! 0 \<noteq> tokenPrefix then ([], zero_time, False)
      else
        (case ParseInt (parts ! 2) of
           None \<Rightarrow> ([], zero_time, False)
         | Some expiry \<Rightarrow>
             (let expiresAt = UnixTime expiry in
              if \<not> Before now expiresAt then ([], expiresAt, False)
              else
                (let payload = parts ! 1 @ ''.'' @ parts ! 2;
                     expectedSig = base64 (mac (tm_secret m) payload);
                     expected = tokenPrefix @ ''.'' @ parts ! 1 @ ''.'' @ parts ! 2 @ ''.'' @ expectedSig
                 in if expected \<noteq> token then ([], expiresAt, False)
                    else (parts ! 1, expiresAt, True)))))"

definition TokenValidate :: "mac \<Rightarrow> TokenManager \<Rightarrow> gtime \<Rightarrow> string \<Rightarrow> string \<times> bool" where
  "TokenValidate mac m now token =
     (case ValidateWithExpiry mac m now token of (sessionID, _, ok) \<Rightarrow> (sessionID, ok))"

subsection \<open>The format\<close>

lemma tokenPrefix_no_dot: "CHR ''.'' \<notin> set tokenPrefix"
  by (simp add: tokenPrefix_def)

lemma Split_token:
  assumes "CHR ''.'' \<notin> set b" "CHR ''.'' \<notin> set c" "CHR ''.'' \<notin> set d"
  shows "Split (CHR ''.'') (tokenPrefix @ ''.'' @ b @ ''.'' @ c @ ''.'' @ d) = [tokenPrefix, b, c, d]"
  using assms tokenPrefix_no_dot by (simp add: Split_append_sep Split_no_sep)

lemma length_4: "length xs = 4 \<Longrightarrow> \<exists>a b c d. xs = [a, b, c, d]"
  by (auto simp: numeral_eq_Suc length_Suc_conv)

text \<open>A token with four parts, the first of them the prefix, is one of this shape.\<close>

lemma Split_token_conv:
  assumes "Split (CHR ''.'') token = [tokenPrefix, b, c, d]"
  shows "token = tokenPrefix @ ''.'' @ b @ ''.'' @ c @ ''.'' @ d"
  using Join_Split [of "CHR ''.''" token] by (simp add: assms)

lemma ValidateWithExpiry_parts:
  assumes "CHR ''.'' \<notin> set b" "CHR ''.'' \<notin> set c" "CHR ''.'' \<notin> set d" "ParseInt c = Some n"
  shows "ValidateWithExpiry mac m now (tokenPrefix @ ''.'' @ b @ ''.'' @ c @ ''.'' @ d) =
    (if \<not> Before now (UnixTime n) then ([], UnixTime n, False)
     else if d = base64 (mac (tm_secret m) (b @ ''.'' @ c)) then (b, UnixTime n, True)
     else ([], UnixTime n, False))"
  using Split_token [OF assms(1-3)] assms(4)
  by (auto simp: ValidateWithExpiry_def Let_def)

lemma GenerateUntil_validates:
  assumes "CHR ''.'' \<notin> set sid" "- (2 ^ 63) \<le> Unix till" "Unix till < 2 ^ 63 - 62135596800" "tm_secret m = tm_secret m'"
  shows "ValidateWithExpiry mac m' now (GenerateUntil mac m sid till) =
    (if nanos now < Unix till * 1000000000 then (sid, UnixTime (Unix till), True)
     else ([], UnixTime (Unix till), False))"
proof -
  have "ParseInt (FormatInt (Unix till)) = Some (Unix till)"
    using assms(2,3) by (intro ParseInt_FormatInt) simp_all
  from ValidateWithExpiry_parts [OF assms(1) FormatInt_no_dot base64_no_dot this] assms(4)
  show ?thesis using UnixTime_exact [OF assms(2,3)] by (simp add: GenerateUntil_def Let_def Before_def)
qed

lemma ValidateWithExpiry_TrueD:
  assumes "ValidateWithExpiry mac m now token = (sid, e, True)"
  shows "\<exists>c n. token = tokenPrefix @ ''.'' @ sid @ ''.'' @ c @ ''.'' @
      base64 (mac (tm_secret m) (sid @ ''.'' @ c)) \<and>
    CHR ''.'' \<notin> set sid \<and> CHR ''.'' \<notin> set c \<and> ParseInt c = Some n \<and> e = UnixTime n \<and> Before now e"
proof -
  from assms have "length (Split (CHR ''.'') token) = 4" "Split (CHR ''.'') token ! 0 = tokenPrefix"
    by (auto simp: ValidateWithExpiry_def Let_def split: if_splits)
  then obtain b c d where parts: "Split (CHR ''.'') token = [tokenPrefix, b, c, d]"
    using length_4 by fastforce
  note dots = Split_parts_no_sep [of _ "CHR ''.''" token, unfolded parts]
  from parts assms obtain n where n: "ParseInt c = Some n"
    by (auto simp: ValidateWithExpiry_def Let_def split: option.splits)
  have "token = tokenPrefix @ ''.'' @ b @ ''.'' @ c @ ''.'' @ d"
    by (rule Split_token_conv [OF parts])
  with assms ValidateWithExpiry_parts [OF dots dots dots n] n dots
  show ?thesis by (auto split: if_splits)
qed

subsection \<open>Properties\<close>

text \<open>
  Claim C30. Take a session whose name has no dot and an expiry that fits 64 bits and on
  which \<open>time.Unix\<close> does not wrap around, which holds up to 62135596800 seconds before the largest.
  The token generated for them validates, under the same secret, exactly before the expiry
  truncated to seconds, and gives back that session and that expiry.
\<close>

theorem token_roundtrip:
  assumes "CHR ''.'' \<notin> set sid" "- (2 ^ 63) \<le> Unix till" "Unix till < 2 ^ 63 - 62135596800"
  shows "ValidateWithExpiry mac m now (GenerateUntil mac m sid till) =
    (if nanos now < Unix till * 1000000000 then (sid, UnixTime (Unix till), True)
     else ([], UnixTime (Unix till), False))"
  by (rule GenerateUntil_validates [OF assms refl])

theorem token_roundtrip_witness:
  "ValidateWithExpiry (\<lambda>k s. k) \<lparr>tm_Secret = ''s'', tm_TTL = 0\<rparr> (UnixTime 5)
     (GenerateUntil (\<lambda>k s. k) \<lparr>tm_Secret = ''s'', tm_TTL = 0\<rparr> ''sess-1'' (UnixTime 9)) =
   (''sess-1'', UnixTime 9, True)"
  using token_roundtrip [of "''sess-1''" "UnixTime 9" "\<lambda>k s. k" "\<lparr>tm_Secret = ''s'', tm_TTL = 0\<rparr>"
      "UnixTime 5"]
  by (simp add: Unix_def UnixTime_def)

text \<open>
  Claim C6. Validation accepts a token only if it carries the keyed hash, under the manager's
  secret, of the very session and expiry text it names, and the clock is before that
  expiry. In particular no part of an accepted token can be changed without the hash of
  the new session and expiry.
\<close>

theorem token_authentic:
  assumes "ValidateWithExpiry mac m now token = (sid, e, True)"
  shows "\<exists>c n. token = tokenPrefix @ ''.'' @ sid @ ''.'' @ c @ ''.'' @
      base64 (mac (tm_secret m) (sid @ ''.'' @ c)) \<and>
    ParseInt c = Some n \<and> e = UnixTime n \<and> nanos now < n * 1000000000"
proof -
  obtain c n where c: "token = tokenPrefix @ ''.'' @ sid @ ''.'' @ c @ ''.'' @
      base64 (mac (tm_secret m) (sid @ ''.'' @ c))"
    "ParseInt c = Some n" "e = UnixTime n" "nanos now < nanos e"
    using ValidateWithExpiry_TrueD [OF assms] by (auto simp: Before_def)
  have "nanos e \<le> n * 1000000000" unfolding c(3) using ParseInt_bounds [OF c(2)] by (intro UnixTime_le) simp
  with c show ?thesis by (intro exI [of _ c] exI [of _ n]) simp
qed

theorem token_authentic_witness:
  "\<exists>c n. ''cask-proxy.s.9.'' = tokenPrefix @ ''.'' @ ''s'' @ ''.'' @ c @ ''.'' @
      base64 ((\<lambda>k s. []) (tm_secret \<lparr>tm_Secret = ''s'', tm_TTL = 0\<rparr>) (''s'' @ ''.'' @ c)) \<and>
    ParseInt c = Some n \<and> UnixTime 9 = UnixTime n \<and> nanos (UnixTime 5) < n * 1000000000"
proof -
  have "ValidateWithExpiry (\<lambda>k s. []) \<lparr>tm_Secret = ''s'', tm_TTL = 0\<rparr> (UnixTime 5) ''cask-proxy.s.9.'' =
      (''s'', UnixTime 9, True)"
    by code_simp
  from token_authentic [OF this] show ?thesis .
qed

text \<open>
  A token made under one secret is accepted by a manager with another secret only
  if the two keyed hashes of its payload are equal: the encoding of the signature loses
  nothing.
\<close>

theorem token_other_secret:
  assumes "CHR ''.'' \<notin> set sid" "- (2 ^ 63) \<le> Unix till" "Unix till < 2 ^ 63 - 62135596800"
    and "ValidateWithExpiry mac m' now (GenerateUntil mac m sid till) = (sid', e, True)"
  shows "sid' = sid \<and> mac (tm_secret m') (sid @ ''.'' @ FormatInt (Unix till)) =
    mac (tm_secret m) (sid @ ''.'' @ FormatInt (Unix till))"
proof -
  have "ParseInt (FormatInt (Unix till)) = Some (Unix till)"
    using assms(2,3) by (intro ParseInt_FormatInt) simp_all
  from assms(4) ValidateWithExpiry_parts [OF assms(1) FormatInt_no_dot base64_no_dot this]
  show ?thesis by (auto simp: GenerateUntil_def Let_def dest!: base64_inj split: if_splits)
qed

theorem token_other_secret_witness:
  "''sess-1'' = ''sess-1'' \<and> (\<lambda>k s. ''h'') (tm_secret \<lparr>tm_Secret = ''b'', tm_TTL = 0\<rparr>)
       (''sess-1'' @ ''.'' @ FormatInt (Unix (UnixTime 9))) =
     (\<lambda>k s. ''h'') (tm_secret \<lparr>tm_Secret = ''a'', tm_TTL = 0\<rparr>)
       (''sess-1'' @ ''.'' @ FormatInt (Unix (UnixTime 9)))"
proof (rule token_other_secret)
  show "CHR ''.'' \<notin> set ''sess-1''" by simp
  show "- (2 ^ 63) \<le> Unix (UnixTime 9)" "Unix (UnixTime 9) < 2 ^ 63 - 62135596800"
    by (simp_all add: Unix_def UnixTime_def)
  show "ValidateWithExpiry (\<lambda>k s. ''h'') \<lparr>tm_Secret = ''b'', tm_TTL = 0\<rparr> (UnixTime 5)
      (GenerateUntil (\<lambda>k s. ''h'') \<lparr>tm_Secret = ''a'', tm_TTL = 0\<rparr> ''sess-1'' (UnixTime 9)) =
    (''sess-1'', UnixTime 9, True)"
    by code_simp
qed

text \<open>
  A session whose name contains a dot, which Kubernetes allows in the names of
  custom resources, never gets a usable token: whatever is generated for it is rejected.
\<close>

theorem token_dotted_name:
  assumes "CHR ''.'' \<in> set sid"
  shows "ValidateWithExpiry mac m now (GenerateUntil mac m sid till) = ([], zero_time, False)"
proof -
  have "count_list (GenerateUntil mac m sid till) (CHR ''.'') > 3"
  proof -
    have "0 < count_list sid (CHR ''.'')" using assms
      by (metis count_list_0_iff neq0_conv)
    then show ?thesis by (simp add: GenerateUntil_def Let_def)
  qed
  then have "length (Split (CHR ''.'') (GenerateUntil mac m sid till)) \<noteq> 4"
    by (simp add: length_Split)
  then show ?thesis by (simp add: ValidateWithExpiry_def Let_def)
qed

theorem token_dotted_name_witness:
  "ValidateWithExpiry (\<lambda>k s. k) \<lparr>tm_Secret = ''s'', tm_TTL = 0\<rparr> (UnixTime 5)
     (GenerateUntil (\<lambda>k s. k) \<lparr>tm_Secret = ''s'', tm_TTL = 0\<rparr> ''team.alpha'' (UnixTime 9)) =
   ([], zero_time, False)"
  by (rule token_dotted_name) simp

end
