(* ===== verification/Cask_Controller.thy ===== *)
theory Cask_Controller
  imports Cask_Isolation Cask_Token Cask_Redact Cask_Kube
begin

text \<open>
  \<open>internal/controller/controller.go\<close>: the reconciliation of sessions. Both clients of the
  reconciler are the cluster \<open>rc_Cluster\<close>, whose operations may fail in any way and may let
  other clients act in between.
\<close>

subsection \<open>Configuration\<close>

record Config =
  cf_Namespace :: string
  cf_RuntimeImage :: string
  cf_ModelProxyURL :: string
  cf_TokenSecret :: string
  cf_Profiles :: "Profiles option"   \<comment> \<open>a map, nil when \<open>None\<close>\<close>
  cf_ReconcileInterval :: duration

definition DefaultRuntimeImage :: string where
  "DefaultRuntimeImage = ''agentcask/agent-runtime:dev''"

definition DefaultConfig :: Config where
  "DefaultConfig =
     \<lparr>cf_Namespace = DefaultSessionNamespace,
      cf_RuntimeImage = DefaultRuntimeImage,
      cf_ModelProxyURL =
        ''http://cask-model-proxy.agentcask-system.svc.cluster.local:8080/internal/model-proxy/v1'',
      cf_TokenSecret = ''dev-session-proxy-secret'',
      cf_Profiles = Some DefaultProfiles,
      cf_ReconcileInterval = 2 * Second\<rparr>"

record 'w reconciler =
  rc_Cluster :: "'w cluster"
  rc_Config :: Config
  rc_Now :: "('w \<Rightarrow> gtime) option"
  rc_Mac :: mac

definition rc_config :: "'w reconciler \<Rightarrow> Config" where
  "rc_config r =
     (let own = rc_Config r; cfg = DefaultConfig;
          cfg = (if cf_Namespace own \<noteq> [] then cfg\<lparr>cf_Namespace := cf_Namespace own\<rparr> else cfg);
          cfg = (if cf_RuntimeImage own \<noteq> [] then cfg\<lparr>cf_RuntimeImage := cf_RuntimeImage own\<rparr> else cfg);
          cfg = (if cf_ModelProxyURL own \<noteq> [] then cfg\<lparr>cf_ModelProxyURL := cf_ModelProxyURL own\<rparr> else cfg);
          cfg = (if cf_TokenSecret own \<noteq> [] then cfg\<lparr>cf_TokenSecret := cf_TokenSecret own\<rparr> else cfg);
          cfg = (if cf_Profiles own \<noteq> None then cfg\<lparr>cf_Profiles := cf_Profiles own\<rparr> else cfg);
          cfg = (if cf_ReconcileInterval own \<noteq> 0
                 then cfg\<lparr>cf_ReconcileInterval := cf_ReconcileInterval own\<rparr> else cfg)
      in cfg)"

text \<open>Looking up a name in a nil map finds nothing.\<close>

definition rc_profiles :: "Config \<Rightarrow> Profiles" where
  "rc_profiles cfg = (case cf_Profiles cfg of None \<Rightarrow> Map.empty | Some p \<Rightarrow> p)"

definition rc_namespace :: "'w reconciler \<Rightarrow> string" where
  "rc_namespace r = defaultString (cf_Namespace (rc_config r)) DefaultSessionNamespace"

definition rc_now :: "'w reconciler \<Rightarrow> 'w \<Rightarrow> gtime" where
  "rc_now r w = (case rc_Now r of Some f \<Rightarrow> f w | None \<Rightarrow> UTC (k_Now (rc_Cluster r) w))"

subsection \<open>Names, finalizers and times\<close>

definition PodName :: "string \<Rightarrow> string" where
  "PodName sessionID = ''agent-session-'' @ sessionID"

definition hasFinalizer :: "string list \<Rightarrow> string \<Rightarrow> bool" where
  "hasFinalizer vs finalizer \<longleftrightarrow> finalizer \<in> set vs"

definition removeFinalizer :: "string list \<Rightarrow> string \<Rightarrow> string list" where
  "removeFinalizer vs finalizer = filter (\<lambda>v. v \<noteq> finalizer) vs"

definition expiryTime :: "AgentSession \<Rightarrow> gtime option" where
  "expiryTime session =
     (case st_ExpiresAt (s_Status session) of
        Some e \<Rightarrow> Some e
      | None \<Rightarrow>
          (if IsZero (m_CreationTimestamp (s_Meta session)) \<or> sint (sp_TTLSeconds (s_Spec session)) \<le> 0
           then None
           else Some (Add (m_CreationTimestamp (s_Meta session))
                  (seconds (sp_TTLSeconds (s_Spec session))))))"

definition expired :: "AgentSession \<Rightarrow> gtime \<Rightarrow> bool" where
  "expired session now =
     (case expiryTime session of None \<Rightarrow> False | Some e \<Rightarrow> After now e)"

definition ensureStatusTimes ::
    "AgentSession \<Rightarrow> AgentSessionStatus \<Rightarrow> gtime \<Rightarrow> AgentSessionStatus" where
  "ensureStatusTimes session status now =
     (let created =
            (case st_CreatedAt status of
               Some c \<Rightarrow> c
             | None \<Rightarrow> (if IsZero (m_CreationTimestamp (s_Meta session)) then now
                        else m_CreationTimestamp (s_Meta session)));
          status = status\<lparr>st_CreatedAt := Some created\<rparr>
      in if st_ExpiresAt status = None \<and> sint (sp_TTLSeconds (s_Spec session)) > 0
         then status\<lparr>st_ExpiresAt := Some (Add created (seconds (sp_TTLSeconds (s_Spec session))))\<rparr>
         else status)"

subsection \<open>The Pod of a session\<close>

definition resource_table :: "string \<rightharpoonup> resource_list" where
  "resource_table =
     [''small'' \<mapsto> [(''cpu'', ''50m''), (''memory'', ''256Mi''), (''ephemeral-storage'', ''512Mi'')],
      ''medium'' \<mapsto> [(''cpu'', ''250m''), (''memory'', ''512Mi''), (''ephemeral-storage'', ''1Gi'')],
      ''large'' \<mapsto> [(''cpu'', ''500m''), (''memory'', ''1Gi''), (''ephemeral-storage'', ''2Gi'')]]"

definition resourcesFor :: "string \<Rightarrow> ResourceRequirements" where
  "resourcesFor profile =
     (let limits = (case resource_table profile of
                      Some l \<Rightarrow> l
                    | None \<Rightarrow> the (resource_table ''small''))
      in \<lparr>rr_Requests = limits, rr_Limits = limits\<rparr>)"

definition pod_env :: "string \<Rightarrow> string \<Rightarrow> EnvVar list" where
  "pod_env url token =
     [\<lparr>ev_Name = ''HOME'', ev_Value = ''/tmp/cask''\<rparr>,
      \<lparr>ev_Name = ''XDG_CACHE_HOME'', ev_Value = ''/tmp/cask/.cache''\<rparr>,
      \<lparr>ev_Name = ''XDG_CONFIG_HOME'', ev_Value = ''/tmp/cask/.config''\<rparr>,
      \<lparr>ev_Name = ''XDG_DATA_HOME'', ev_Value = ''/tmp/cask/.local/share''\<rparr>,
      \<lparr>ev_Name = ''OPENCODE_DISABLE_AUTOUPDATE'', ev_Value = ''true''\<rparr>,
      \<lparr>ev_Name = ''CASK_MODEL_BASE_URL'', ev_Value = url\<rparr>,
      \<lparr>ev_Name = ''CASK_SESSION_TOKEN'', ev_Value = token\<rparr>,
      \<lparr>ev_Name = ''OPENAI_BASE_URL'', ev_Value = url\<rparr>,
      \<lparr>ev_Name = ''ANTHROPIC_BASE_URL'', ev_Value = url\<rparr>,
      \<lparr>ev_Name = ''OPENAI_API_KEY'', ev_Value = token\<rparr>,
      \<lparr>ev_Name = ''ANTHROPIC_API_KEY'', ev_Value = token\<rparr>]"

text \<open>When the token of a session ends; \<open>clock\<close> is what \<open>time.Now\<close> reads.\<close>

definition token_expiry :: "AgentSession \<Rightarrow> gtime \<Rightarrow> gtime" where
  "token_expiry session clock =
     (case expiryTime session of
        Some e \<Rightarrow> e
      | None \<Rightarrow>
          (let ttl = sp_TTLSeconds (s_Spec session);
               ttl = (if sint ttl \<le> 0 then 7200 else ttl)   \<comment> \<open>\<open>DefaultTokenTTL / time.Second\<close>\<close>
           in Add (UTC clock) (seconds ttl)))"

definition BuildPod ::
    "mac \<Rightarrow> AgentSession \<Rightarrow> Config \<Rightarrow> Profile \<Rightarrow> gtime \<Rightarrow> Pod" where
  "BuildPod mac session cfg profile clock =
     (let image = defaultString (cf_RuntimeImage cfg) (cf_RuntimeImage DefaultConfig);
          url = defaultString (cf_ModelProxyURL cfg) (cf_ModelProxyURL DefaultConfig);
          token = GenerateUntil mac \<lparr>tm_Secret = cf_TokenSecret cfg, tm_TTL = 0\<rparr>
                    (s_Name session) (token_expiry session clock);
          pod = \<lparr>pod_Name = PodName (s_Name session),
            pod_Namespace = m_Namespace (s_Meta session),
            pod_Labels = [(LabelComponent, ''agent-session''),
                          (LabelSessionID, s_Name session),
                          (LabelUserID, s_UserID session)],
            pod_OwnerReferences =
              [\<lparr>or_APIVersion = GroupVersion, or_Kind = Kind, or_Name = s_Name session,
                or_UID = m_UID (s_Meta session)\<rparr>],
            pod_Spec = \<lparr>ps_RestartPolicy = ''Never'',
              ps_ServiceAccountName = ''agent-session'',
              ps_Containers =
                [\<lparr>c_Name = ContainerName,
                  c_Image = image,
                  c_ImagePullPolicy = ''IfNotPresent'',
                  c_Command = [''/bin/sh'', ''-lc'', ''trap : TERM INT; while true; do sleep 3600; done''],
                  c_Stdin = True,
                  c_TTY = True,
                  c_Env = pod_env url token,
                  c_Resources = resourcesFor (sp_ResourceProfile (s_Spec session)),
                  c_SecurityContext =
                    \<lparr>sc_Privileged = None, sc_RunAsNonRoot = Some True, sc_RunAsUser = Some 65532,
                     sc_RunAsGroup = Some 65532, sc_AllowPrivilegeEscalation = Some False,
                     sc_ReadOnlyRootFilesystem = Some False, sc_DropCapabilities = [''ALL''],
                     sc_AddCapabilities = []\<rparr>\<rparr>],
              ps_SeccompProfile = Some ''RuntimeDefault'',
              ps_RuntimeClassName = None, ps_NodeSelector = [], ps_Tolerations = [],
              ps_HostNetwork = False, ps_HostPID = False, ps_HostIPC = False, ps_Volumes = []\<rparr>,
            pod_Phase = []\<rparr>
      in Apply profile pod)"

subsection \<open>Reconciliation\<close>

definition rc_patch_status ::
    "'w reconciler \<Rightarrow> string \<Rightarrow> AgentSessionStatus \<Rightarrow> 'w \<Rightarrow> kerr option \<times> 'w" where
  "rc_patch_status r = PatchStatus (rc_Cluster r) (rc_namespace r)"

definition rc_patch_finalizers ::
    "'w reconciler \<Rightarrow> string \<Rightarrow> string list \<Rightarrow> 'w \<Rightarrow> kerr option \<times> 'w" where
  "rc_patch_finalizers r = PatchFinalizers (rc_Cluster r) (rc_namespace r)"

definition deletePod :: "'w reconciler \<Rightarrow> string \<Rightarrow> 'w \<Rightarrow> kerr option \<times> 'w" where
  "deletePod r sessionID w =
     (case k_PodDelete (rc_Cluster r) (rc_namespace r) (PodName sessionID) w of
        (Some err, w') \<Rightarrow> (if IsNotFound err then (None, w') else (Some err, w'))
      | (None, w') \<Rightarrow> (None, w'))"

definition cleanup :: "'w reconciler \<Rightarrow> AgentSession \<Rightarrow> 'w \<Rightarrow> kerr option \<times> 'w" where
  "cleanup r session w =
     (case deletePod r (s_Name session) w of
        (_, w') \<Rightarrow>
          rc_patch_finalizers r (s_Name session)
            (removeFinalizer (m_Finalizers (s_Meta session)) Finalizer) w')"

definition fail_session ::
    "'w reconciler \<Rightarrow> AgentSession \<Rightarrow> string \<Rightarrow> string \<Rightarrow> 'w \<Rightarrow> kerr option \<times> 'w" where
  "fail_session r session reason message w =
     (let status = (s_Status session)\<lparr>st_Phase := PhaseFailed, st_Reason := reason,
                      st_Message := redact_String message, st_TerminalReady := False\<rparr>;
          status = ensureStatusTimes session status (rc_now r w)
      in rc_patch_status r (s_Name session) status w)"

text \<open>The branch for a session that is over.\<close>

definition expire_session :: "'w reconciler \<Rightarrow> AgentSession \<Rightarrow> 'w \<Rightarrow> kerr option \<times> 'w" where
  "expire_session r session w =
     (case deletePod r (s_Name session) w of
        (_, w') \<Rightarrow>
          (let status = (s_Status session)\<lparr>st_Phase := PhaseExpired, st_Reason := ReasonExpired,
                           st_Message := ''session ttl expired'', st_TerminalReady := False\<rparr>;
               status = ensureStatusTimes session status (rc_now r w')
           in rc_patch_status r (s_Name session) status w'))"

text \<open>The branch for a session without a Pod.\<close>

definition create_pod ::
    "'w reconciler \<Rightarrow> AgentSession \<Rightarrow> Profile \<Rightarrow> 'w \<Rightarrow> kerr option \<times> 'w" where
  "create_pod r session profile w =
     (let pod = BuildPod (rc_Mac r) session (rc_config r) profile (k_Now (rc_Cluster r) w) in
      case k_PodCreate (rc_Cluster r) (rc_namespace r) pod w of
        (Inl err, w') \<Rightarrow> fail_session r session ReasonPodCreateFailed (err_text err) w'
      | (Inr _, w') \<Rightarrow>
          (let status = (s_Status session)\<lparr>st_Phase := PhaseProvisioning,
                           st_PodName := PodName (s_Name session),
                           st_ContainerName := ContainerName, st_TerminalReady := False\<rparr>;
               status = ensureStatusTimes session status (rc_now r w')
           in rc_patch_status r (s_Name session) status w'))"

text \<open>The branch for a session whose Pod exists.\<close>

definition report_pod ::
    "'w reconciler \<Rightarrow> AgentSession \<Rightarrow> Pod \<Rightarrow> 'w \<Rightarrow> kerr option \<times> 'w" where
  "report_pod r session pod w =
     (let status = (s_Status session)\<lparr>st_PodName := PodName (s_Name session),
                      st_ContainerName := ContainerName\<rparr>;
          status = (if pod_Phase pod = ''Running'' \<or> pod_Phase pod = ''Succeeded''
                    then status\<lparr>st_Phase := PhaseRunning, st_TerminalReady := True\<rparr>
                    else status\<lparr>st_Phase := PhaseProvisioning, st_TerminalReady := False\<rparr>);
          status = ensureStatusTimes session status (rc_now r w)
      in rc_patch_status r (s_Name session) status w)"

text \<open>From the resolution of the isolation profile on.\<close>

definition provision :: "'w reconciler \<Rightarrow> AgentSession \<Rightarrow> 'w \<Rightarrow> kerr option \<times> 'w" where
  "provision r session w =
     (case Resolve (rc_profiles (rc_config r)) (iso_Profile (sp_Isolation (s_Spec session))) of
        Inl err \<Rightarrow> fail_session r session ReasonUnsupportedIsolationProfile err w
      | Inr profile \<Rightarrow>
          (case CheckRuntimeClass (rc_Cluster r) profile w of
             (Some err, w) \<Rightarrow> fail_session r session ReasonRuntimeClassNotFound err w
           | (None, w) \<Rightarrow>
               (case k_PodGet (rc_Cluster r) (rc_namespace r) (PodName (s_Name session)) w of
                  (Inl err, w) \<Rightarrow>
                    (if IsNotFound err then create_pod r session profile w else (Some err, w))
                | (Inr pod, w) \<Rightarrow> report_pod r session pod w)))"

definition Reconcile :: "'w reconciler \<Rightarrow> string \<Rightarrow> 'w \<Rightarrow> kerr option \<times> 'w" where
  "Reconcile r name w =
     (case k_Get (rc_Cluster r) (rc_namespace r) name w of
        (Inl err, w) \<Rightarrow> (if IsNotFound err then (None, w) else (Some err, w))
      | (Inr u, w) \<Rightarrow>
          (case FromUnstructured (rc_Cluster r) (Some u) of
             Inl err \<Rightarrow> (Some err, w)
           | Inr session \<Rightarrow>
               (if m_DeletionTimestamp (s_Meta session) \<noteq> None then cleanup r session w
                else
                  (case (if hasFinalizer (m_Finalizers (s_Meta session)) Finalizer then (None, w)
                         else rc_patch_finalizers r (s_Name session)
                                (m_Finalizers (s_Meta session) @ [Finalizer]) w) of
                     (Some err, w) \<Rightarrow> (Some err, w)
                   | (None, w) \<Rightarrow>
                       (if expired session (rc_now r w) then expire_session r session w
                        else provision r session w)))))"

subsection \<open>The control loop\<close>

text \<open>The lines that a round prints; an error of one session does not stop the others.\<close>

fun reconcile_items ::
    "'w reconciler \<Rightarrow> string list \<Rightarrow> 'w \<Rightarrow> string list \<times> 'w" where
  "reconcile_items r [] w = ([], w)"
| "reconcile_items r (n # ns) w =
     (case Reconcile r n w of
        (err, w) \<Rightarrow>
          (case reconcile_items r ns w of
             (out, w) \<Rightarrow>
               (case err of
                  None \<Rightarrow> out
                | Some e \<Rightarrow> (''reconcile '' @ n @ '' failed: '' @ redact_String (err_text e)) # out, w)))"

definition reconcileAll :: "'w reconciler \<Rightarrow> 'w \<Rightarrow> kerr option \<times> string list \<times> 'w" where
  "reconcileAll r w =
     (case k_List (rc_Cluster r) (rc_namespace r) 0 w of
        (Inl err, w) \<Rightarrow> (Some err, [], w)
      | (Inr items, w) \<Rightarrow>
          (case reconcile_items r (map (k_Name (rc_Cluster r)) items) w of
             (out, w) \<Rightarrow> (None, out, w)))"

definition run_interval :: "'w reconciler \<Rightarrow> duration" where
  "run_interval r =
     (let interval = cf_ReconcileInterval (rc_config r)
      in if sint interval \<le> 0 then 2 * Second else interval)"

text \<open>One turn of the loop of \<open>Run\<close>: what it prints and the world after it.\<close>

definition run_round :: "'w reconciler \<Rightarrow> 'w \<Rightarrow> string list \<times> 'w" where
  "run_round r w =
     (case reconcileAll r w of
        (None, out, w) \<Rightarrow> (out, w)
      | (Some e, out, w) \<Rightarrow>
          (out @ [''controller reconcile error: '' @ redact_String (err_text e)], w))"

text \<open>
  \<open>Run\<close> with both clients, when the context is cancelled after as many ticks as the list is long:
  its functions are what happens in the cluster between two rounds.
\<close>

fun Run :: "'w reconciler \<Rightarrow> ('w \<Rightarrow> 'w) list \<Rightarrow> 'w \<Rightarrow> string list \<times> 'w" where
  "Run r [] w = run_round r w"
| "Run r (f # fs) w =
     (case run_round r w of
        (out, w) \<Rightarrow> (case Run r fs (f w) of (out', w) \<Rightarrow> (out @ out', w)))"

subsection \<open>The calls of a reconciliation\<close>

text \<open>The reconciler on the recording cluster, and the calls it makes.\<close>

definition logged_rc :: "'w reconciler \<Rightarrow> ('w \<times> call list) reconciler" where
  "logged_rc r =
     \<lparr>rc_Cluster = logged (rc_Cluster r), rc_Config = rc_Config r,
      rc_Now = map_option (\<lambda>f. f \<circ> fst) (rc_Now r), rc_Mac = rc_Mac r\<rparr>"

definition calls_of :: "'w reconciler \<Rightarrow> string \<Rightarrow> 'w \<Rightarrow> call list" where
  "calls_of r name w = snd (snd (Reconcile (logged_rc r) name (w, [])))"

lemma logged_rc_simps [simp]:
  "rc_Cluster (logged_rc r) = logged (rc_Cluster r)" "rc_Mac (logged_rc r) = rc_Mac r"
  "rc_config (logged_rc r) = rc_config r" "rc_namespace (logged_rc r) = rc_namespace r"
  by (simp_all add: logged_rc_def rc_config_def rc_namespace_def)

lemma rc_now_logged [simp]: "rc_now (logged_rc r) (w, cs) = rc_now r w"
  by (simp add: rc_now_def logged_rc_def logged_def split: option.split)

lemma logged_calls [simp]:
  "k_Get (logged K) ns n (w, cs) = (case k_Get K ns n w of (x, w') \<Rightarrow> (x, (w', cs @ [CGet ns n])))"
  "k_Patch (logged K) ns n p sub (w, cs) =
    (case k_Patch K ns n p sub w of (x, w') \<Rightarrow> (x, (w', cs @ [CPatch ns n p sub])))"
  "k_PodGet (logged K) ns n (w, cs) = (case k_PodGet K ns n w of (x, w') \<Rightarrow> (x, (w', cs @ [CPodGet ns n])))"
  "k_PodCreate (logged K) ns pod (w, cs) =
    (case k_PodCreate K ns pod w of (x, w') \<Rightarrow> (x, (w', cs @ [CPodCreate ns pod])))"
  "k_PodDelete (logged K) ns n (w, cs) =
    (case k_PodDelete K ns n w of (y, w') \<Rightarrow> (y, (w', cs @ [CPodDelete ns n])))"
  "k_RuntimeClassGet (logged K) n (w, cs) =
    (case k_RuntimeClassGet K n w of (y, w') \<Rightarrow> (y, (w', cs @ [CRuntimeClassGet n])))"
  "k_Now (logged K) (w, cs) = k_Now K w"
  by (simp_all add: logged_def log_call_def)

lemma logged_accessors [simp]:
  "k_NestedMap (logged K) = k_NestedMap K" "k_Name (logged K) = k_Name K"
  "k_Namespace (logged K) = k_Namespace K" "k_UID (logged K) = k_UID K"
  "k_Labels (logged K) = k_Labels K" "k_Finalizers (logged K) = k_Finalizers K"
  "k_CreationTimestamp (logged K) = k_CreationTimestamp K"
  "k_DeletionTimestamp (logged K) = k_DeletionTimestamp K" "k_oor (logged K) = k_oor K"
  by (simp_all add: logged_def)

lemma FromUnstructured_logged [simp]: "FromUnstructured (logged K) p = FromUnstructured K p"
  unfolding FromUnstructured_def SpecFromMap_def nested_or_nil_def logged_accessors by (rule refl)

lemma patch_status_logged:
  "rc_patch_status (logged_rc r) n st (w, cs) =
    (case rc_patch_status r n st w of
       (e, w') \<Rightarrow> (e, (w', cs @ [CPatch (rc_namespace r) n (status_patch st) [''status'']])))"
  by (simp add: rc_patch_status_def PatchStatus_def patch_error_def split: prod.split sum.split)

lemma patch_finalizers_logged:
  "rc_patch_finalizers (logged_rc r) n fs (w, cs) =
    (case rc_patch_finalizers r n fs w of
       (e, w') \<Rightarrow> (e, (w', cs @ [CPatch (rc_namespace r) n (finalizers_patch fs) []])))"
  by (simp add: rc_patch_finalizers_def PatchFinalizers_def patch_error_def split: prod.split sum.split)

lemma deletePod_logged:
  "deletePod (logged_rc r) sid (w, cs) =
    (case deletePod r sid w of
       (e, w') \<Rightarrow> (e, (w', cs @ [CPodDelete (rc_namespace r) (PodName sid)])))"
  by (simp add: deletePod_def split: prod.split option.split)

lemmas logged_steps = patch_status_logged patch_finalizers_logged deletePod_logged

text \<open>The status that a branch writes, and the call that writes it.\<close>

definition status_call :: "'w reconciler \<Rightarrow> AgentSession \<Rightarrow> AgentSessionStatus \<Rightarrow> call" where
  "status_call r s st = CPatch (rc_namespace r) (s_Name s) (status_patch st) [''status'']"

definition failed_status :: "AgentSession \<Rightarrow> string \<Rightarrow> string \<Rightarrow> gtime \<Rightarrow> AgentSessionStatus" where
  "failed_status s reason message now = ensureStatusTimes s
     ((s_Status s)\<lparr>st_Phase := PhaseFailed, st_Reason := reason,
        st_Message := redact_String message, st_TerminalReady := False\<rparr>) now"

definition expired_status :: "AgentSession \<Rightarrow> gtime \<Rightarrow> AgentSessionStatus" where
  "expired_status s now = ensureStatusTimes s
     ((s_Status s)\<lparr>st_Phase := PhaseExpired, st_Reason := ReasonExpired,
        st_Message := ''session ttl expired'', st_TerminalReady := False\<rparr>) now"

definition provisioning_status :: "AgentSession \<Rightarrow> gtime \<Rightarrow> AgentSessionStatus" where
  "provisioning_status s now = ensureStatusTimes s
     ((s_Status s)\<lparr>st_Phase := PhaseProvisioning, st_PodName := PodName (s_Name s),
        st_ContainerName := ContainerName, st_TerminalReady := False\<rparr>) now"

lemma snd_case_prod: "snd (case x of (a, b) \<Rightarrow> f a b) = snd (f (fst x) (snd x))"
  by (simp add: case_prod_beta)

definition running_status :: "AgentSession \<Rightarrow> gtime \<Rightarrow> AgentSessionStatus" where
  "running_status s now = ensureStatusTimes s
     ((s_Status s)\<lparr>st_Phase := PhaseRunning, st_PodName := PodName (s_Name s),
        st_ContainerName := ContainerName, st_TerminalReady := True\<rparr>) now"

lemma fail_session_calls:
  "snd (snd (fail_session (logged_rc r) s reason msg (w, cs))) =
    cs @ [status_call r s (failed_status s reason msg (rc_now r w))]"
  by (simp add: fail_session_def logged_steps status_call_def failed_status_def case_prod_beta Let_def)

lemma deletePod_world: "snd (deletePod r sid w) = snd (k_PodDelete (rc_Cluster r) (rc_namespace r) (PodName sid) w)"
  by (simp add: deletePod_def split: prod.split option.split)

lemma expire_session_calls:
  "snd (snd (expire_session (logged_rc r) s (w, cs))) =
    cs @ [CPodDelete (rc_namespace r) (PodName (s_Name s)),
      status_call r s (expired_status s
        (rc_now r (snd (k_PodDelete (rc_Cluster r) (rc_namespace r) (PodName (s_Name s)) w))))]"
  by (simp add: expire_session_def logged_steps status_call_def expired_status_def case_prod_beta Let_def
      deletePod_world)

lemma cleanup_calls:
  "snd (snd (cleanup (logged_rc r) s (w, cs))) =
    cs @ [CPodDelete (rc_namespace r) (PodName (s_Name s)),
      CPatch (rc_namespace r) (s_Name s)
        (finalizers_patch (removeFinalizer (m_Finalizers (s_Meta s)) Finalizer)) []]"
  by (simp add: cleanup_def logged_steps case_prod_beta)

lemma status_update_order:
  "(st :: AgentSessionStatus)\<lparr>st_PodName := a, st_ContainerName := b, st_Phase := c, st_TerminalReady := d\<rparr> =
    st\<lparr>st_Phase := c, st_PodName := a, st_ContainerName := b, st_TerminalReady := d\<rparr>"
  by (cases st) simp

lemma report_pod_calls:
  "snd (snd (report_pod (logged_rc r) s pod (w, cs))) =
    cs @ [status_call r s
      (if pod_Phase pod = ''Running'' \<or> pod_Phase pod = ''Succeeded'' then running_status s (rc_now r w)
       else provisioning_status s (rc_now r w))]"
  by (simp add: report_pod_def logged_steps status_call_def running_status_def
      provisioning_status_def case_prod_beta Let_def status_update_order)

lemma create_pod_calls:
  assumes "k_PodCreate (rc_Cluster r) (rc_namespace r)
      (BuildPod (rc_Mac r) s (rc_config r) p (k_Now (rc_Cluster r) w)) w = (x, w')"
  shows "snd (snd (create_pod (logged_rc r) s p (w, cs))) =
    cs @ [CPodCreate (rc_namespace r) (BuildPod (rc_Mac r) s (rc_config r) p (k_Now (rc_Cluster r) w)),
      status_call r s (case x of Inl e \<Rightarrow> failed_status s ReasonPodCreateFailed (err_text e) (rc_now r w')
        | Inr _ \<Rightarrow> provisioning_status s (rc_now r w'))]"
  using assms
  by (cases x)
    (simp_all add: create_pod_def Let_def fail_session_calls logged_steps case_prod_beta
      provisioning_status_def status_call_def)

subsection \<open>The protocol of the controller\<close>

text \<open>
  What a reconciliation asks of the API server, as a protocol: the sequences of calls it makes
  for a session, with the conditions under which it makes them. The conditions name the
  worlds of this very reconciliation: what the API server answered before, and the reading of
  the clock at the point where it is taken.
\<close>

definition class_check :: "Profile \<Rightarrow> call list" where
  "class_check p =
     (if pr_RuntimeClassName p = [] then [] else [CRuntimeClassGet (pr_RuntimeClassName p)])"

text \<open>The runtime class of a profile, if it names one, is found in \<open>v\<close>.\<close>

definition class_found :: "'w reconciler \<Rightarrow> Profile \<Rightarrow> 'w \<Rightarrow> 'w \<Rightarrow> bool" where
  "class_found r p v v' \<longleftrightarrow>
     (if pr_RuntimeClassName p = [] then v' = v
      else k_RuntimeClassGet (rc_Cluster r) (pr_RuntimeClassName p) v = (None, v'))"

definition session_profile :: "'w reconciler \<Rightarrow> AgentSession \<Rightarrow> string + Profile" where
  "session_profile r s = Resolve (rc_profiles (rc_config r)) (iso_Profile (sp_Isolation (s_Spec s)))"

text \<open>The answer to the lookup of the Pod of a session.\<close>

definition pod_lookup :: "'w reconciler \<Rightarrow> AgentSession \<Rightarrow> 'w \<Rightarrow> (kerr + Pod) \<times> 'w" where
  "pod_lookup r s = k_PodGet (rc_Cluster r) (rc_namespace r) (PodName (s_Name s))"

text \<open>The calls from the world \<open>v\<close> on, in which a live session is provisioned.\<close>

inductive provision_script :: "'w reconciler \<Rightarrow> AgentSession \<Rightarrow> 'w \<Rightarrow> call list \<Rightarrow> bool"
  for r :: "'w reconciler" and s :: AgentSession and v :: 'w where
  unsupported: "session_profile r s = Inl e \<Longrightarrow>
    provision_script r s v
      [status_call r s (failed_status s ReasonUnsupportedIsolationProfile e (rc_now r v))]"
| no_class: "session_profile r s = Inr p \<Longrightarrow> pr_RuntimeClassName p \<noteq> [] \<Longrightarrow>
    k_RuntimeClassGet (rc_Cluster r) (pr_RuntimeClassName p) v = (Some e, v') \<Longrightarrow>
    provision_script r s v
      (class_check p @ [status_call r s (failed_status s ReasonRuntimeClassNotFound msg (rc_now r v'))])"
| lookup_failed: "session_profile r s = Inr p \<Longrightarrow> class_found r p v v1 \<Longrightarrow>
    pod_lookup r s v1 = (Inl e, v2) \<Longrightarrow> \<not> IsNotFound e \<Longrightarrow>
    provision_script r s v (class_check p @ [CPodGet (rc_namespace r) (PodName (s_Name s))])"
| create: "session_profile r s = Inr p \<Longrightarrow> class_found r p v v1 \<Longrightarrow>
    pod_lookup r s v1 = (Inl e, v2) \<Longrightarrow> IsNotFound e \<Longrightarrow>
    pod = BuildPod (rc_Mac r) s (rc_config r) p (k_Now (rc_Cluster r) v2) \<Longrightarrow>
    k_PodCreate (rc_Cluster r) (rc_namespace r) pod v2 = (x, v3) \<Longrightarrow>
    st = (case x of Inl e \<Rightarrow> failed_status s ReasonPodCreateFailed (err_text e) (rc_now r v3)
          | Inr _ \<Rightarrow> provisioning_status s (rc_now r v3)) \<Longrightarrow>
    provision_script r s v (class_check p @
      [CPodGet (rc_namespace r) (PodName (s_Name s)), CPodCreate (rc_namespace r) pod, status_call r s st])"
| observe: "session_profile r s = Inr p \<Longrightarrow> class_found r p v v1 \<Longrightarrow>
    pod_lookup r s v1 = (Inr pod, v2) \<Longrightarrow>
    st = (if pod_Phase pod = ''Running'' \<or> pod_Phase pod = ''Succeeded''
          then running_status s (rc_now r v2) else provisioning_status s (rc_now r v2)) \<Longrightarrow>
    provision_script r s v (class_check p @
      [CPodGet (rc_namespace r) (PodName (s_Name s)), status_call r s st])"

text \<open>The session that a reconciliation reads, and the world after that.\<close>

definition reads :: "'w reconciler \<Rightarrow> string \<Rightarrow> 'w \<Rightarrow> AgentSession \<Rightarrow> 'w \<Rightarrow> bool" where
  "reads r name w s w' \<longleftrightarrow>
     (\<exists>u. k_Get (rc_Cluster r) (rc_namespace r) name w = (Inr u, w') \<and>
       FromUnstructured (rc_Cluster r) (Some u) = Inr s)"

text \<open>The session is not being deleted, and it has the finalizer or gets it.\<close>

definition finalizer_patch :: "'w reconciler \<Rightarrow> AgentSession \<Rightarrow> 'w \<Rightarrow> kerr option \<times> 'w" where
  "finalizer_patch r s =
     rc_patch_finalizers r (s_Name s) (m_Finalizers (s_Meta s) @ [Finalizer])"

definition claims :: "'w reconciler \<Rightarrow> AgentSession \<Rightarrow> 'w \<Rightarrow> 'w \<Rightarrow> bool" where
  "claims r s w w' \<longleftrightarrow> m_DeletionTimestamp (s_Meta s) = None \<and>
     (if Finalizer \<in> set (m_Finalizers (s_Meta s)) then w' = w else finalizer_patch r s w = (None, w'))"

definition finalizer_calls :: "'w reconciler \<Rightarrow> AgentSession \<Rightarrow> call list" where
  "finalizer_calls r s =
     (if Finalizer \<in> set (m_Finalizers (s_Meta s)) then []
      else [CPatch (rc_namespace r) (s_Name s)
              (finalizers_patch (m_Finalizers (s_Meta s) @ [Finalizer])) []])"

text \<open>The recorded expiry of a session, or the one its creation time and TTL give, is past.\<close>

definition over_at :: "AgentSession \<Rightarrow> gtime \<Rightarrow> bool" where
  "over_at s now \<longleftrightarrow>
     (\<exists>e. (st_ExpiresAt (s_Status s) = Some e \<or>
           st_ExpiresAt (s_Status s) = None \<and> \<not> IsZero (m_CreationTimestamp (s_Meta s)) \<and>
           0 < sint (sp_TTLSeconds (s_Spec s)) \<and>
           e = Add (m_CreationTimestamp (s_Meta s)) (seconds (sp_TTLSeconds (s_Spec s)))) \<and>
         After now e)"

lemma expired_over: "expired s now \<longleftrightarrow> over_at s now"
  by (auto simp: expired_def expiryTime_def over_at_def split: option.split)

inductive reconcile_script :: "'w reconciler \<Rightarrow> string \<Rightarrow> 'w \<Rightarrow> call list \<Rightarrow> bool"
  for r :: "'w reconciler" and name :: string and w :: 'w where
  unread: "(\<And>s w1. \<not> reads r name w s w1) \<Longrightarrow>
    reconcile_script r name w [CGet (rc_namespace r) name]"
| deleting: "reads r name w s w1 \<Longrightarrow> m_DeletionTimestamp (s_Meta s) \<noteq> None \<Longrightarrow>
    reconcile_script r name w
      [CGet (rc_namespace r) name,
       CPodDelete (rc_namespace r) (PodName (s_Name s)),
       CPatch (rc_namespace r) (s_Name s)
         (finalizers_patch (removeFinalizer (m_Finalizers (s_Meta s)) Finalizer)) []]"
| unclaimed: "reads r name w s w1 \<Longrightarrow> m_DeletionTimestamp (s_Meta s) = None \<Longrightarrow>
    Finalizer \<notin> set (m_Finalizers (s_Meta s)) \<Longrightarrow> finalizer_patch r s w1 = (Some e, w2) \<Longrightarrow>
    reconcile_script r name w (CGet (rc_namespace r) name # finalizer_calls r s)"
| over: "reads r name w s w1 \<Longrightarrow> claims r s w1 w2 \<Longrightarrow> over_at s (rc_now r w2) \<Longrightarrow>
    k_PodDelete (rc_Cluster r) (rc_namespace r) (PodName (s_Name s)) w2 = (d, w3) \<Longrightarrow>
    reconcile_script r name w (CGet (rc_namespace r) name # finalizer_calls r s @
      [CPodDelete (rc_namespace r) (PodName (s_Name s)),
       status_call r s (expired_status s (rc_now r w3))])"
| live: "reads r name w s w1 \<Longrightarrow> claims r s w1 w2 \<Longrightarrow> \<not> over_at s (rc_now r w2) \<Longrightarrow>
    provision_script r s w2 cs \<Longrightarrow>
    reconcile_script r name w (CGet (rc_namespace r) name # finalizer_calls r s @ cs)"

lemma CheckRuntimeClass_logged:
  "CheckRuntimeClass (logged K) p (w, cs) =
    (case CheckRuntimeClass K p w of (e, w') \<Rightarrow> (e, (w', cs @ class_check p)))"
  by (simp add: CheckRuntimeClass_def class_check_def split: prod.split option.split)

lemma CheckRuntimeClass_error: "CheckRuntimeClass (rc_Cluster r) p w = (Some msg, w') \<Longrightarrow>
    pr_RuntimeClassName p \<noteq> [] \<and>
    (\<exists>e. k_RuntimeClassGet (rc_Cluster r) (pr_RuntimeClassName p) w = (Some e, w'))"
  by (auto simp: CheckRuntimeClass_def split: if_splits prod.splits option.splits)

lemma CheckRuntimeClass_found: "CheckRuntimeClass (rc_Cluster r) p w = (None, w') \<longleftrightarrow> class_found r p w w'"
  by (auto simp: CheckRuntimeClass_def class_found_def split: prod.splits option.splits)

lemma lookup_calls:
  assumes "session_profile r s = Inr p" "class_found r p w w1" "pod_lookup r s w1 = (x, w2)"
  shows "provision (logged_rc r) s (w, cs) =
    (let wcs = (w2, cs @ class_check p @ [CPodGet (rc_namespace r) (PodName (s_Name s))])
     in case x of
          Inl e \<Rightarrow> if IsNotFound e then create_pod (logged_rc r) s p wcs else (Some e, wcs)
        | Inr pod \<Rightarrow> report_pod (logged_rc r) s pod wcs)"
  using assms CheckRuntimeClass_found [of r p w w1]
  by (simp add: provision_def session_profile_def CheckRuntimeClass_logged pod_lookup_def Let_def)

lemma provision_calls:
  "\<exists>tail. snd (snd (provision (logged_rc r) s (w, cs))) = cs @ tail \<and> provision_script r s w tail"
proof (cases "session_profile r s")
  case (Inl e)
  then have "provision (logged_rc r) s (w, cs) =
      fail_session (logged_rc r) s ReasonUnsupportedIsolationProfile e (w, cs)"
    by (simp add: provision_def session_profile_def)
  then show ?thesis
    using provision_script.unsupported [OF Inl] by (auto simp: fail_session_calls)
next
  case (Inr p)
  obtain c w1 where c: "CheckRuntimeClass (rc_Cluster r) p w = (c, w1)" by fastforce
  show ?thesis
  proof (cases c)
    case (Some msg)
    with Inr c have "provision (logged_rc r) s (w, cs) =
        fail_session (logged_rc r) s ReasonRuntimeClassNotFound msg (w1, cs @ class_check p)"
      by (simp add: provision_def session_profile_def CheckRuntimeClass_logged)
    then show ?thesis
      using CheckRuntimeClass_error [OF c [unfolded Some]] provision_script.no_class [OF Inr]
      by (auto simp: fail_session_calls)
  next
    case None
    then have found: "class_found r p w w1" using c by (simp add: CheckRuntimeClass_found)
    obtain x w2 where x: "pod_lookup r s w1 = (x, w2)" by fastforce
    note calls = lookup_calls [OF Inr found x, of cs]
    obtain y w3 where y: "k_PodCreate (rc_Cluster r) (rc_namespace r)
        (BuildPod (rc_Mac r) s (rc_config r) p (k_Now (rc_Cluster r) w2)) w2 = (y, w3)" by fastforce
    consider (missing) e where "x = Inl e" "IsNotFound e" | (error) e where "x = Inl e" "\<not> IsNotFound e"
      | (seen) pod where "x = Inr pod"
      by (cases x) auto
    then show ?thesis
    proof cases
      case missing
      with calls create_pod_calls [OF y] provision_script.create [OF Inr found x [unfolded missing(1)] _ refl y refl]
      show ?thesis by (simp add: Let_def)
    next
      case error
      with calls provision_script.lookup_failed [OF Inr found x [unfolded error(1)]]
      show ?thesis by (simp add: Let_def)
    next
      case seen
      with calls provision_script.observe [OF Inr found x [unfolded seen] refl]
      show ?thesis by (simp add: Let_def report_pod_calls)
    qed
  qed
qed

lemma Reconcile_calls_alive:
  assumes s: "reads r name w s w1" and alive: "m_DeletionTimestamp (s_Meta s) = None"
  shows "\<exists>tail. snd (snd (Reconcile (logged_rc r) name (w, cs))) = cs @ tail \<and> reconcile_script r name w tail"
proof -
  let ?ns = "rc_namespace r" and ?fins = "m_Finalizers (s_Meta s)"
  let ?calls = "snd (snd (Reconcile (logged_rc r) name (w, cs)))"
  let ?cs = "cs @ CGet ?ns name # finalizer_calls r s"
  obtain e w2 where e: "(if hasFinalizer ?fins Finalizer then (None, w1) else finalizer_patch r s w1) = (e, w2)"
    by fastforce
  then have f: "(if hasFinalizer ?fins Finalizer then (None, (w1, cs @ [CGet ?ns name]))
      else rc_patch_finalizers (logged_rc r) (s_Name s) (?fins @ [Finalizer]) (w1, cs @ [CGet ?ns name])) =
      (e, (w2, ?cs))"
    by (simp add: finalizer_patch_def logged_steps finalizer_calls_def hasFinalizer_def
        split: if_splits prod.splits)
  have step: "?calls = (case e of Some err \<Rightarrow> ?cs
      | None \<Rightarrow> snd (snd (if expired s (rc_now r w2) then expire_session (logged_rc r) s (w2, ?cs)
          else provision (logged_rc r) s (w2, ?cs))))"
    using s alive f by (auto simp: reads_def Reconcile_def split: option.splits)
  show ?thesis
  proof (cases e)
    case (Some err)
    with e have "Finalizer \<notin> set ?fins" "finalizer_patch r s w1 = (Some err, w2)"
      by (auto simp: hasFinalizer_def split: if_splits)
    with reconcile_script.unclaimed [OF s alive] step Some show ?thesis by simp
  next
    case None
    then have c: "claims r s w1 w2"
      using e alive by (auto simp: claims_def hasFinalizer_def split: if_splits)
    obtain d w3 where d: "k_PodDelete (rc_Cluster r) ?ns (PodName (s_Name s)) w2 = (d, w3)" by fastforce
    show ?thesis
    proof (cases "expired s (rc_now r w2)")
      case True
      then show ?thesis
        using step None d reconcile_script.over [OF s c _ d] by (simp add: expire_session_calls expired_over)
    next
      case False
      then show ?thesis
        using step None provision_calls [of r s w2 ?cs] reconcile_script.live [OF s c]
        by (fastforce simp: expired_over)
    qed
  qed
qed

lemma Reconcile_calls:
  "\<exists>tail. snd (snd (Reconcile (logged_rc r) name (w, cs))) = cs @ tail \<and> reconcile_script r name w tail"
proof -
  let ?calls = "snd (snd (Reconcile (logged_rc r) name (w, cs)))"
  obtain x w1 where x: "k_Get (rc_Cluster r) (rc_namespace r) name w = (x, w1)" by fastforce
  show ?thesis
  proof (cases "\<exists>s w1. reads r name w s w1")
    case False
    with x have "?calls = cs @ [CGet (rc_namespace r) name]"
      by (auto simp: Reconcile_def reads_def split: sum.splits)
    with reconcile_script.unread [of r name w] False show ?thesis by simp
  next
    case True
    then obtain s where s: "reads r name w s w1" using x by (auto simp: reads_def)
    show ?thesis
    proof (cases "m_DeletionTimestamp (s_Meta s) = None")
      case True
      with s show ?thesis by (rule Reconcile_calls_alive)
    next
      case False
      with s have "?calls = snd (snd (cleanup (logged_rc r) s (w1, cs @ [CGet (rc_namespace r) name])))"
        by (auto simp: reads_def Reconcile_def)
      with reconcile_script.deleting [OF s False] show ?thesis by (simp add: cleanup_calls)
    qed
  qed
qed

lemma Reconcile_follows: "reconcile_script r name w (calls_of r name w)"
  using Reconcile_calls [of r name w "[]"] by (auto simp: calls_of_def)

subsection \<open>What the protocol implies\<close>

inductive_cases provision_scriptE: "provision_script r s v cs"

lemma reads_unique: "reads r name w s w1 \<Longrightarrow> reads r name w s' w1' \<Longrightarrow> s' = s \<and> w1' = w1"
  by (auto simp: reads_def)

lemma class_check_calls [simp]:
  "CPodCreate ns pod \<notin> set (class_check p)" "CPatch ns n q sub \<notin> set (class_check p)"
  by (auto simp: class_check_def)

lemma status_call_simps [simp]:
  "CPodCreate ns pod \<noteq> status_call r s st" "status_call r s st \<noteq> CPodCreate ns pod"
  by (simp_all add: status_call_def)

lemma finalizer_calls_no_pod [simp]:
  "CPodCreate ns pod \<notin> set (finalizer_calls r s)" "CPatch ns n q [''status''] \<notin> set (finalizer_calls r s)"
  by (simp_all add: finalizer_calls_def)

lemma provision_script_create:
  assumes "provision_script r s v cs" "CPodCreate ns pod \<in> set cs"
  shows "\<exists>p v1 e v2. session_profile r s = Inr p \<and> class_found r p v v1 \<and>
    pod_lookup r s v1 = (Inl e, v2) \<and> IsNotFound e \<and> ns = rc_namespace r \<and>
    pod = BuildPod (rc_Mac r) s (rc_config r) p (k_Now (rc_Cluster r) v2)"
  using assms by (elim provision_scriptE) auto

text \<open>The statuses that a reconciliation may write for the session it read and claimed.\<close>

definition failure_reasons :: "string set" where
  "failure_reasons =
     {ReasonUnsupportedIsolationProfile, ReasonRuntimeClassNotFound, ReasonPodCreateFailed}"

definition may_write :: "'w reconciler \<Rightarrow> AgentSession \<Rightarrow> 'w \<Rightarrow> AgentSessionStatus \<Rightarrow> bool" where
  "may_write r s v st \<longleftrightarrow>
     (\<exists>reason \<in> failure_reasons. \<exists>msg t. st = failed_status s reason msg t \<and> \<not> over_at s (rc_now r v)) \<or>
     (\<exists>t. st = expired_status s t \<and> over_at s (rc_now r v)) \<or>
     (\<exists>t. st = provisioning_status s t \<and> \<not> over_at s (rc_now r v)) \<or>
     (\<exists>t p v1 pod v2. st = running_status s t \<and> \<not> over_at s (rc_now r v) \<and>
       session_profile r s = Inr p \<and> class_found r p v v1 \<and> pod_lookup r s v1 = (Inr pod, v2) \<and>
       (pod_Phase pod = ''Running'' \<or> pod_Phase pod = ''Succeeded''))"

lemma may_writeI [intro]:
  "reason \<in> failure_reasons \<Longrightarrow> \<not> over_at s (rc_now r v) \<Longrightarrow> may_write r s v (failed_status s reason msg t)"
  "over_at s (rc_now r v) \<Longrightarrow> may_write r s v (expired_status s t)"
  "\<not> over_at s (rc_now r v) \<Longrightarrow> may_write r s v (provisioning_status s t)"
  unfolding may_write_def by blast+

lemma failure_reasonsI [simp]:
  "ReasonUnsupportedIsolationProfile \<in> failure_reasons" "ReasonRuntimeClassNotFound \<in> failure_reasons"
  "ReasonPodCreateFailed \<in> failure_reasons"
  by (simp_all add: failure_reasons_def)

lemma wroteI: "may_write r s v x \<Longrightarrow> \<exists>st. status_call r s x = status_call r s st \<and> may_write r s v st"
  by blast

lemma provision_script_status:
  assumes "provision_script r s v cs" "CPatch ns n q [''status''] \<in> set cs" "\<not> over_at s (rc_now r v)"
  shows "\<exists>st. CPatch ns n q [''status''] = status_call r s st \<and> may_write r s v st"
  using assms(1)
proof (cases rule: provision_script.cases)
  case (observe p v1 pod v2 st)
  with assms(2) have "CPatch ns n q [''status''] = status_call r s st" by auto
  moreover have "may_write r s v st"
    using observe assms(3) unfolding may_write_def by (auto split: if_splits)
  ultimately show ?thesis by blast
next
  case (create p v1 e v2 pod x v3 st)
  with assms(2) have "CPatch ns n q [''status''] = status_call r s st" by auto
  moreover have "may_write r s v st" using create assms(3) by (cases x) auto
  ultimately show ?thesis by blast
qed (use assms(2,3) in \<open>auto intro!: wroteI\<close>)

lemma reconcile_script_status:
  assumes "reconcile_script r name w cs" "CPatch ns n p [''status''] \<in> set cs"
  shows "\<exists>s w1 w2 st. reads r name w s w1 \<and> claims r s w1 w2 \<and>
    CPatch ns n p [''status''] = status_call r s st \<and> may_write r s w2 st"
  using assms(1)
proof (cases rule: reconcile_script.cases)
  case (over s w1 w2 d w3)
  with assms(2) have "CPatch ns n p [''status''] = status_call r s (expired_status s (rc_now r w3))" by auto
  with over show ?thesis by blast
next
  case (live s w1 w2 cs')
  with assms(2) have "CPatch ns n p [''status''] \<in> set cs'" by auto
  from provision_script_status [OF live(5) this live(4)] live(2,3) show ?thesis
    by (elim exE conjE) (intro exI conjI)
qed (use assms(2) in auto)

lemma ensureStatusTimes_simps [simp]:
  "st_Phase (ensureStatusTimes s st t) = st_Phase st"
  "st_Reason (ensureStatusTimes s st t) = st_Reason st"
  "st_Message (ensureStatusTimes s st t) = st_Message st"
  "st_PodName (ensureStatusTimes s st t) = st_PodName st"
  "st_ContainerName (ensureStatusTimes s st t) = st_ContainerName st"
  "st_TerminalReady (ensureStatusTimes s st t) = st_TerminalReady st"
  by (simp_all add: ensureStatusTimes_def Let_def)

lemma status_call_eq:
  "status_call r s st = CPatch ns n p sub \<longleftrightarrow>
    ns = rc_namespace r \<and> n = s_Name s \<and> p = status_patch st \<and> sub = [''status'']"
  by (auto simp: status_call_def)

text \<open>
  The times of a written status: those the session had are kept; a missing creation time is
  the session's own, or the clock's reading; a missing expiry follows from it and the TTL.
\<close>

definition times_filled :: "AgentSession \<Rightarrow> AgentSessionStatus \<Rightarrow> bool" where
  "times_filled s st \<longleftrightarrow>
     (\<exists>c. st_CreatedAt st = Some c \<and>
       (\<forall>c'. st_CreatedAt (s_Status s) = Some c' \<longrightarrow> c = c') \<and>
       (st_CreatedAt (s_Status s) = None \<and> \<not> IsZero (m_CreationTimestamp (s_Meta s)) \<longrightarrow>
          c = m_CreationTimestamp (s_Meta s)) \<and>
       (\<forall>e. st_ExpiresAt (s_Status s) = Some e \<longrightarrow> st_ExpiresAt st = Some e) \<and>
       (st_ExpiresAt (s_Status s) = None \<longrightarrow>
          st_ExpiresAt st = (if 0 < sint (sp_TTLSeconds (s_Spec s))
            then Some (Add c (seconds (sp_TTLSeconds (s_Spec s)))) else None)))"

lemma times_filled_ensure:
  "st_CreatedAt st = st_CreatedAt (s_Status s) \<Longrightarrow> st_ExpiresAt st = st_ExpiresAt (s_Status s) \<Longrightarrow>
    times_filled s (ensureStatusTimes s st t)"
  by (auto simp: times_filled_def ensureStatusTimes_def Let_def split: option.splits)

lemma written_times:
  "times_filled s (failed_status s reason msg t)" "times_filled s (expired_status s t)"
  "times_filled s (provisioning_status s t)" "times_filled s (running_status s t)"
  unfolding failed_status_def expired_status_def provisioning_status_def running_status_def
  by (rule times_filled_ensure; simp)+

lemma written_status_simps [simp]:
  "st_Phase (failed_status s reason msg t) = PhaseFailed" "st_Reason (failed_status s reason msg t) = reason"
  "st_Message (failed_status s reason msg t) = redact_String msg" "\<not> st_TerminalReady (failed_status s reason msg t)"
  "st_Phase (expired_status s t) = PhaseExpired" "st_Reason (expired_status s t) = ReasonExpired"
  "st_Message (expired_status s t) = ''session ttl expired''" "\<not> st_TerminalReady (expired_status s t)"
  "st_Phase (provisioning_status s t) = PhaseProvisioning" "\<not> st_TerminalReady (provisioning_status s t)"
  "st_Phase (running_status s t) = PhaseRunning" "st_TerminalReady (running_status s t)"
  "st_Reason (provisioning_status s t) = st_Reason (s_Status s)"
  "st_Message (provisioning_status s t) = st_Message (s_Status s)"
  "st_Reason (running_status s t) = st_Reason (s_Status s)"
  "st_Message (running_status s t) = st_Message (s_Status s)"
  "st_PodName (provisioning_status s t) = PodName (s_Name s)"
  "st_ContainerName (provisioning_status s t) = ContainerName"
  "st_PodName (running_status s t) = PodName (s_Name s)"
  "st_ContainerName (running_status s t) = ContainerName"
  by (simp_all add: failed_status_def expired_status_def provisioning_status_def running_status_def)

lemma may_write_times: "may_write r s v st \<Longrightarrow> times_filled s st"
  unfolding may_write_def by (auto simp: written_times)

subsection \<open>Properties of reconciliation\<close>

definition example_rc :: "world reconciler" where
  "example_rc =
     \<lparr>rc_Cluster = test_cluster,
      rc_Config = \<lparr>cf_Namespace = [], cf_RuntimeImage = [], cf_ModelProxyURL = [], cf_TokenSecret = [],
        cf_Profiles = None, cf_ReconcileInterval = 0\<rparr>,
      rc_Now = Some (\<lambda>_. UnixTime 1700000100), rc_Mac = (\<lambda>k s. s)\<rparr>"

definition example_world :: "AgentSession \<Rightarrow> Pod list \<Rightarrow> world" where
  "example_world s pods =
     \<lparr>w_objects = [(s_Name s, ToUnstructured test_cluster s)],
      w_pods = map (\<lambda>p. (pod_Name p, p)) pods, w_classes = [], w_now = UnixTime 1700000100\<rparr>"

text \<open>
  Claim C4. Whatever the cluster answers, the calls of a reconciliation follow the
  protocol, with every condition read off this very run: a session that cannot be read is left
  alone; one being deleted gets its Pod deleted and then the finalizer removed; otherwise the
  finalizer comes first, and nothing more if it cannot be set; a session whose expiry is past
  on the clock at that point gets its Pod deleted and the status \<open>Expired\<close>; and only one whose
  expiry is not past is provisioned: a Pod is looked up only with a profile that resolves and
  a runtime class that exists, created only if the lookup found none, and reported otherwise.
\<close>

theorem reconcile_protocol: "reconcile_script r name w (calls_of r name w)"
  by (rule Reconcile_follows)

text \<open>
  Claim C7. A reconciliation creates a Pod only for the session it read, which is
  not being deleted and had the finalizer or was successfully patched to have it; whose expiry
  was not past on the clock read after that; whose isolation profile resolves to one whose
  runtime class was found; and for which the lookup of the Pod had just answered not found.
  The Pod is the one \<open>BuildPod\<close> makes from this session, in the reconciler's namespace.
\<close>

theorem pod_creation_guarded:
  assumes "CPodCreate ns pod \<in> set (calls_of r name w)"
  shows "\<exists>s w1 w2 p w3 e w4. reads r name w s w1 \<and> claims r s w1 w2 \<and>
    \<not> over_at s (rc_now r w2) \<and> session_profile r s = Inr p \<and> class_found r p w2 w3 \<and>
    pod_lookup r s w3 = (Inl e, w4) \<and> IsNotFound e \<and> ns = rc_namespace r \<and>
    pod = BuildPod (rc_Mac r) s (rc_config r) p (k_Now (rc_Cluster r) w4)"
  using Reconcile_follows [of r name w]
proof (cases rule: reconcile_script.cases)
  case (live s w1 w2 cs)
  then have "CPodCreate ns pod \<in> set cs" using assms by auto
  from live(2-4) provision_script_create [OF live(5) this] show ?thesis by (elim exE conjE) (intro exI conjI)
qed (use assms in auto)

fun creates_pod :: "call \<Rightarrow> bool" where
  "creates_pod (CPodCreate ns pod) = True"
| "creates_pod _ = False"

lemma example_creates:
  "list_ex creates_pod (calls_of example_rc ''sess-1'' (example_world example_session []))"
  by code_simp

theorem pod_creation_guarded_witness:
  "\<exists>ns pod s w1 p t. CPodCreate ns pod \<in> set (calls_of example_rc ''sess-1'' (example_world example_session [])) \<and>
    reads example_rc ''sess-1'' (example_world example_session []) s w1 \<and>
    \<not> over_at s (UnixTime 1700000100) \<and> session_profile example_rc s = Inr p \<and>
    pod = BuildPod (rc_Mac example_rc) s (rc_config example_rc) p t"
proof -
  obtain ns pod where c: "CPodCreate ns pod \<in> set (calls_of example_rc ''sess-1'' (example_world example_session []))"
    using example_creates by (auto simp: list_ex_iff elim!: creates_pod.elims)
  have "rc_now example_rc v = UnixTime 1700000100" for v by (simp add: rc_now_def example_rc_def)
  with pod_creation_guarded [OF c] c show ?thesis by metis
qed

text \<open>
  Claim C26. Every status a reconciliation writes belongs to the session it read and
  claimed, has its times filled in, and is one of four. Failed: for one of the three reasons of
  a failure, with a redacted message, the terminal not ready. Expired: only when the expiry was
  past on the clock, the terminal not ready. Provisioning: with the Pod and the container
  named, reason and message as they were, the terminal not ready. Running: the same with the
  terminal ready, and then the lookup of the Pod in this reconciliation, after the check of
  the runtime class, did return one in phase \<open>Running\<close> or \<open>Succeeded\<close>.
\<close>

theorem status_written:
  assumes "CPatch ns n p [''status''] \<in> set (calls_of r name w)"
  shows "\<exists>s w1 w2 st. reads r name w s w1 \<and> claims r s w1 w2 \<and> ns = rc_namespace r \<and>
    n = s_Name s \<and> p = status_patch st \<and> times_filled s st \<and>
    (st_Phase st = PhaseFailed \<and>
       st_Reason st \<in> {ReasonUnsupportedIsolationProfile, ReasonRuntimeClassNotFound, ReasonPodCreateFailed} \<and>
       (\<exists>msg. st_Message st = redact_String msg) \<and> \<not> st_TerminalReady st \<and> \<not> over_at s (rc_now r w2) \<or>
     st_Phase st = PhaseExpired \<and> st_Reason st = ReasonExpired \<and>
       st_Message st = ''session ttl expired'' \<and> \<not> st_TerminalReady st \<and> over_at s (rc_now r w2) \<or>
     (st_Phase st = PhaseProvisioning \<and> \<not> st_TerminalReady st \<or>
      st_Phase st = PhaseRunning \<and> st_TerminalReady st \<and>
       (\<exists>q w3 pod w4. session_profile r s = Inr q \<and> class_found r q w2 w3 \<and>
          pod_lookup r s w3 = (Inr pod, w4) \<and>
          (pod_Phase pod = ''Running'' \<or> pod_Phase pod = ''Succeeded''))) \<and>
       \<not> over_at s (rc_now r w2) \<and>
       st_PodName st = ''agent-session-'' @ s_Name s \<and> st_ContainerName st = ContainerName \<and>
       st_Reason st = st_Reason (s_Status s) \<and> st_Message st = st_Message (s_Status s))"
proof -
  obtain s w1 w2 st where s: "reads r name w s w1" "claims r s w1 w2"
    "CPatch ns n p [''status''] = status_call r s st" "may_write r s w2 st"
    using reconcile_script_status [OF Reconcile_follows assms] by blast
  from s(3) have "ns = rc_namespace r" "n = s_Name s" "p = status_patch st"
    by (simp_all add: status_call_def)
  note basics = s(1,2) this may_write_times [OF s(4)]
  show ?thesis
    apply (rule exI [of _ s], rule exI [of _ w1], rule exI [of _ w2], rule exI [of _ st])
    using basics s(4) [unfolded may_write_def]
    apply (elim disjE exE bexE conjE)
        apply (simp_all add: PodName_def failure_reasons_def phase_defs)
      apply blast+
    done
qed

definition running_pod :: Pod where
  "running_pod = (BuildPod (rc_Mac example_rc) example_session DefaultConfig zero_profile zero_time)
     \<lparr>pod_Phase := ''Running''\<rparr>"

fun writes_status :: "call \<Rightarrow> bool" where
  "writes_status (CPatch ns n p sub) = (sub = [''status''])"
| "writes_status _ = False"

lemma example_writes:
  "list_ex writes_status (calls_of example_rc ''sess-1'' (example_world example_session [running_pod]))"
  by code_simp

theorem status_written_witness:
  "\<exists>s w1 st. reads example_rc ''sess-1'' (example_world example_session [running_pod]) s w1 \<and>
    CPatch (rc_namespace example_rc) (s_Name s) (status_patch st) [''status''] \<in>
      set (calls_of example_rc ''sess-1'' (example_world example_session [running_pod])) \<and>
    times_filled s st \<and> (st_TerminalReady st \<longleftrightarrow> st_Phase st = PhaseRunning)"
proof -
  obtain ns n p where c: "CPatch ns n p [''status''] \<in>
      set (calls_of example_rc ''sess-1'' (example_world example_session [running_pod]))"
    using example_writes by (auto simp: list_ex_iff elim!: writes_status.elims)
  from status_written [OF c] obtain s w1 st where
    "reads example_rc ''sess-1'' (example_world example_session [running_pod]) s w1"
    "ns = rc_namespace example_rc" "n = s_Name s" "p = status_patch st" "times_filled s st"
    "st_TerminalReady st \<longleftrightarrow> st_Phase st = PhaseRunning"
    by (elim exE conjE) (fastforce simp: phase_defs)
  with c show ?thesis by blast
qed

definition late_rc :: "world reconciler" where
  "late_rc = example_rc\<lparr>rc_Now := Some (\<lambda>_. UnixTime 1800000000)\<rparr>"

definition claimed_world :: world where
  "claimed_world = example_world (example_session\<lparr>s_Meta := (s_Meta example_session)
     \<lparr>m_Finalizers := [Finalizer]\<rparr>\<rparr>) []"

subsection \<open>The control loop\<close>

lemma k_List_logged [simp]:
  "k_List (logged K) ns n (w, cs) = (case k_List K ns n w of (x, w') \<Rightarrow> (x, (w', cs @ [CList ns n])))"
  by (simp add: logged_def log_call_def)

lemma reconcile_items_calls:
  "\<exists>wcs. snd (snd (reconcile_items (logged_rc r) names (w, cs))) = cs @ concat (map snd wcs) \<and>
    list_all2 (\<lambda>n (v, tail). reconcile_script r n v tail) names wcs"
proof (induction names arbitrary: w cs)
  case Nil
  then show ?case by (intro exI [of _ "[]"]) simp
next
  case (Cons n ns)
  obtain e w1 cs1 where 1: "Reconcile (logged_rc r) n (w, cs) = (e, (w1, cs1))"
    by (metis prod.collapse)
  from Reconcile_calls [of r n w cs] 1 obtain tail where
    tail: "cs1 = cs @ tail" "reconcile_script r n w tail" by auto
  from Cons.IH [of w1 cs1] obtain wcs where
    wcs: "snd (snd (reconcile_items (logged_rc r) ns (w1, cs1))) = cs1 @ concat (map snd wcs)"
      "list_all2 (\<lambda>n (v, tail). reconcile_script r n v tail) ns wcs" by blast
  have "snd (snd (reconcile_items (logged_rc r) (n # ns) (w, cs))) =
      snd (snd (reconcile_items (logged_rc r) ns (w1, cs1)))"
    using 1 by (simp add: case_prod_beta split: option.split)
  with wcs tail show ?case by (intro exI [of _ "(w, tail) # wcs"]) simp
qed

text \<open>
  Claim C27. A round of the control loop reconciles every session the API server lists, in order,
  each one following the protocol, whatever happens to the ones before: an error stops the
  reconciliation of one session and of no other.
\<close>

theorem round_visits_all:
  assumes "k_List (rc_Cluster r) (rc_namespace r) 0 w = (Inr items, w1)"
  shows "\<exists>wcs. snd (snd (snd (reconcileAll (logged_rc r) (w, [])))) =
      CList (rc_namespace r) 0 # concat (map snd wcs) \<and>
    list_all2 (\<lambda>n (v, calls). reconcile_script r n v calls) (map (k_Name (rc_Cluster r)) items) wcs"
proof -
  let ?names = "map (k_Name (rc_Cluster r)) items"
  obtain wcs where "snd (snd (reconcile_items (logged_rc r) ?names (w1, [CList (rc_namespace r) 0]))) =
      [CList (rc_namespace r) 0] @ concat (map snd wcs)"
    "list_all2 (\<lambda>n (v, calls). reconcile_script r n v calls) ?names wcs"
    using reconcile_items_calls [of r ?names w1 "[CList (rc_namespace r) 0]"] by (elim exE conjE)
  then show ?thesis
    using assms by (intro exI [of _ wcs]) (simp add: reconcileAll_def case_prod_beta)
qed

theorem round_visits_all_witness:
  "\<exists>wcs. snd (snd (snd (reconcileAll (logged_rc example_rc) (claimed_world, [])))) =
      CList (rc_namespace example_rc) 0 # concat (map snd wcs) \<and>
    list_all2 (\<lambda>n (v, calls). reconcile_script example_rc n v calls)
      (map (k_Name test_cluster) (map snd (w_objects claimed_world))) wcs"
proof -
  have c: "rc_Cluster example_rc = test_cluster" by (simp add: example_rc_def)
  have "k_List (rc_Cluster example_rc) (rc_namespace example_rc) 0 claimed_world =
      (Inr (map snd (w_objects claimed_world)), claimed_world)"
    unfolding c by (simp add: test_cluster_def)
  from round_visits_all [OF this] show ?thesis unfolding c .
qed

subsection \<open>The Pod\<close>

lemma BuildPod_fields:
  "ps_Containers (pod_Spec (BuildPod mac s cfg p t)) =
    [\<lparr>c_Name = ContainerName,
      c_Image = defaultString (cf_RuntimeImage cfg) DefaultRuntimeImage,
      c_ImagePullPolicy = ''IfNotPresent'',
      c_Command = [''/bin/sh'', ''-lc'', ''trap : TERM INT; while true; do sleep 3600; done''],
      c_Stdin = True, c_TTY = True,
      c_Env = pod_env (defaultString (cf_ModelProxyURL cfg) (cf_ModelProxyURL DefaultConfig))
        (GenerateUntil mac \<lparr>tm_Secret = cf_TokenSecret cfg, tm_TTL = 0\<rparr> (s_Name s) (token_expiry s t)),
      c_Resources = resourcesFor (sp_ResourceProfile (s_Spec s)),
      c_SecurityContext =
        \<lparr>sc_Privileged = None, sc_RunAsNonRoot = Some True, sc_RunAsUser = Some 65532,
         sc_RunAsGroup = Some 65532, sc_AllowPrivilegeEscalation = Some False,
         sc_ReadOnlyRootFilesystem = Some False, sc_DropCapabilities = [''ALL''],
         sc_AddCapabilities = []\<rparr>\<rparr>]"
  by (simp add: BuildPod_def Let_def DefaultConfig_def)

text \<open>What the security model asks of the Pod of a session.\<close>

definition confined_container :: "Container \<Rightarrow> bool" where
  "confined_container c \<longleftrightarrow>
     sc_RunAsNonRoot (c_SecurityContext c) = Some True \<and>
     sc_RunAsUser (c_SecurityContext c) \<noteq> Some 0 \<and>
     sc_Privileged (c_SecurityContext c) \<noteq> Some True \<and>
     sc_AllowPrivilegeEscalation (c_SecurityContext c) = Some False \<and>
     sc_DropCapabilities (c_SecurityContext c) = [''ALL''] \<and>
     sc_AddCapabilities (c_SecurityContext c) = [] \<and>
     rr_Requests (c_Resources c) = rr_Limits (c_Resources c) \<and>
     map fst (rr_Limits (c_Resources c)) = [''cpu'', ''memory'', ''ephemeral-storage'']"

definition confined :: "Pod \<Rightarrow> bool" where
  "confined pod \<longleftrightarrow>
     \<not> ps_HostNetwork (pod_Spec pod) \<and> \<not> ps_HostPID (pod_Spec pod) \<and> \<not> ps_HostIPC (pod_Spec pod) \<and>
     ps_Volumes (pod_Spec pod) = [] \<and>
     ps_SeccompProfile (pod_Spec pod) = Some ''RuntimeDefault'' \<and>
     ps_ServiceAccountName (pod_Spec pod) = ''agent-session'' \<and>
     list_all confined_container (ps_Containers (pod_Spec pod))"

lemma resourcesFor_limits:
  "rr_Requests (resourcesFor profile) = rr_Limits (resourcesFor profile)"
  "map fst (rr_Limits (resourcesFor profile)) = [''cpu'', ''memory'', ''ephemeral-storage'']"
  by (auto simp: resourcesFor_def resource_table_def Let_def)

lemma BuildPod_spec:
  "\<not> ps_HostNetwork (pod_Spec (BuildPod mac s cfg p t))" "\<not> ps_HostPID (pod_Spec (BuildPod mac s cfg p t))"
  "\<not> ps_HostIPC (pod_Spec (BuildPod mac s cfg p t))" "ps_Volumes (pod_Spec (BuildPod mac s cfg p t)) = []"
  "ps_SeccompProfile (pod_Spec (BuildPod mac s cfg p t)) = Some ''RuntimeDefault''"
  "ps_ServiceAccountName (pod_Spec (BuildPod mac s cfg p t)) = ''agent-session''"
  "pod_Name (BuildPod mac s cfg p t) = PodName (s_Name s)"
  "map or_UID (pod_OwnerReferences (BuildPod mac s cfg p t)) = [m_UID (s_Meta s)]"
  by (simp_all add: BuildPod_def Let_def)

text \<open>
  Claim C14. Whatever the session, the configuration and the isolation profile, the Pod
  stays confined: it shares no namespace with its host, mounts nothing, keeps the seccomp
  profile and the session service account, runs as a user who is not root, with no privilege
  escalation and every capability dropped, within limits; it is named after and owned by its
  session. Its one container has exactly eleven environment variables, spelled out here: the
  base URLs of both providers are the proxy's, and the API keys of both are the session token,
  never a key of the upstream.
\<close>

theorem pod_confined:
  "confined (BuildPod mac s cfg p t) \<and>
   pod_Name (BuildPod mac s cfg p t) = ''agent-session-'' @ s_Name s \<and>
   map or_UID (pod_OwnerReferences (BuildPod mac s cfg p t)) = [m_UID (s_Meta s)] \<and>
   (\<exists>url token.
     url = (if cf_ModelProxyURL cfg = []
            then ''http://cask-model-proxy.agentcask-system.svc.cluster.local:8080/internal/model-proxy/v1''
            else cf_ModelProxyURL cfg) \<and>
     token = GenerateUntil mac \<lparr>tm_Secret = cf_TokenSecret cfg, tm_TTL = 0\<rparr> (s_Name s) (token_expiry s t) \<and>
     map (\<lambda>c. map (\<lambda>v. (ev_Name v, ev_Value v)) (c_Env c))
         (ps_Containers (pod_Spec (BuildPod mac s cfg p t))) =
       [[(''HOME'', ''/tmp/cask''),
         (''XDG_CACHE_HOME'', ''/tmp/cask/.cache''),
         (''XDG_CONFIG_HOME'', ''/tmp/cask/.config''),
         (''XDG_DATA_HOME'', ''/tmp/cask/.local/share''),
         (''OPENCODE_DISABLE_AUTOUPDATE'', ''true''),
         (''CASK_MODEL_BASE_URL'', url), (''CASK_SESSION_TOKEN'', token),
         (''OPENAI_BASE_URL'', url), (''ANTHROPIC_BASE_URL'', url),
         (''OPENAI_API_KEY'', token), (''ANTHROPIC_API_KEY'', token)]])"
proof -
  have "confined (BuildPod mac s cfg p t)"
    by (simp add: confined_def confined_container_def BuildPod_fields BuildPod_spec resourcesFor_limits)
  moreover have "pod_Name (BuildPod mac s cfg p t) = ''agent-session-'' @ s_Name s"
    by (simp add: BuildPod_spec PodName_def)
  ultimately show ?thesis
    by (simp add: BuildPod_spec BuildPod_fields pod_env_def defaultString_def DefaultConfig_def)
qed

subsection \<open>A limit\<close>

text \<open>The reason and the message of an earlier failure stay in the status of a session that runs again.\<close>

lemma running_status_keeps_reason:
  "st_Reason (running_status s t) = st_Reason (s_Status s)"
  "st_Message (running_status s t) = st_Message (s_Status s)"
  by (simp_all add: running_status_def ensureStatusTimes_def Let_def)

end
