(* ===== verification/Cask_Proxy.thy ===== *)
theory Cask_Proxy
  imports Cask_Token Cask_Url
begin

text \<open>
  \<open>internal/modelproxy/proxy.go\<close>: the proxy that lets a session reach the model with a
  session token instead of the key. The HTTP client, the session resolver, the clock and
  the reading of a request body are parameters over a world of any type.
\<close>

subsection \<open>The proxy\<close>

record upstream_request =
  up_Method :: string
  up_URL :: string
  up_Header :: header
  up_Body :: string

record upstream_response =
  ur_Status :: int
  ur_Header :: header
  ur_Body :: string

text \<open>
  A resolver may give \<open>nil\<close> with no error. Without a resolver (\<open>None\<close>) the token alone
  decides. \<open>px_ReadBody\<close> is \<open>None\<close> when reading the body fails.
\<close>

record 'w proxy =
  px_Mac :: mac
  px_Tokens :: TokenManager
  px_Sessions :: "(string \<Rightarrow> 'w \<Rightarrow> (kerr + AgentSession option) \<times> 'w) option"
  px_UpstreamURL :: string
  px_UpstreamKey :: string
  px_Now :: "'w \<Rightarrow> gtime"
  px_Do :: "upstream_request \<Rightarrow> 'w \<Rightarrow> (kerr + upstream_response) \<times> 'w"
  px_ReadBody :: "request \<Rightarrow> string option"

datatype proxy_reply =
    ProxyError int string
  | ProxyOK "(string \<times> string) list"
  | ProxyForward int header string

subsection \<open>Authentication\<close>

definition session_live :: "AgentSession \<Rightarrow> gtime \<Rightarrow> bool" where
  "session_live session now \<longleftrightarrow>
     (if m_DeletionTimestamp (s_Meta session) \<noteq> None then False
      else if st_Phase (s_Status session) = PhaseExpired
        \<or> st_Phase (s_Status session) = PhaseTerminating
        \<or> st_Phase (s_Status session) = PhaseFailed then False
      else if (case st_ExpiresAt (s_Status session) of
                 None \<Rightarrow> False | Some e \<Rightarrow> \<not> Before now e) then False
      else sp_ModelRef (s_Spec session) \<in> AllowedModelRefs)"

definition authenticate :: "'w proxy \<Rightarrow> request \<Rightarrow> 'w \<Rightarrow> string option \<times> 'w" where
  "authenticate p r w =
     (let header = hdr_Get (rq_Header r) ''Authorization'' in
      if \<not> HasPrefix header ''Bearer '' then (None, w)
      else
        (case ValidateWithExpiry (px_Mac p) (px_Tokens p) (px_Now p w) (TrimPrefix header ''Bearer '') of
           (sessionID, _, ok) \<Rightarrow>
             if \<not> ok then (None, w)
             else
               (case px_Sessions p of
                  None \<Rightarrow> (Some sessionID, w)
                | Some get \<Rightarrow>
                    (case get sessionID w of
                       (Inr (Some session), w') \<Rightarrow>
                         (if session_live session (px_Now p w') then (Some sessionID, w')
                          else (None, w'))
                     | (_, w') \<Rightarrow> (None, w')))))"

subsection \<open>Forwarding\<close>

text \<open>\<open>http.NewRequestWithContext\<close> fails on a method that is no token and on a bad URL.\<close>

definition NewRequest_ok :: "string \<Rightarrow> string \<Rightarrow> bool" where
  "NewRequest_ok method url \<longleftrightarrow> list_all token_char method \<and> url_Parse_User url \<noteq> None"

definition upstream_header :: "'w proxy \<Rightarrow> request \<Rightarrow> header" where
  "upstream_header p r =
     (let h = hdr_Del (rq_Header r) ''Authorization'' in
      if px_UpstreamKey p \<noteq> [] then hdr_Set h ''Authorization'' (''Bearer '' @ px_UpstreamKey p) else h)"

definition add_values :: "header \<Rightarrow> string \<Rightarrow> string list \<Rightarrow> header" where
  "add_values h key vs = foldl (\<lambda>h v. hdr_Add h key v) h vs"

fun response_header :: "header \<Rightarrow> header \<Rightarrow> header" where
  "response_header h [] = h"
| "response_header h ((key, vs) # rest) =
     (if EqualFold key ''Authorization'' \<or> EqualFold key ''Set-Cookie''
      then response_header h rest
      else response_header (add_values h key vs) rest)"

definition ProxyHandler :: "'w proxy \<Rightarrow> request \<Rightarrow> 'w \<Rightarrow> proxy_reply \<times> 'w" where
  "ProxyHandler p r w =
     (case authenticate p r w of
        (None, w) \<Rightarrow> (ProxyError StatusUnauthorized ''unauthorized'', w)
      | (Some sessionID, w) \<Rightarrow>
          (if px_UpstreamURL p = [] then (ProxyOK [(''ok'', ''true''), (''sessionId'', sessionID)], w)
           else
             (case px_ReadBody p r of
                None \<Rightarrow> (ProxyError StatusBadRequest ''invalid body'', w)
              | Some body \<Rightarrow>
                  (if \<not> NewRequest_ok (rq_Method r) (px_UpstreamURL p)
                   then (ProxyError StatusBadGateway ''bad upstream'', w)
                   else
                     (case px_Do p \<lparr>up_Method = rq_Method r, up_URL = px_UpstreamURL p,
                             up_Header = upstream_header p r, up_Body = body\<rparr> w of
                        (Inl _, w) \<Rightarrow> (ProxyError StatusBadGateway ''upstream unavailable'', w)
                      | (Inr resp, w) \<Rightarrow>
                          (ProxyForward (ur_Status resp) (response_header [] (ur_Header resp))
                             (ur_Body resp), w))))))"

subsection \<open>Headers\<close>

lemma upstream_header_Authorization:
  "map_of (upstream_header p r) ''Authorization'' =
     (if px_UpstreamKey p = [] then None else Some [''Bearer '' @ px_UpstreamKey p])"
  by (simp add: upstream_header_def Let_def map_of_hdr_Del map_of_hdr_Set canonical_names)

lemma upstream_header_rest:
  "k \<noteq> ''Authorization'' \<Longrightarrow> map_of (upstream_header p r) k = map_of (rq_Header r) k"
  by (simp add: upstream_header_def Let_def map_of_hdr_Del map_of_hdr_Set canonical_names)

lemma fold_head_ascii: "code c < 128 \<Longrightarrow> fold_head (c # cs) = Some (lower c, cs)"
  by (auto simp: code_def)

lemma eat_ci_ascii:
  "\<forall>c \<in> set s. code c < 128 \<Longrightarrow> eat_ci w s = Some [] \<longleftrightarrow> map lower s = w"
proof (induction w arbitrary: s)
  case (Cons p w)
  then show ?case by (cases s) (auto simp: fold_head_ascii simp del: fold_head.simps(2))
qed simp

lemma EqualFold_canonical: "EqualFold (CanonicalHeaderKey k) w = EqualFold k w"
proof (cases "list_all token_char k")
  case True
  then have "\<forall>c \<in> set k. code c < 128" by (auto simp: list_all_iff token_char_ascii)
  with capitalise_ascii [OF this, of True] True show ?thesis
    by (simp add: EqualFold_def CanonicalHeaderKey_def eat_ci_ascii map_lower_capitalise)
qed (simp add: CanonicalHeaderKey_def)

definition stripped :: "string \<Rightarrow> bool" where
  "stripped k \<longleftrightarrow> EqualFold k ''Authorization'' \<or> EqualFold k ''Set-Cookie''"

lemma stripped_canonical [simp]: "stripped (CanonicalHeaderKey k) = stripped k"
  by (simp add: stripped_def EqualFold_canonical)

lemma add_values_keys: "fst ` set (add_values h key vs) \<subseteq> insert (CanonicalHeaderKey key) (fst ` set h)"
proof (induction vs arbitrary: h)
  case (Cons v vs)
  have "fst ` set (hdr_Add h key v) \<subseteq> insert (CanonicalHeaderKey key) (fst ` set h)"
    by (auto simp: hdr_Add_def hdr_Del_def)
  with Cons.IH [of "hdr_Add h key v"] show ?case by (auto simp: add_values_def)
qed (auto simp: add_values_def)

lemma response_header_keys:
  "k \<in> fst ` set (response_header h resp) \<Longrightarrow> k \<in> fst ` set h \<or> \<not> stripped k"
proof (induction h resp rule: response_header.induct)
  case (2 h key vs rest)
  then show ?case
    using add_values_keys [of h key vs] by (auto simp: stripped_def EqualFold_canonical split: if_splits)
qed simp

lemma hdr_values_Add: "hdr_values (hdr_Add h key v) key = hdr_values h key @ [v]"
  by (simp add: hdr_values_def map_of_hdr_Add)

lemma map_of_add_values:
  "map_of (add_values h key vs) k =
     (if k = CanonicalHeaderKey key \<and> vs \<noteq> [] then Some (hdr_values h key @ vs) else map_of h k)"
proof (induction vs arbitrary: h)
  case (Cons v vs)
  then show ?case
    by (simp add: add_values_def hdr_values_Add map_of_hdr_Add)
qed (simp add: add_values_def)

text \<open>What \<open>net/http\<close> promises of the header of a response.\<close>

definition wellformed_header :: "header \<Rightarrow> bool" where
  "wellformed_header h \<longleftrightarrow> distinct (map fst h) \<and>
     list_all (\<lambda>(k, vs). CanonicalHeaderKey k = k \<and> vs \<noteq> []) h"

lemma response_header_exact:
  "wellformed_header resp \<Longrightarrow> fst ` set resp \<inter> fst ` set h = {} \<Longrightarrow>
   map_of (response_header h resp) k =
     (if k \<in> fst ` set resp then (if stripped k then None else map_of resp k) else map_of h k)"
proof (induction h resp rule: response_header.induct)
  case (2 h key vs rest)
  have wf: "wellformed_header rest" "CanonicalHeaderKey key = key" "vs \<noteq> []" "key \<notin> fst ` set rest"
    using 2(3) by (auto simp: wellformed_header_def)
  have fresh: "map_of h key = None" using 2(4) by (auto simp: map_of_eq_None_iff)
  show ?case
  proof (cases "stripped key")
    case True
    with 2(1,4) wf fresh show ?thesis by (auto simp: stripped_def)
  next
    case False
    have "fst ` set rest \<inter> fst ` set (add_values h key vs) = {}"
      using add_values_keys [of h key vs] 2(4) wf(2,4) by (simp add: disjoint_iff) blast
    with False 2(2) wf fresh show ?thesis
      by (auto simp: stripped_def map_of_add_values hdr_values_def)
  qed
qed simp

subsection \<open>Properties\<close>

lemma authenticate_SomeD:
  assumes "authenticate p r w = (Some sid, w')"
  shows "\<exists>token e. hdr_Get (rq_Header r) ''Authorization'' = ''Bearer '' @ token \<and>
    ValidateWithExpiry (px_Mac p) (px_Tokens p) (px_Now p w) token = (sid, e, True) \<and>
    (case px_Sessions p of None \<Rightarrow> w' = w
     | Some get \<Rightarrow> \<exists>s. get sid w = (Inr (Some s), w') \<and> session_live s (px_Now p w'))"
proof -
  let ?h = "hdr_Get (rq_Header r) ''Authorization''"
  from assms have b: "HasPrefix ?h ''Bearer ''"
    by (auto simp: authenticate_def Let_def split: if_splits)
  obtain e where v: "ValidateWithExpiry (px_Mac p) (px_Tokens p) (px_Now p w) (TrimPrefix ?h ''Bearer '') = (sid, e, True)"
    and g: "case px_Sessions p of None \<Rightarrow> w' = w
     | Some get \<Rightarrow> \<exists>s. get sid w = (Inr (Some s), w') \<and> session_live s (px_Now p w')"
    using assms b
    by (auto simp: authenticate_def Let_def split: prod.splits if_splits option.splits sum.splits)
  show ?thesis using HasPrefix_TrimPrefix [OF b] v g by blast
qed

definition example_do :: "upstream_request \<Rightarrow> unit \<Rightarrow> (kerr + upstream_response) \<times> unit" where
  "example_do u w = (Inr \<lparr>ur_Status = 200,
     ur_Header = [(''Set-Cookie'', [''a=b'']), (''X-Request-Id'', [''1''])], ur_Body = ''ok''\<rparr>, w)"

definition example_proxy :: "unit proxy" where
  "example_proxy =
     \<lparr>px_Mac = (\<lambda>k s. []), px_Tokens = \<lparr>tm_Secret = ''s'', tm_TTL = 0\<rparr>,
      px_Sessions = Some (\<lambda>n w. (Inr (Some (NewAgentSession n [] sample_spec (UnixTime 0))), w)),
      px_UpstreamURL = ''http://llm/v1'', px_UpstreamKey = ''key'', px_Now = (\<lambda>_. UnixTime 5),
      px_Do = example_do, px_ReadBody = (\<lambda>r. Some (rq_Body r))\<rparr>"

definition example_call :: request where
  "example_call = \<lparr>rq_Method = ''POST'', rq_EscapedPath = ''/v1'', rq_Path = ''/v1'',
     rq_Header = [(''Authorization'', [''Bearer cask-proxy.s.9.''])], rq_Body = ''hi''\<rparr>"

lemma example_proxy_reply:
  "ProxyHandler example_proxy example_call () =
     (ProxyForward 200 [(''X-Request-Id'', [''1''])] ''ok'', ())"
  by code_simp

text \<open>
  Claim C2. Unless it answers 401, the proxy holds a bearer token that validates under its secret
  and its clock and, where it resolves sessions, has found the session named by the token:
  not deleted, not expired, terminating or failed, before its expiry and with an allowed
  model.
\<close>

theorem proxy_authorized:
  assumes "ProxyHandler p r w = (rep, w')" "rep \<noteq> ProxyError StatusUnauthorized ''unauthorized''"
  shows "\<exists>token sid e. hdr_Get (rq_Header r) ''Authorization'' = ''Bearer '' @ token \<and>
    ValidateWithExpiry (px_Mac p) (px_Tokens p) (px_Now p w) token = (sid, e, True) \<and>
    (\<forall>get. px_Sessions p = Some get \<longrightarrow>
      (\<exists>s w1. get sid w = (Inr (Some s), w1) \<and> m_DeletionTimestamp (s_Meta s) = None \<and>
        st_Phase (s_Status s) \<notin> {PhaseExpired, PhaseTerminating, PhaseFailed} \<and>
        (\<forall>x. st_ExpiresAt (s_Status s) = Some x \<longrightarrow> nanos (px_Now p w1) < nanos x) \<and>
        sp_ModelRef (s_Spec s) \<in> AllowedModelRefs))"
proof -
  obtain sid w1 where "authenticate p r w = (Some sid, w1)"
    using assms by (auto simp: ProxyHandler_def split: prod.splits option.splits)
  from authenticate_SomeD [OF this] show ?thesis
    by (cases "px_Sessions p")
      (fastforce simp: session_live_def Before_def split: if_splits option.splits)+
qed

theorem proxy_authorized_witness:
  "\<exists>token sid e. hdr_Get (rq_Header example_call) ''Authorization'' = ''Bearer '' @ token \<and>
    ValidateWithExpiry (px_Mac example_proxy) (px_Tokens example_proxy) (px_Now example_proxy ()) token =
      (sid, e, True)"
  using proxy_authorized [OF example_proxy_reply] by auto

text \<open>
  Claim C3. The proxy asks the upstream only after the client has
  authenticated, and only with the request whose authorization is the proxy's own key, or none
  when there is no key, and whose other headers, method and body are the client's and whose
  URL is the configured one: an upstream that answers differently on any other request, or in
  any other world than the one authentication ends in, makes no difference.
\<close>

theorem proxy_upstream_requests:
  assumes "\<And>u v sid. authenticate p r w = (Some sid, v) \<Longrightarrow>
      map_of (up_Header u) ''Authorization'' =
        (if px_UpstreamKey p = [] then None else Some [''Bearer '' @ px_UpstreamKey p]) \<Longrightarrow>
      (\<forall>k. k \<noteq> ''Authorization'' \<longrightarrow> map_of (up_Header u) k = map_of (rq_Header r) k) \<Longrightarrow>
      up_Method u = rq_Method r \<Longrightarrow> up_URL u = px_UpstreamURL p \<Longrightarrow>
      px_ReadBody p r = Some (up_Body u) \<Longrightarrow> d1 u v = d2 u v"
  shows "ProxyHandler (p\<lparr>px_Do := d1\<rparr>) r w = ProxyHandler (p\<lparr>px_Do := d2\<rparr>) r w"
proof -
  have sel: "px_Mac (p\<lparr>px_Do := d\<rparr>) = px_Mac p" "px_Tokens (p\<lparr>px_Do := d\<rparr>) = px_Tokens p"
    "px_Now (p\<lparr>px_Do := d\<rparr>) = px_Now p" "px_Sessions (p\<lparr>px_Do := d\<rparr>) = px_Sessions p"
    "px_UpstreamKey (p\<lparr>px_Do := d\<rparr>) = px_UpstreamKey p" for d
    by simp_all
  have hdr: "upstream_header (p\<lparr>px_Do := d\<rparr>) r = upstream_header p r"
    and auth: "authenticate (p\<lparr>px_Do := d\<rparr>) r w = authenticate p r w" for d
    unfolding upstream_header_def authenticate_def sel by (rule refl)+
  have eq: "d1 \<lparr>up_Method = rq_Method r, up_URL = px_UpstreamURL p, up_Header = upstream_header p r,
      up_Body = body\<rparr> v = d2 \<lparr>up_Method = rq_Method r, up_URL = px_UpstreamURL p,
      up_Header = upstream_header p r, up_Body = body\<rparr> v"
    if "authenticate p r w = (Some sid, v)" "px_ReadBody p r = Some body" for sid body v
    by (rule assms [OF that(1)])
      (simp_all add: that(2) upstream_header_Authorization upstream_header_rest)
  obtain a v where "authenticate p r w = (a, v)" by fastforce
  with eq show ?thesis
    by (cases a; cases "px_ReadBody p r") (simp_all add: ProxyHandler_def hdr auth)
qed

theorem proxy_upstream_requests_witness:
  "ProxyHandler (example_proxy\<lparr>px_Do := example_do\<rparr>) example_call () =
   ProxyHandler (example_proxy\<lparr>px_Do := \<lambda>u w.
     if map_of (up_Header u) ''Authorization'' = Some [''Bearer key''] \<and> up_Body u = ''hi''
     then example_do u w
     else (Inl (OtherError ''leak''), w)\<rparr>) example_call ()"
proof (rule proxy_upstream_requests)
  fix u :: upstream_request and w :: unit
  assume "map_of (up_Header u) ''Authorization'' =
    (if px_UpstreamKey example_proxy = [] then None else Some [''Bearer '' @ px_UpstreamKey example_proxy])"
    "px_ReadBody example_proxy example_call = Some (up_Body u)"
  then show "example_do u w =
    (if map_of (up_Header u) ''Authorization'' = Some [''Bearer key''] \<and> up_Body u = ''hi'' then example_do u w
     else (Inl (OtherError ''leak''), w))"
    by (simp add: example_proxy_def example_call_def)
qed

text \<open>
  Claim C23. What the proxy returns is a response the upstream gave, with its status and body; no
  header in it is an authorization or a cookie, in any letter case, and every other header
  has the upstream's values.
\<close>

theorem proxy_response:
  assumes "ProxyHandler p r w = (ProxyForward st h b, w')"
  shows "\<exists>u w1 resp. px_Do p u w1 = (Inr resp, w') \<and> st = ur_Status resp \<and> b = ur_Body resp \<and>
    (\<forall>k \<in> fst ` set h. \<not> EqualFold k ''Authorization'' \<and> \<not> EqualFold k ''Set-Cookie'') \<and>
    (wellformed_header (ur_Header resp) \<longrightarrow>
      (\<forall>k. \<not> EqualFold k ''Authorization'' \<and> \<not> EqualFold k ''Set-Cookie'' \<longrightarrow>
        map_of h k = map_of (ur_Header resp) k))"
proof -
  obtain u w1 resp where
    "px_Do p u w1 = (Inr resp, w')" "st = ur_Status resp" "b = ur_Body resp"
    "h = response_header [] (ur_Header resp)"
    using assms by (auto simp: ProxyHandler_def split: prod.splits option.splits if_splits sum.splits)
  moreover have "map_of (response_header [] (ur_Header resp)) k = map_of (ur_Header resp) k"
    if "wellformed_header (ur_Header resp)" "\<not> stripped k" for k
    using response_header_exact [OF that(1), of "[]" k] that(2)
    by (auto simp: map_of_eq_None_iff split: if_splits) (metis map_of_eq_None_iff)
  ultimately show ?thesis
    using response_header_keys [of _ "[]" "ur_Header resp"]
    by (fastforce simp: stripped_def)
qed

theorem proxy_response_witness:
  "\<not> EqualFold ''X-Request-Id'' ''Authorization'' \<and> \<not> EqualFold ''X-Request-Id'' ''Set-Cookie''"
  using proxy_response [OF example_proxy_reply] by (elim exE conjE) (simp only: list.set image_insert image_empty fst_conv ball_simps bex_simps insert_iff, blast)

end
