(* ===== verification/Cask_Programs.thy ===== *)
theory Cask_Programs
  imports Cask_Cli Cask_Gateway Cask_Controller Cask_Proxy
begin

text \<open>
  The programs under \<open>cmd/\<close>: what each makes of its environment and arguments and how it puts
  the components together, with \<open>Config\<close> and \<open>NewForConfig\<close> of \<open>internal/kube/client.go\<close>.
  A program exits with a code or starts; how the servers run from there is in \<open>Cask_Serve\<close>.
\<close>

subsection \<open>Configuration\<close>

definition envDefault :: "(string \<Rightarrow> string) \<Rightarrow> string \<Rightarrow> string \<Rightarrow> string" where
  "envDefault env key fallback = (if env key \<noteq> [] then env key else fallback)"

text \<open>
  What a program finds around it: the environment, the readers of \<open>client-go\<close> for a
  configuration (of a file, of the cluster it runs in), the constructors of both clients and
  the cluster behind a configuration.
\<close>

record ('cfg, 'w) platform =
  pf_Env :: "string \<Rightarrow> string"
  pf_BuildConfigFromFlags :: "string \<Rightarrow> kerr + 'cfg"
  pf_InClusterConfig :: "kerr + 'cfg"
  pf_Dynamic :: "'cfg \<Rightarrow> kerr option"      \<comment> \<open>the error of \<open>dynamic.NewForConfig\<close>\<close>
  pf_Clientset :: "'cfg \<Rightarrow> kerr option"    \<comment> \<open>and of \<open>kubernetes.NewForConfig\<close>\<close>
  pf_Cluster :: "'cfg \<Rightarrow> 'w cluster"

definition kube_Config :: "('cfg, 'w) platform \<Rightarrow> string \<Rightarrow> kerr + 'cfg" where
  "kube_Config pf kubeconfig =
     (if kubeconfig \<noteq> [] then pf_BuildConfigFromFlags pf kubeconfig
      else
        (case pf_InClusterConfig pf of
           Inr cfg \<Rightarrow> Inr cfg
         | Inl _ \<Rightarrow>
             (if pf_Env pf ''KUBECONFIG'' \<noteq> [] then pf_BuildConfigFromFlags pf (pf_Env pf ''KUBECONFIG'')
              else
                (case UserHomeDir (pf_Env pf) of
                   None \<Rightarrow> Inl (OtherError ''$HOME is not defined'')
                 | Some home \<Rightarrow> pf_BuildConfigFromFlags pf (filepath_Join [home, ''.kube'', ''config''])))))"

text \<open>The session client is the cluster and the namespace it works in.\<close>

definition NewForConfig :: "('cfg, 'w) platform \<Rightarrow> 'cfg \<Rightarrow> string \<Rightarrow> kerr + 'w cluster \<times> string" where
  "NewForConfig pf cfg ns =
     (case pf_Dynamic pf cfg of
        Some err \<Rightarrow> Inl err
      | None \<Rightarrow>
          (case pf_Clientset pf cfg of
             Some err \<Rightarrow> Inl err
           | None \<Rightarrow> Inr (pf_Cluster pf cfg, if ns = [] then DefaultSessionNamespace else ns)))"

text \<open>\<open>flag.Parse\<close> ends the program when the arguments are wrong or ask for help.\<close>

datatype 'p start = Exits int | Starts 'p

definition main_flags ::
    "(string \<times> flag_value) list \<Rightarrow> string list \<Rightarrow> ((string \<times> flag_value) list \<Rightarrow> 'p start) \<Rightarrow> 'p start" where
  "main_flags formal args f =
     (case flag_Parse formal args of
        Inl ErrHelp \<Rightarrow> Exits 0
      | Inl BadFlags \<Rightarrow> Exits 2
      | Inr (fs, _) \<Rightarrow> f fs)"

definition common_flags :: "(string \<Rightarrow> string) \<Rightarrow> (string \<times> flag_value) list" where
  "common_flags env =
     [(''namespace'', StringFlag (envDefault env ''SESSION_NAMESPACE'' DefaultSessionNamespace)),
      (''kubeconfig'', StringFlag (env ''KUBECONFIG''))]"

subsection \<open>cask-api\<close>

text \<open>What the API server takes from its surroundings besides the store and the terminal backend.\<close>

record 'w surroundings =
  su_Clock :: "'w \<Rightarrow> gtime"
  su_Random :: "'w \<Rightarrow> string option \<times> 'w"
  su_Decode :: "string \<Rightarrow> json option"
  su_oor :: "rat \<Rightarrow> int64"
  su_Upgrade :: "(request \<Rightarrow> bool) \<Rightarrow> request \<Rightarrow> 'w \<Rightarrow> bool \<times> 'w"

definition api_gateway ::
    "'w store \<Rightarrow> (ExecRequest \<Rightarrow> 'w \<Rightarrow> (kerr + 's) \<times> 'w) \<Rightarrow> 'w surroundings \<Rightarrow> ('w, 's) gateway" where
  "api_gateway store start su =
     \<lparr>gw_Resolver = Some (so_Get store), gw_Start = Some start, gw_CheckOrigin = None,
      gw_Upgrade = su_Upgrade su, gw_Timeout = 0\<rparr>"

definition api_server ::
    "'w store \<Rightarrow> (ExecRequest \<Rightarrow> 'w \<Rightarrow> (kerr + 's) \<times> 'w) \<Rightarrow> string \<Rightarrow> 'w surroundings \<Rightarrow> 'w server" where
  "api_server store start ns su =
     \<lparr>sv_Store = Some store, sv_Terminal = Some (terminal_handler (api_gateway store start su)),
      sv_Namespace = ns, sv_Now = None, sv_Clock = su_Clock su, sv_Random = su_Random su,
      sv_Decode = su_Decode su, sv_oor = su_oor su\<rparr>"

text \<open>
  With \<open>-memory\<close> the store and the terminals live in the program; otherwise both are those of
  the cluster. The executor is the one of the configuration the clients were made from.
\<close>

datatype ('cfg, 'w) api_backend = MemoryBackend | KubernetesBackend 'cfg "'w cluster" string

record ('cfg, 'w) api_program =
  ap_Addr :: string
  ap_Namespace :: string
  ap_Backend :: "('cfg, 'w) api_backend"

definition api_flags :: "(string \<Rightarrow> string) \<Rightarrow> (string \<times> flag_value) list" where
  "api_flags env =
     (''addr'', StringFlag (envDefault env ''CASK_API_ADDR'' '':8080'')) # common_flags env
       @ [(''memory'', BoolFlag (env ''CASK_MEMORY'' = ''1''))]"

definition api_main :: "('cfg, 'w) platform \<Rightarrow> string list \<Rightarrow> ('cfg, 'w) api_program start" where
  "api_main pf args =
     main_flags (api_flags (pf_Env pf)) args
       (\<lambda>fs. if flag_bool fs ''memory''
             then Starts \<lparr>ap_Addr = flag_string fs ''addr'', ap_Namespace = flag_string fs ''namespace'',
                          ap_Backend = MemoryBackend\<rparr>
             else
               (case kube_Config pf (flag_string fs ''kubeconfig'') of
                  Inl _ \<Rightarrow> Exits 1
                | Inr cfg \<Rightarrow>
                    (case NewForConfig pf cfg (flag_string fs ''namespace'') of
                       Inl _ \<Rightarrow> Exits 1
                     | Inr (K, ns) \<Rightarrow>
                         Starts \<lparr>ap_Addr = flag_string fs ''addr'',
                           ap_Namespace = flag_string fs ''namespace'',
                           ap_Backend = KubernetesBackend cfg K ns\<rparr>)))"

text \<open>The two servers.\<close>

definition memory_api :: "('cfg, 'w) api_program \<Rightarrow> MemoryStore surroundings \<Rightarrow> MemoryStore server" where
  "memory_api ap su = api_server memory_store (\<lambda>_ w. (Inr echo_Start, w)) (ap_Namespace ap) su"

definition kube_api ::
    "('cfg, 'w) api_program \<Rightarrow> 'w cluster \<Rightarrow> string
      \<Rightarrow> (string \<Rightarrow> string \<Rightarrow> PodExecOptions \<Rightarrow> kerr option) \<Rightarrow> 'w surroundings \<Rightarrow> 'w server" where
  "kube_api ap K ns new su =
     api_server (kube_store K ns) (kube_Start (Some new)) (ap_Namespace ap) su"

subsection \<open>cask-controller\<close>

definition secret_flag :: "(string \<Rightarrow> string) \<Rightarrow> string \<times> flag_value" where
  "secret_flag env = (''token-secret'', StringFlag (envDefault env ''CASK_TOKEN_SECRET'' ''dev-session-proxy-secret''))"

definition controller_flags :: "(string \<Rightarrow> string) \<Rightarrow> (string \<times> flag_value) list" where
  "controller_flags env =
     common_flags env
       @ [(''runtime-image'', StringFlag (envDefault env ''AGENT_RUNTIME_IMAGE'' DefaultRuntimeImage)),
          (''model-proxy-url'', StringFlag (envDefault env ''CASK_MODEL_PROXY_URL''
             ''http://cask-model-proxy.agentcask-system.svc.cluster.local:8080/internal/model-proxy/v1'')),
          secret_flag env]"

definition controller_main :: "('cfg, 'w) platform \<Rightarrow> mac \<Rightarrow> string list \<Rightarrow> 'w reconciler start" where
  "controller_main pf mac args =
     main_flags (controller_flags (pf_Env pf)) args
       (\<lambda>fs. case kube_Config pf (flag_string fs ''kubeconfig'') of
               Inl _ \<Rightarrow> Exits 1
             | Inr cfg \<Rightarrow>
                 (if pf_Dynamic pf cfg \<noteq> None \<or> pf_Clientset pf cfg \<noteq> None then Exits 1
                  else Starts
                    \<lparr>rc_Cluster = pf_Cluster pf cfg,
                     rc_Config =
                       \<lparr>cf_Namespace = flag_string fs ''namespace'',
                        cf_RuntimeImage = flag_string fs ''runtime-image'',
                        cf_ModelProxyURL = flag_string fs ''model-proxy-url'',
                        cf_TokenSecret = flag_string fs ''token-secret'',
                        cf_Profiles = None, cf_ReconcileInterval = 0\<rparr>,
                     rc_Now = None, rc_Mac = mac\<rparr>))"

subsection \<open>cask-model-proxy\<close>

record 'w proxy_surroundings =
  ps_Mac :: mac
  ps_Now :: "'w \<Rightarrow> gtime"
  ps_Do :: "upstream_request \<Rightarrow> 'w \<Rightarrow> (kerr + upstream_response) \<times> 'w"
  ps_ReadBody :: "request \<Rightarrow> string option"

record 'w proxy_program =
  pp_Addr :: string
  pp_Cluster :: "'w cluster"
  pp_Namespace :: string
  pp_Proxy :: "'w proxy"

definition proxy_flags :: "(string \<Rightarrow> string) \<Rightarrow> (string \<times> flag_value) list" where
  "proxy_flags env =
     (''addr'', StringFlag (envDefault env ''CASK_MODEL_PROXY_ADDR'' '':8080'')) # common_flags env
       @ [(''upstream-url'', StringFlag (env ''CASK_UPSTREAM_URL'')),
          (''upstream-key'', StringFlag (env ''CASK_UPSTREAM_API_KEY'')), secret_flag env]"

definition resolve_session :: "'w cluster \<Rightarrow> string \<Rightarrow> string \<Rightarrow> 'w \<Rightarrow> (kerr + AgentSession option) \<times> 'w" where
  "resolve_session K ns sid w =
     (case kube_Get K ns sid w of (Inl err, w) \<Rightarrow> (Inl err, w) | (Inr s, w) \<Rightarrow> (Inr (Some s), w))"

definition proxy_main ::
    "('cfg, 'w) platform \<Rightarrow> 'w proxy_surroundings \<Rightarrow> string list \<Rightarrow> 'w proxy_program start" where
  "proxy_main pf su args =
     main_flags (proxy_flags (pf_Env pf)) args
       (\<lambda>fs. case kube_Config pf (flag_string fs ''kubeconfig'') of
               Inl _ \<Rightarrow> Exits 1
             | Inr cfg \<Rightarrow>
                 (case NewForConfig pf cfg (flag_string fs ''namespace'') of
                    Inl _ \<Rightarrow> Exits 1
                  | Inr (K, ns) \<Rightarrow>
                      Starts
                        \<lparr>pp_Addr = flag_string fs ''addr'', pp_Cluster = K, pp_Namespace = ns,
                         pp_Proxy =
                           \<lparr>px_Mac = ps_Mac su,
                            px_Tokens = \<lparr>tm_Secret = flag_string fs ''token-secret'', tm_TTL = 0\<rparr>,
                            px_Sessions = Some (resolve_session K ns),
                            px_UpstreamURL = flag_string fs ''upstream-url'',
                            px_UpstreamKey = flag_string fs ''upstream-key'',
                            px_Now = ps_Now su, px_Do = ps_Do su, px_ReadBody = ps_ReadBody su\<rparr>\<rparr>))"

text \<open>The routes of the proxy; a path that is not clean is redirected.\<close>

datatype mux_reply = Redirected string | Answered proxy_reply

definition proxy_mux :: "'w proxy_program \<Rightarrow> request \<Rightarrow> 'w \<Rightarrow> mux_reply \<times> 'w" where
  "proxy_mux pp r w =
     (let path = (if rq_Method r = ''CONNECT'' then rq_EscapedPath r else cleanPath (rq_EscapedPath r));
          segs = path_segments path
      in if path \<noteq> rq_EscapedPath r then (Redirected path, w)
         else if segs = [''healthz''] then (Answered (ProxyOK [(''status'', ''ok'')]), w)
         else if segs = [''readyz''] then
           (case kube_Ready (pp_Cluster pp) (pp_Namespace pp) w of
              (Some _, w) \<Rightarrow> (Answered (ProxyError StatusServiceUnavailable ''not ready''), w)
            | (None, w) \<Rightarrow> (Answered (ProxyOK [(''status'', ''ready'')]), w))
         else if segs = [''internal'', ''model-proxy'', ''v1'', ''chat'', ''completions'']
         then (case ProxyHandler (pp_Proxy pp) r w of (rep, w) \<Rightarrow> (Answered rep, w))
         else (Answered (ProxyError StatusNotFound ''404 page not found''), w))"

subsection \<open>The programs together\<close>

lemma flag_Parse_Nil [simp]: "flag_Parse formal [] = Inr (formal, [])"
  by (simp add: flag_Parse.simps)

lemma flag_string_Cons [simp]:
  "flag_string ((k, v) # fs) name =
     (if k = name then (case v of StringFlag s \<Rightarrow> s | _ \<Rightarrow> []) else flag_string fs name)"
  by (simp add: flag_string_def)

lemma flag_bool_Cons [simp]:
  "flag_bool ((k, v) # fs) name =
     (if k = name then (case v of BoolFlag b \<Rightarrow> b | _ \<Rightarrow> False) else flag_bool fs name)"
  by (simp add: flag_bool_def)

lemma envDefault_nonempty: "d \<noteq> [] \<Longrightarrow> envDefault env k d \<noteq> []"
  by (simp add: envDefault_def)

lemma defaults_nonempty [simp]:
  "envDefault env k DefaultSessionNamespace \<noteq> []" "envDefault env k ''dev-session-proxy-secret'' \<noteq> []"
  by (simp_all add: envDefault_nonempty DefaultSessionNamespace_def)

lemmas main_defs = main_flags_def common_flags_def secret_flag_def NewForConfig_def

lemma controller_started:
  assumes "controller_main pf mac [] = Starts r"
  shows "\<exists>cfg. kube_Config pf (pf_Env pf ''KUBECONFIG'') = Inr cfg \<and> rc_Cluster r = pf_Cluster pf cfg \<and>
    rc_namespace r = envDefault (pf_Env pf) ''SESSION_NAMESPACE'' DefaultSessionNamespace \<and>
    cf_TokenSecret (rc_config r) = envDefault (pf_Env pf) ''CASK_TOKEN_SECRET'' ''dev-session-proxy-secret'' \<and>
    rc_Mac r = mac"
proof (cases "kube_Config pf (pf_Env pf ''KUBECONFIG'')")
  case (Inr cfg)
  with assms have "rc_Cluster r = pf_Cluster pf cfg" "rc_Mac r = mac"
    "cf_Namespace (rc_Config r) = envDefault (pf_Env pf) ''SESSION_NAMESPACE'' DefaultSessionNamespace"
    "cf_TokenSecret (rc_Config r) = envDefault (pf_Env pf) ''CASK_TOKEN_SECRET'' ''dev-session-proxy-secret''"
    by (auto simp: controller_main_def controller_flags_def main_defs split: if_splits)
  with Inr show ?thesis by (simp add: rc_namespace_def rc_config_def Let_def defaultString_def)
qed (use assms in \<open>simp add: controller_main_def controller_flags_def main_defs\<close>)

lemma proxy_started:
  assumes "proxy_main pf su [] = Starts pp"
  shows "\<exists>cfg. kube_Config pf (pf_Env pf ''KUBECONFIG'') = Inr cfg \<and> pp_Cluster pp = pf_Cluster pf cfg \<and>
    pp_Namespace pp = envDefault (pf_Env pf) ''SESSION_NAMESPACE'' DefaultSessionNamespace \<and>
    px_Tokens (pp_Proxy pp) =
      \<lparr>tm_Secret = envDefault (pf_Env pf) ''CASK_TOKEN_SECRET'' ''dev-session-proxy-secret'', tm_TTL = 0\<rparr> \<and>
    px_Mac (pp_Proxy pp) = ps_Mac su \<and> px_Now (pp_Proxy pp) = ps_Now su \<and>
    px_Sessions (pp_Proxy pp) = Some (resolve_session (pp_Cluster pp) (pp_Namespace pp))"
proof (cases "kube_Config pf (pf_Env pf ''KUBECONFIG'')")
  case (Inr cfg)
  with assms show ?thesis
    by (auto simp: proxy_main_def proxy_flags_def main_defs split: option.splits)
qed (use assms in \<open>simp add: proxy_main_def proxy_flags_def main_defs\<close>)

text \<open>
  Claim C33. Started without arguments in the same environment, the three server programs,
  if they start and the API server is not told to keep its sessions in memory, work on the
  same cluster and the same namespace of sessions; and the controller signs session tokens with
  the secret that the model proxy checks them with.
\<close>

theorem programs_agree:
  assumes "controller_main pf mac [] = Starts r" "proxy_main pf su [] = Starts pp"
    and "api_main pf [] = Starts ap" "ap_Backend ap = KubernetesBackend cfg K ns"
  shows "rc_Cluster r = pp_Cluster pp \<and> K = pp_Cluster pp \<and>
    rc_namespace r = pp_Namespace pp \<and> ns = pp_Namespace pp \<and>
    tm_secret \<lparr>tm_Secret = cf_TokenSecret (rc_config r), tm_TTL = 0\<rparr> = tm_secret (px_Tokens (pp_Proxy pp))"
proof -
  obtain c1 where r: "kube_Config pf (pf_Env pf ''KUBECONFIG'') = Inr c1" "rc_Cluster r = pf_Cluster pf c1"
    "rc_namespace r = envDefault (pf_Env pf) ''SESSION_NAMESPACE'' DefaultSessionNamespace"
    "cf_TokenSecret (rc_config r) = envDefault (pf_Env pf) ''CASK_TOKEN_SECRET'' ''dev-session-proxy-secret''"
    using controller_started [OF assms(1)] by blast
  obtain c2 where p: "kube_Config pf (pf_Env pf ''KUBECONFIG'') = Inr c2" "pp_Cluster pp = pf_Cluster pf c2"
    "pp_Namespace pp = envDefault (pf_Env pf) ''SESSION_NAMESPACE'' DefaultSessionNamespace"
    "px_Tokens (pp_Proxy pp) =
      \<lparr>tm_Secret = envDefault (pf_Env pf) ''CASK_TOKEN_SECRET'' ''dev-session-proxy-secret'', tm_TTL = 0\<rparr>"
    using proxy_started [OF assms(2)] by blast
  have "K = pf_Cluster pf c1 \<and>
      ns = envDefault (pf_Env pf) ''SESSION_NAMESPACE'' DefaultSessionNamespace"
    using assms(3,4) r(1)
    by (auto simp: api_main_def api_flags_def main_defs split: option.splits if_splits)
  with r p show ?thesis by simp
qed

definition example_platform :: "(unit, world) platform" where
  "example_platform =
     \<lparr>pf_Env = (\<lambda>_. []), pf_BuildConfigFromFlags = (\<lambda>_. Inl (OtherError ''no file'')),
      pf_InClusterConfig = Inr (), pf_Dynamic = (\<lambda>_. None), pf_Clientset = (\<lambda>_. None),
      pf_Cluster = (\<lambda>_. test_cluster)\<rparr>"

definition example_surroundings :: "world proxy_surroundings" where
  "example_surroundings =
     \<lparr>ps_Mac = (\<lambda>k s. s), ps_Now = w_now,
      ps_Do = (\<lambda>_ w. (Inl (OtherError ''no upstream''), w)), ps_ReadBody = (\<lambda>r. Some (rq_Body r))\<rparr>"

lemma example_kube_Config: "kube_Config example_platform [] = Inr ()"
  by (simp add: kube_Config_def example_platform_def)

lemmas example_start_defs = main_defs example_platform_def kube_Config_def envDefault_def

lemma example_starts:
  "\<exists>r. controller_main example_platform mac [] = Starts r \<and> rc_Cluster r = test_cluster"
  "\<exists>pp. proxy_main example_platform example_surroundings [] = Starts pp"
  "\<exists>ap cfg K ns. api_main example_platform [] = Starts ap \<and> ap_Backend ap = KubernetesBackend cfg K ns"
  by (simp_all add: controller_main_def controller_flags_def proxy_main_def proxy_flags_def api_main_def
      api_flags_def example_start_defs)

theorem programs_agree_witness:
  "\<exists>r pp. controller_main example_platform (\<lambda>k s. s) [] = Starts r \<and>
     proxy_main example_platform example_surroundings [] = Starts pp \<and>
     rc_Cluster r = pp_Cluster pp \<and> rc_namespace r = pp_Namespace pp"
proof -
  obtain r pp ap cfg K ns where "controller_main example_platform (\<lambda>k s. s) [] = Starts r"
    "proxy_main example_platform example_surroundings [] = Starts pp"
    "api_main example_platform [] = Starts ap" "ap_Backend ap = KubernetesBackend cfg K ns"
    using example_starts by metis
  from this programs_agree [OF this] show ?thesis by blast
qed

text \<open>The reply of the terminal gateway depends on the session it reads only.\<close>

lemma terminal_seen:
  assumes "ms_inv w1" "ms_inv w2" "seen_by u (ms_view w1 n) = seen_by u (ms_view w2 n)"
  shows "fst (terminal_handler (api_gateway memory_store start su) r u n w1) =
    fst (terminal_handler (api_gateway memory_store start su) r u n w2)"
proof -
  let ?g = "api_gateway memory_store start su"
  let ?open = "\<lambda>s. st_Phase (s_Status s) = PhaseRunning \<and> st_TerminalReady (s_Status s) \<and>
    st_PodName (s_Status s) \<noteq> []"
  have reply: "fst (terminal_handler ?g r u n w) =
      (case ms_view w n of
         None \<Rightarrow> http_Error ''session not found'' StatusNotFound
       | Some s \<Rightarrow> if s_UserID s \<noteq> u then http_Error ''forbidden'' StatusForbidden
           else if \<not> ?open s then http_Error ''session not ready'' StatusConflict else TerminalReply)"
    if "ms_inv w" for w
    using mem.get_found [OF that, of n] mem.get_missing [OF that, of n]
    by (cases "ms_view w n")
      (auto simp: terminal_handler_def Serve_def api_gateway_def Let_def split: prod.splits bool.splits sum.splits)
  show ?thesis
    unfolding reply [OF assms(1)] reply [OF assms(2)] using assms(3)
    by (cases "ms_view w1 n"; cases "ms_view w2 n") (auto simp: seen_by_def split: if_splits)
qed

text \<open>
  Claim C8. The API server with the in-memory store, as \<open>main\<close> builds it with its
  echo terminals, shows a user only the sessions they own and which names are taken: in
  two states of the store that agree on these it gives the same reply to every GET request, be it
  for the list, for a session, for a terminal or for anything else.
\<close>

theorem api_noninterference:
  assumes "ms_inv w1" "ms_inv w2"
    and "rq_Method r = ''GET''" "userFromRequest r = Some u"
    and "\<And>n. seen_by u (ms_view w1 n) = seen_by u (ms_view w2 n)"
  shows "fst (Handler (memory_api ap su) r w1) = fst (Handler (memory_api ap su) r w2)"
proof (rule mem.Handler_seen [OF assms(1,2) _ assms(3-5)])
  show "sv_Store (memory_api ap su) = Some memory_store" by (simp add: memory_api_def api_server_def)
  show "fst (f r u n w1) = fst (f r u n w2)" if "sv_Terminal (memory_api ap su) = Some f" for f n
    using that terminal_seen [OF assms(1,2,5)] by (auto simp: memory_api_def api_server_def)
qed

text \<open>
  Claim C15. The terminal of a session is for its owner only: over any store and with any backend,
  the terminal route of the API answers anybody else with 403 and starts nothing: the
  session was read, and the world is as that left it.
\<close>

theorem foreign_terminal_forbidden:
  assumes "route_name n" "rq_EscapedPath r = ''/api/v1/sessions/'' @ n @ ''/terminal''"
    and "rq_Path r = rq_EscapedPath r" "rq_Method r = ''GET''" "userFromRequest r = Some u"
    and "so_Get store n w = (Inr s, w')" "s_UserID s \<noteq> u"
  shows "Handler (api_server store start ns su) r w = (TextReply 403 ''forbidden'', w')"
proof -
  let ?g = "api_gateway store start su"
  have "Handler (api_server store start ns su) r w = terminal_handler ?g r u n w"
    using assms(1-5) by (intro terminal_path_routes) (simp_all add: api_server_def terminal_path_def)
  then show ?thesis
    using assms(6,7) by (simp add: terminal_handler_def Serve_def api_gateway_def http_Error_def cask_defs)
qed

definition example_memory_surroundings :: "MemoryStore surroundings" where
  "example_memory_surroundings =
     \<lparr>su_Clock = (\<lambda>_. UnixTime 1700000000), su_Random = (\<lambda>w. (Some ''abcd'', w)),
      su_Decode = (\<lambda>_. None), su_oor = (\<lambda>_. 0), su_Upgrade = (\<lambda>_ _ w. (True, w))\<rparr>"

definition example_memory_program :: "(unit, unit) api_program" where
  "example_memory_program = \<lparr>ap_Addr = '':8080'', ap_Namespace = [], ap_Backend = MemoryBackend\<rparr>"

theorem api_noninterference_witness:
  "fst (Handler (memory_api example_memory_program example_memory_surroundings)
      (example_request ''GET'' ''/api/v1/sessions/sess-1/terminal'' ''user:alice'') example_store) =
   fst (Handler (memory_api example_memory_program example_memory_surroundings)
      (example_request ''GET'' ''/api/v1/sessions/sess-1/terminal'' ''user:alice'')
      \<lparr>ms_sessions = [(''sess-1'', NewAgentSession ''sess-1'' [] (sample_spec\<lparr>sp_UserID := ''bob''\<rparr>) zero_time)],
       ms_AutoRun = False\<rparr>)"
  by (rule api_noninterference [OF example_store_inv _ _ example_user])
    (auto simp: ms_inv_def ms_view_def example_store_def example_session_def seen_by_def
      example_request_def sample_spec_def)

theorem foreign_terminal_forbidden_witness:
  "Handler (api_server memory_store (\<lambda>_ w. (Inr echo_Start, w)) [] example_memory_surroundings)
     (example_request ''GET'' ''/api/v1/sessions/sess-1/terminal'' ''user:mallory'') example_store =
   (TextReply 403 ''forbidden'', example_store)"
proof (rule foreign_terminal_forbidden)
  show "route_name ''sess-1''"
    by (simp add: route_name_def plain_char_def alphanumeric_def code_def)
  show "userFromRequest (example_request ''GET'' ''/api/v1/sessions/sess-1/terminal'' ''user:mallory'') =
      Some ''mallory''" by code_simp
  show "so_Get memory_store ''sess-1'' example_store = (Inr (clone example_session), example_store)"
    by (simp add: memory_store_def ms_Get_def example_store_def example_session_def)
  show "s_UserID (clone example_session) \<noteq> ''mallory''"
    by (simp add: example_session_def sample_spec_def)
qed (simp_all add: example_request_def)

subsection \<open>The command-line client\<close>

text \<open>
  \<open>cmd/caskctl/main.go\<close>: the first argument is the name of the program. The streams are those of the
  process; a signal ends the context, which the transport reports as an error and a connection as
  \<open>ContextDone\<close>. The program exits with the code of the command once that has returned.
\<close>

definition caskctl_main :: "'w system \<Rightarrow> string list \<Rightarrow> 'w \<Rightarrow> 'w outcome" where
  "caskctl_main sys argv = Run_cli sys (drop 1 argv)"

end
