(* ===== verification/Cask_Serve.thy ===== *)
theory Cask_Serve
  imports Cask_Programs
begin

text \<open>
  The programs under \<open>cmd/\<close> after their start: how the two HTTP servers listen, react to a signal
  and end, and how the controller runs its rounds until it is told to stop. A process is a
  transition system in which the goroutines of \<open>main\<close>, the connections and the signals take turns
  in any order.
\<close>

subsection \<open>An HTTP server\<close>

text \<open>
  What \<open>http.Server\<close> knows of a connection: nothing was read from it, it has a request, or it waits
  for the next one. A connection that a handler took over for a WebSocket is not its concern any more.
\<close>

datatype conn_state = CNew | CActive | CIdle

text \<open>What \<open>ListenAndServe\<close> returns: \<open>http.ErrServerClosed\<close> or another error, by its text.\<close>

datatype serve_error = ServerClosed | NetError string

text \<open>Where the main goroutine and the one that waits for the signal are.\<close>

datatype server_pc = SBanner | SListen | SAccept | SReturned serve_error | SExited int

datatype closer_pc = KWait | KShutdown | KJoin | KPoll | KEnd

record server_process =
  vp_main :: server_pc
  vp_closer :: closer_pc
  vp_signalled :: bool   \<comment> \<open>the context of \<open>signal.NotifyContext\<close> is done\<close>
  vp_listening :: bool
  vp_closing :: bool     \<comment> \<open>\<open>Shutdown\<close> was called\<close>
  vp_conns :: "(nat \<times> conn_state) list"
  vp_hijacked :: "nat list"
  vp_answered :: "nat list"   \<comment> \<open>the connections of the requests answered so far\<close>
  vp_out :: "printed list"

definition server_start :: server_process where
  "server_start =
     \<lparr>vp_main = SBanner, vp_closer = KWait, vp_signalled = False, vp_listening = False, vp_closing = False,
      vp_conns = [], vp_hijacked = [], vp_answered = [], vp_out = []\<rparr>"

definition fatal :: "string \<Rightarrow> server_process \<Rightarrow> server_process" where
  "fatal err p = p\<lparr>vp_out := vp_out p @ [Err (err @ newline)], vp_main := SExited 1\<rparr>"

text \<open>
  The main goroutine. \<open>ListenAndServe\<close> does not listen after \<open>Shutdown\<close>; its loop ends when the
  listener that \<open>Shutdown\<close> closed accepts no more, and until then it waits. When \<open>main\<close> returns, so does the
  program, whatever its other goroutines are doing.
\<close>

inductive main_step :: "string \<Rightarrow> server_process \<Rightarrow> server_process \<Rightarrow> bool" for banner :: string where
  print_banner: "vp_main p = SBanner \<Longrightarrow>
    main_step banner p (p\<lparr>vp_out := vp_out p @ [Out banner], vp_main := SListen\<rparr>)"
| refuse: "vp_main p = SListen \<Longrightarrow> vp_closing p \<Longrightarrow> main_step banner p (p\<lparr>vp_main := SReturned ServerClosed\<rparr>)"
| listen: "vp_main p = SListen \<Longrightarrow> \<not> vp_closing p \<Longrightarrow>
    main_step banner p (p\<lparr>vp_main := SAccept, vp_listening := True\<rparr>)"
| accept_closed: "vp_main p = SAccept \<Longrightarrow> vp_closing p \<Longrightarrow>
    main_step banner p (p\<lparr>vp_main := SReturned ServerClosed\<rparr>)"
| main_returns: "vp_main p = SReturned ServerClosed \<Longrightarrow> main_step banner p (p\<lparr>vp_main := SExited 0\<rparr>)"
| main_fatal: "vp_main p = SReturned (NetError err) \<Longrightarrow> main_step banner p (fatal err p)"

text \<open>
  What the network may do to \<open>ListenAndServe\<close>, and may as well never do: the address cannot be
  listened on, or the open listener fails.
\<close>

inductive net_step :: "server_process \<Rightarrow> server_process \<Rightarrow> bool" where
  listen_error: "vp_main p = SListen \<Longrightarrow> \<not> vp_closing p \<Longrightarrow>
    net_step p (p\<lparr>vp_main := SReturned (NetError err)\<rparr>)"
| accept_error: "vp_main p = SAccept \<Longrightarrow> \<not> vp_closing p \<Longrightarrow>
    net_step p (p\<lparr>vp_main := SReturned (NetError err), vp_listening := False\<rparr>)"

text \<open>
  The goroutine that calls \<open>Shutdown\<close>. It closes the listener, waits until \<open>Serve\<close> has returned, and
  then closes idle connections, and \<open>old\<close> ones that never sent a request, until no connection is
  left or its ten seconds are over.
\<close>

definition close_idle :: "nat set \<Rightarrow> (nat \<times> conn_state) list \<Rightarrow> (nat \<times> conn_state) list" where
  "close_idle old cs = filter (\<lambda>(n, st). st = CActive \<or> st = CNew \<and> n \<notin> old) cs"

inductive closer_step :: "server_process \<Rightarrow> server_process \<Rightarrow> bool" where
  context_done: "vp_closer p = KWait \<Longrightarrow> vp_signalled p \<Longrightarrow> closer_step p (p\<lparr>vp_closer := KShutdown\<rparr>)"
| close_listener: "vp_closer p = KShutdown \<Longrightarrow>
    closer_step p (p\<lparr>vp_closing := True, vp_listening := False, vp_closer := KJoin\<rparr>)"
| joined: "vp_closer p = KJoin \<Longrightarrow> vp_main p \<noteq> SAccept \<Longrightarrow> closer_step p (p\<lparr>vp_closer := KPoll\<rparr>)"
| poll: "vp_closer p = KPoll \<Longrightarrow> cs = close_idle old (vp_conns p) \<Longrightarrow>
    closer_step p (p\<lparr>vp_conns := cs, vp_closer := (if cs = [] then KEnd else KPoll)\<rparr>)"
| shutdown_timeout: "vp_closer p = KPoll \<Longrightarrow> closer_step p (p\<lparr>vp_closer := KEnd\<rparr>)"

text \<open>
  The connections and the signal. An answered connection is kept for the next request unless the
  server is shutting down; a signal after the first one changes nothing.
\<close>

inductive conn_step :: "server_process \<Rightarrow> server_process \<Rightarrow> bool" where
  accepted: "vp_main p = SAccept \<Longrightarrow> vp_listening p \<Longrightarrow> n \<notin> fst ` set (vp_conns p) \<Longrightarrow>
    n \<notin> set (vp_hijacked p) \<Longrightarrow> conn_step p (p\<lparr>vp_conns := vp_conns p @ [(n, CNew)]\<rparr>)"
| request: "map_of (vp_conns p) n \<in> {Some CNew, Some CIdle} \<Longrightarrow>
    conn_step p (p\<lparr>vp_conns := AList.update n CActive (vp_conns p)\<rparr>)"
| answer: "map_of (vp_conns p) n = Some CActive \<Longrightarrow>
    conn_step p (p\<lparr>vp_conns := (if vp_closing p then AList.delete n (vp_conns p)
                                else AList.update n CIdle (vp_conns p)),
                   vp_answered := vp_answered p @ [n]\<rparr>)"
| hijack: "map_of (vp_conns p) n = Some CActive \<Longrightarrow>
    conn_step p (p\<lparr>vp_conns := AList.delete n (vp_conns p), vp_hijacked := n # vp_hijacked p\<rparr>)"
| hang_up: "map_of (vp_conns p) n \<in> {Some CNew, Some CIdle} \<Longrightarrow>
    conn_step p (p\<lparr>vp_conns := AList.delete n (vp_conns p)\<rparr>)"
| terminal_over: "conn_step p (p\<lparr>vp_hijacked := removeAll n (vp_hijacked p)\<rparr>)"
| interrupt: "conn_step p (p\<lparr>vp_signalled := True\<rparr>)"

definition exited :: "server_process \<Rightarrow> bool" where
  "exited p = (case vp_main p of SExited _ \<Rightarrow> True | _ \<Rightarrow> False)"

definition server_step :: "string \<Rightarrow> server_process \<Rightarrow> server_process \<Rightarrow> bool" where
  "server_step banner p p' \<longleftrightarrow> \<not> exited p \<and>
     (main_step banner p p' \<or> closer_step p p' \<or> net_step p p' \<or> conn_step p p')"

abbreviation server_run :: "string \<Rightarrow> server_process \<Rightarrow> server_process \<Rightarrow> bool" where
  "server_run banner \<equiv> (server_step banner)\<^sup>*\<^sup>*"

text \<open>The processes of the two servers.\<close>

definition api_banner :: "('cfg, 'w) api_program \<Rightarrow> string" where
  "api_banner ap = ''cask-api listening on '' @ ap_Addr ap @ newline"

definition proxy_banner :: "'w proxy_program \<Rightarrow> string" where
  "proxy_banner pp = ''cask-model-proxy listening on '' @ pp_Addr pp @ newline"

definition api_life :: "('cfg, 'w) api_program \<Rightarrow> server_process \<Rightarrow> bool" where
  "api_life ap p \<longleftrightarrow> server_run (api_banner ap) server_start p"

definition proxy_life :: "'w proxy_program \<Rightarrow> server_process \<Rightarrow> bool" where
  "proxy_life pp p \<longleftrightarrow> server_run (proxy_banner pp) server_start p"

inductive_cases main_stepE: "main_step banner p p'"
inductive_cases net_stepE: "net_step p p'"
inductive_cases closer_stepE: "closer_step p p'"
inductive_cases conn_stepE: "conn_step p p'"

lemmas server_stepE = main_stepE closer_stepE net_stepE conn_stepE

subsection \<open>What a server keeps\<close>

text \<open>
  The listener is open exactly while connections are accepted and nobody called \<open>Shutdown\<close>, which
  nobody does before a signal; the program returns only from a closed server; and it has
  printed its banner and, when it failed, the error.
\<close>

definition server_inv :: "string \<Rightarrow> server_process \<Rightarrow> bool" where
  "server_inv banner p \<longleftrightarrow>
     (vp_listening p \<longleftrightarrow> vp_main p = SAccept \<and> \<not> vp_closing p) \<and>
     (vp_closing p \<longleftrightarrow> vp_closer p \<in> {KJoin, KPoll, KEnd}) \<and>
     (vp_closer p \<noteq> KWait \<longrightarrow> vp_signalled p) \<and>
     (vp_closer p \<in> {KPoll, KEnd} \<longrightarrow> vp_main p \<noteq> SAccept) \<and>
     (case vp_main p of
        SBanner \<Rightarrow> vp_out p = []
      | SReturned ServerClosed \<Rightarrow> vp_closing p \<and> vp_out p = [Out banner]
      | SExited n \<Rightarrow>
          n = 0 \<and> vp_closing p \<and> vp_out p = [Out banner] \<or>
          n = 1 \<and> (\<exists>err. vp_out p = [Out banner, Err (err @ newline)])
      | _ \<Rightarrow> vp_out p = [Out banner])"

lemma server_inv_start: "server_inv banner server_start"
  by (simp add: server_inv_def server_start_def)

lemma main_step_inv: "main_step banner p p' \<Longrightarrow> server_inv banner p \<Longrightarrow> server_inv banner p'"
  by (erule main_stepE) (auto simp: server_inv_def fatal_def)

lemma net_step_inv: "net_step p p' \<Longrightarrow> server_inv banner p \<Longrightarrow> server_inv banner p'"
  by (erule net_stepE) (auto simp: server_inv_def)

lemma closer_step_inv:
  "closer_step p p' \<Longrightarrow> \<not> exited p \<Longrightarrow> server_inv banner p \<Longrightarrow> server_inv banner p'"
  by (erule closer_stepE) (auto simp: server_inv_def exited_def split: server_pc.splits serve_error.splits)

text \<open>What the connections and signals leave alone.\<close>

definition server_view where
  "server_view p = (vp_main p, vp_closer p, vp_listening p, vp_closing p, vp_out p)"

lemma server_frame:
  "server_view p' = server_view p \<Longrightarrow> (vp_signalled p \<longrightarrow> vp_signalled p') \<Longrightarrow>
     server_inv banner p \<Longrightarrow> server_inv banner p'"
  unfolding server_inv_def server_view_def prod.inject by (elim conjE) (simp only:, blast)

lemma conn_step_view: "conn_step p p' \<Longrightarrow> server_view p' = server_view p \<and> (vp_signalled p \<longrightarrow> vp_signalled p')"
  by (erule conn_stepE) (simp_all add: server_view_def)

lemma conn_step_inv: "conn_step p p' \<Longrightarrow> server_inv banner p \<Longrightarrow> server_inv banner p'"
  using conn_step_view server_frame by blast

lemma server_step_inv: "server_step banner p p' \<Longrightarrow> server_inv banner p \<Longrightarrow> server_inv banner p'"
  unfolding server_step_def using main_step_inv closer_step_inv net_step_inv conn_step_inv by blast

lemma server_run_inv: "server_run banner server_start p \<Longrightarrow> server_inv banner p"
  by (induction rule: rtranclp_induct) (auto intro: server_inv_start server_step_inv)

subsection \<open>Shutting down\<close>

text \<open>
  How far the main goroutine is from its end, and the other one from closing the listener. The
  main goroutine never goes back; it waits at one place only, where it accepts.
\<close>

definition main_rank :: "server_process \<Rightarrow> nat" where
  "main_rank p = (case vp_main p of SBanner \<Rightarrow> 4 | SListen \<Rightarrow> 3 | SAccept \<Rightarrow> 2 | SReturned _ \<Rightarrow> 1 | SExited _ \<Rightarrow> 0)"

definition closer_rank :: "server_process \<Rightarrow> nat" where
  "closer_rank p = (case vp_closer p of KWait \<Rightarrow> 2 | KShutdown \<Rightarrow> 1 | _ \<Rightarrow> 0)"

definition exit_rank :: "server_process \<Rightarrow> nat" where
  "exit_rank p = main_rank p + closer_rank p"

text \<open>The steps of its own that bring the process to its end; the network's errors are none of them.\<close>

definition exit_step :: "string \<Rightarrow> server_process \<Rightarrow> server_process \<Rightarrow> bool" where
  "exit_step banner p p' \<longleftrightarrow>
     main_step banner p p' \<or> closer_step p p' \<and> vp_closer p \<in> {KWait, KShutdown}"

text \<open>A run, with the number of steps of that kind.\<close>

abbreviation exit_run :: "string \<Rightarrow> nat \<Rightarrow> server_process \<Rightarrow> server_process \<Rightarrow> bool" where
  "exit_run banner \<equiv>
     counted (\<lambda>p p'. server_step banner p p' \<and> exit_step banner p p') (\<lambda>p p'. server_step banner p p' \<and> \<not> exit_step banner p p')"

lemma exit_rank_bound: "exit_rank p \<le> 6"
  by (simp add: exit_rank_def main_rank_def closer_rank_def split: server_pc.split closer_pc.split)

lemma main_step_rank: "main_step banner p p' \<Longrightarrow> main_rank p' < main_rank p \<and> closer_rank p' = closer_rank p"
  by (erule main_stepE) (simp_all add: main_rank_def closer_rank_def fatal_def)

lemma closer_step_rank:
  "closer_step p p' \<Longrightarrow> main_rank p' = main_rank p \<and> closer_rank p' \<le> closer_rank p \<and>
     (vp_closer p \<in> {KWait, KShutdown} \<longrightarrow> closer_rank p' < closer_rank p)"
  by (erule closer_stepE) (simp_all add: main_rank_def closer_rank_def)

lemma net_step_rank: "net_step p p' \<Longrightarrow> main_rank p' \<le> main_rank p \<and> closer_rank p' = closer_rank p"
  by (erule net_stepE) (simp_all add: main_rank_def closer_rank_def)

lemma conn_step_rank: "conn_step p p' \<Longrightarrow> main_rank p' = main_rank p \<and> closer_rank p' = closer_rank p"
  using conn_step_view [of p p'] by (simp add: main_rank_def closer_rank_def server_view_def)

lemma step_ranks:
  assumes "server_step banner p p'"
  shows "exit_step banner p p' \<Longrightarrow> exit_rank p' < exit_rank p" and "exit_rank p' \<le> exit_rank p"
proof -
  show "exit_step banner p p' \<Longrightarrow> exit_rank p' < exit_rank p"
    unfolding exit_step_def exit_rank_def using main_step_rank closer_step_rank by fastforce
  show "exit_rank p' \<le> exit_rank p"
    using assms main_step_rank closer_step_rank net_step_rank conn_step_rank
    unfolding server_step_def exit_rank_def by (metis add_mono le_refl less_imp_le)
qed

lemma exit_run_rank: "exit_run banner n p p' \<Longrightarrow> n \<le> exit_rank p"
  using counted_rank [of _ _ n p p' "\<lambda>_. True" "\<lambda>p. int (exit_rank p)"] step_ranks by fastforce

lemma exit_progress:
  assumes "server_inv banner p" "vp_signalled p" "\<not> exited p"
  shows "\<exists>p'. server_step banner p p' \<and> exit_step banner p p'"
proof -
  have main: "main_step banner p p' \<Longrightarrow> ?thesis" for p'
    using assms(3) unfolding server_step_def exit_step_def by blast
  have closer: "closer_step p p' \<Longrightarrow> vp_closer p \<in> {KWait, KShutdown} \<Longrightarrow> ?thesis" for p'
    using assms(3) unfolding server_step_def exit_step_def by blast
  show ?thesis
  proof (cases "vp_main p")
    case SBanner
    then show ?thesis by (rule main [OF print_banner])
  next
    case SListen
    then show ?thesis by (cases "vp_closing p") (auto intro: main refuse listen)
  next
    case SAccept
    show ?thesis
    proof (cases "vp_closing p")
      case True
      with SAccept show ?thesis by (blast intro: main accept_closed)
    next
      case False
      with assms(1) have "vp_closer p = KWait \<or> vp_closer p = KShutdown"
        by (cases "vp_closer p") (auto simp: server_inv_def)
      with assms(2) show ?thesis by (blast intro: closer context_done close_listener)
    qed
  next
    case (SReturned e)
    then show ?thesis by (cases e) (blast intro: main main_returns main_fatal)+
  next
    case (SExited n)
    with assms(3) show ?thesis by (simp add: exited_def)
  qed
qed

text \<open>While it accepts connections and nobody has signalled it, a server waits.\<close>

lemma serving_waits:
  assumes "server_inv banner p" "vp_main p = SAccept" "\<not> vp_signalled p"
  shows "\<not> exit_step banner p p'"
proof -
  have "vp_closer p = KWait" "\<not> vp_closing p" using assms by (auto simp: server_inv_def)
  with assms(2,3) show ?thesis by (auto simp: exit_step_def elim: main_stepE closer_stepE)
qed

text \<open>
  Claim C17. A server that accepts connections goes on until it is signalled: before that
  it has no step towards its end. Once it was signalled it ends, whatever its clients do and
  without any error of the network: until it has exited it always can take a step of its own
  towards its end, and in any run it takes at most six of them.
\<close>

theorem server_stops:
  assumes "server_run banner server_start p"
  shows "(vp_main p = SAccept \<and> \<not> vp_signalled p \<longrightarrow> (\<forall>p'. \<not> exit_step banner p p')) \<and>
    (vp_signalled p \<and> \<not> exited p \<longrightarrow> (\<exists>p'. server_step banner p p' \<and> exit_step banner p p')) \<and>
    (\<forall>n p'. exit_run banner n p p' \<longrightarrow> n \<le> 6)"
  using exit_progress serving_waits server_run_inv [OF assms] exit_run_rank exit_rank_bound
  by (meson le_trans)

text \<open>
  A server exits with 0 only after a signal, when it no longer listens, having printed its
  banner alone; otherwise it exits with 1 and has printed one error.
\<close>

theorem server_exit_codes:
  assumes "api_life ap p \<and> banner = api_banner ap \<or> proxy_life pp p \<and> banner = proxy_banner pp"
    and "vp_main p = SExited n"
  shows "n = 0 \<and> vp_signalled p \<and> \<not> vp_listening p \<and> vp_out p = [Out banner] \<or>
    n = 1 \<and> (\<exists>err. vp_out p = [Out banner, Err (err @ newline)])"
proof -
  have "server_run banner server_start p" using assms(1) by (auto simp: api_life_def proxy_life_def)
  from server_run_inv [OF this] assms(2) show ?thesis by (auto simp: server_inv_def)
qed

text \<open>The connections a server has once it is closing are those it had.\<close>

definition served_ids :: "server_process \<Rightarrow> nat set" where
  "served_ids p = dom (map_of (vp_conns p)) \<union> set (vp_hijacked p)"

lemma known_conn: "map_of cs n \<in> {Some a, Some b} \<Longrightarrow> n \<in> dom (map_of cs)"
  by auto

lemma close_idle_kept: "map_of (close_idle old cs) n = Some st \<Longrightarrow> \<exists>st'. map_of cs n = Some st'"
  by (drule map_of_SomeD) (simp add: close_idle_def, metis weak_map_of_SomeI)

lemma conn_step_ids:
  assumes "conn_step p p'" "\<not> vp_listening p"
  shows "served_ids p' \<subseteq> served_ids p"
  using assms(1)
proof (cases rule: conn_step.cases)
  case accepted
  with assms(2) show ?thesis by simp
qed (auto simp: served_ids_def update_conv' delete_conv' dest: known_conn)

lemma served_ids_step:
  assumes "server_step banner p p'" "vp_closing p" "server_inv banner p"
  shows "served_ids p' \<subseteq> served_ids p \<and> vp_closing p'"
proof -
  have "main_step banner p p' \<Longrightarrow> ?thesis"
    by (erule main_stepE) (use assms(2) in \<open>simp_all add: served_ids_def fatal_def\<close>)
  moreover have "closer_step p p' \<Longrightarrow> ?thesis"
    by (erule closer_stepE) (use assms(2) in \<open>auto simp: served_ids_def dest: close_idle_kept\<close>)
  moreover have "conn_step p p' \<Longrightarrow> ?thesis"
    using conn_step_ids conn_step_view [of p p'] assms(2,3) by (simp add: server_inv_def server_view_def)
  moreover have "net_step p p' \<Longrightarrow> ?thesis"
    by (erule net_stepE) (use assms(2) in \<open>simp_all add: served_ids_def\<close>)
  ultimately show ?thesis using assms(1) unfolding server_step_def by blast
qed

lemma served_ids_run:
  assumes "server_run banner p p'" "vp_closing p" "server_inv banner p"
  shows "served_ids p' \<subseteq> served_ids p \<and> vp_closing p'"
proof -
  have "served_ids p' \<subseteq> served_ids p \<and> vp_closing p' \<and> server_inv banner p'"
    using assms(1)
  proof (induction rule: rtranclp_induct)
    case (step y z)
    then show ?case using served_ids_step [of banner y z] server_step_inv [of banner y z] by blast
  qed (use assms in simp)
  then show ?thesis by simp
qed

text \<open>
  \<open>main\<close> does not wait for \<open>Shutdown\<close>: as soon as the listener is closed the process can exit, with every
  request that is being answered cut off; the ten seconds that \<open>Shutdown\<close> would wait for them do not
  count.
\<close>

lemma main_exits:
  assumes "server_inv banner p" "vp_closing p" "\<not> exited p" "vp_main p = SAccept \<or> vp_main p = SReturned ServerClosed"
  shows "server_run banner p (p\<lparr>vp_main := SExited 0\<rparr>)"
proof -
  let ?r = "p\<lparr>vp_main := SReturned ServerClosed\<rparr>"
  have "main_step banner ?r (?r\<lparr>vp_main := SExited 0\<rparr>)" by (rule main_returns) simp
  then have out: "server_step banner ?r (p\<lparr>vp_main := SExited 0\<rparr>)" by (simp add: server_step_def exited_def)
  have "p = ?r \<or> server_step banner p ?r"
    using assms(2-4) accept_closed [of p banner] by (auto simp: server_step_def)
  with out show ?thesis by (metis converse_rtranclp_into_rtranclp r_into_rtranclp)
qed

text \<open>
  Claim C18. A server that is shutting down takes no new connection; but it does not wait for
  the requests it has either: from every state in which it closed its listener while it was serving, it can exit
  with 0 at once, leaving every connection and request as they are.
\<close>

theorem shutdown_cuts_requests:
  assumes "server_run banner server_start p" "vp_closing p"
  shows "(\<forall>p'. server_run banner p p' \<longrightarrow> served_ids p' \<subseteq> served_ids p) \<and>
    (vp_main p = SAccept \<longrightarrow> server_run banner p (p\<lparr>vp_main := SExited 0\<rparr>))"
  using served_ids_run main_exits server_run_inv [OF assms(1)] assms(2) by (auto simp: exited_def)

text \<open>A run that cuts a request off: it is being answered when the signal comes.\<close>

definition busy :: "string \<Rightarrow> server_process" where
  "busy banner = server_start\<lparr>vp_main := SAccept, vp_closer := KJoin, vp_signalled := True, vp_closing := True,
     vp_conns := [(1, CActive)], vp_out := [Out banner]\<rparr>"

lemma run_snoc_server:
  assumes "server_run banner a b" "\<not> exited b"
  shows run_main: "main_step banner b c \<Longrightarrow> server_run banner a c"
    and run_closer: "closer_step b c \<Longrightarrow> server_run banner a c"
    and run_conn: "conn_step b c \<Longrightarrow> server_run banner a c"
  by (rule rtranclp.rtrancl_into_rtrancl [OF assms(1)], simp add: server_step_def assms(2))+

lemma busy_run: "server_run banner server_start (busy banner)"
proof -
  let ?c1 = "server_start\<lparr>vp_out := [Out banner], vp_main := SListen\<rparr>"
  let ?c2 = "?c1\<lparr>vp_main := SAccept, vp_listening := True\<rparr>"
  let ?c3 = "?c2\<lparr>vp_conns := vp_conns ?c2 @ [(1, CNew)]\<rparr>"
  let ?c4 = "?c3\<lparr>vp_conns := AList.update 1 CActive (vp_conns ?c3)\<rparr>"
  let ?c5 = "?c4\<lparr>vp_signalled := True\<rparr>"
  let ?c6 = "?c5\<lparr>vp_closer := KShutdown\<rparr>"
  let ?c7 = "?c6\<lparr>vp_closing := True, vp_listening := False, vp_closer := KJoin\<rparr>"
  have "server_run banner server_start server_start" by simp
  then have "server_run banner server_start ?c1"
    by (rule run_main) (use print_banner [of server_start banner] in \<open>simp_all add: server_start_def exited_def\<close>)
  then have "server_run banner server_start ?c2"
    by (rule run_main) (simp add: exited_def, rule listen, simp_all add: server_start_def)
  then have "server_run banner server_start ?c3"
    by (rule run_conn) (simp add: exited_def, rule accepted, simp_all add: server_start_def)
  then have "server_run banner server_start ?c4"
    by (rule run_conn) (simp add: exited_def, rule request, simp add: server_start_def)
  then have "server_run banner server_start ?c5"
    by (rule run_conn) (simp add: exited_def, rule interrupt)
  then have "server_run banner server_start ?c6"
    by (rule run_closer) (simp add: exited_def, rule context_done, simp_all add: server_start_def)
  then have "server_run banner server_start ?c7"
    by (rule run_closer) (simp add: exited_def, rule close_listener, simp)
  then show ?thesis by (simp add: busy_def server_start_def)
qed

theorem server_stops_witness:
  "\<exists>p'. server_step ''ready'' (busy ''ready'') p' \<and> exit_step ''ready'' (busy ''ready'') p'"
  using server_stops [OF busy_run, of "''ready''"] by (simp add: busy_def exited_def)

theorem shutdown_cuts_requests_witness:
  "server_run ''ready'' (busy ''ready'') ((busy ''ready'')\<lparr>vp_main := SExited 0\<rparr>) \<and>
   map_of (vp_conns ((busy ''ready'')\<lparr>vp_main := SExited 0\<rparr>)) 1 = Some CActive \<and> vp_answered ((busy ''ready'')\<lparr>vp_main := SExited 0\<rparr>) = []"
  using shutdown_cuts_requests [OF busy_run, of "''ready''"] by (simp add: busy_def server_start_def)

definition example_api :: "(unit, unit) api_program" where
  "example_api = \<lparr>ap_Addr = '':8080'', ap_Namespace = [], ap_Backend = MemoryBackend\<rparr>"

theorem server_exit_codes_witness:
  "vp_signalled (busy (api_banner example_api)) \<and>
   vp_out ((busy (api_banner example_api))\<lparr>vp_main := SExited 0\<rparr>) = [Out (api_banner example_api)]"
proof -
  let ?p = "busy (api_banner example_api)"
  have "server_run (api_banner example_api) ?p (?p\<lparr>vp_main := SExited 0\<rparr>)"
    by (rule main_exits [OF server_run_inv [OF busy_run]]) (simp_all add: busy_def exited_def)
  then have "api_life example_api (?p\<lparr>vp_main := SExited 0\<rparr>)"
    unfolding api_life_def by (rule rtranclp_trans [OF busy_run])
  from server_exit_codes [OF disjI1 [OF conjI [OF this refl]], of 0] show ?thesis by simp
qed

subsection \<open>The controller\<close>

text \<open>
  \<open>main\<close> of \<open>cask-controller\<close> calls \<open>Run\<close>, whose loop does a round and then waits for a tick or for the
  end of the context. A ticker keeps one tick that was not taken and drops further ones.
  \<open>cp_rounds\<close> and \<open>cp_ticks\<close> count the rounds and the ticks so far.
\<close>

datatype control_pc = CBanner | CRound | CSelect | CReturned | CExited int

record 'w control_process =
  cp_main :: control_pc
  cp_signalled :: bool
  cp_tick :: bool
  cp_world :: 'w
  cp_out :: "string list"
  cp_rounds :: nat
  cp_ticks :: nat

definition control_start :: "'w \<Rightarrow> 'w control_process" where
  "control_start w =
     \<lparr>cp_main = CBanner, cp_signalled = False, cp_tick = False, cp_world = w, cp_out = [],
      cp_rounds = 0, cp_ticks = 0\<rparr>"

definition control_banner :: "'w reconciler \<Rightarrow> string" where
  "control_banner r = ''cask-controller watching namespace '' @ cf_Namespace (rc_Config r)"

text \<open>
  With its two clients \<open>Run\<close> returns only the error of its context, and \<open>main\<close> then returns
  normally. When both a tick and the end of the context are there, either may be taken.
\<close>

inductive control_main :: "'w reconciler \<Rightarrow> 'w control_process \<Rightarrow> 'w control_process \<Rightarrow> bool"
  for r :: "'w reconciler" where
  watching: "cp_main c = CBanner \<Longrightarrow>
    control_main r c (c\<lparr>cp_out := cp_out c @ [control_banner r], cp_main := CRound\<rparr>)"
| round_done: "cp_main c = CRound \<Longrightarrow> run_round r (cp_world c) = (out, w) \<Longrightarrow>
    control_main r c (c\<lparr>cp_out := cp_out c @ out, cp_world := w, cp_rounds := Suc (cp_rounds c), cp_main := CSelect\<rparr>)"
| take_tick: "cp_main c = CSelect \<Longrightarrow> cp_tick c \<Longrightarrow> control_main r c (c\<lparr>cp_tick := False, cp_main := CRound\<rparr>)"
| take_done: "cp_main c = CSelect \<Longrightarrow> cp_signalled c \<Longrightarrow> control_main r c (c\<lparr>cp_main := CReturned\<rparr>)"
| control_exits: "cp_main c = CReturned \<Longrightarrow> control_main r c (c\<lparr>cp_main := CExited 0\<rparr>)"

text \<open>The ticker, the signal, and everybody else who works on the cluster; \<open>A\<close> is what they may do to it.\<close>

inductive control_env :: "('w \<Rightarrow> 'w) set \<Rightarrow> 'w control_process \<Rightarrow> 'w control_process \<Rightarrow> bool"
  for A :: "('w \<Rightarrow> 'w) set" where
  ticker: "control_env A c (c\<lparr>cp_tick := True, cp_ticks := Suc (cp_ticks c)\<rparr>)"
| control_signal: "control_env A c (c\<lparr>cp_signalled := True\<rparr>)"
| others: "f \<in> A \<Longrightarrow> control_env A c (c\<lparr>cp_world := f (cp_world c)\<rparr>)"

definition control_step ::
    "('w \<Rightarrow> 'w) set \<Rightarrow> 'w reconciler \<Rightarrow> 'w control_process \<Rightarrow> 'w control_process \<Rightarrow> bool" where
  "control_step A r c c' \<longleftrightarrow> control_main r c c' \<or> control_env A c c'"

abbreviation control_run ::
    "('w \<Rightarrow> 'w) set \<Rightarrow> 'w reconciler \<Rightarrow> 'w control_process \<Rightarrow> 'w control_process \<Rightarrow> bool" where
  "control_run A r \<equiv> (control_step A r)\<^sup>*\<^sup>*"

text \<open>Doing nothing, and one thing after another, are among the things others may do.\<close>

definition closed_actions :: "('w \<Rightarrow> 'w) set \<Rightarrow> bool" where
  "closed_actions A \<longleftrightarrow> id \<in> A \<and> (\<forall>f \<in> A. \<forall>g \<in> A. f \<circ> g \<in> A)"

inductive_cases control_mainE: "control_main r c c'"
inductive_cases control_envE: "control_env A c c'"

text \<open>The process has done what \<open>Run\<close> does in as many rounds, in a world others changed in between.\<close>

definition control_traced ::
    "('w \<Rightarrow> 'w) set \<Rightarrow> 'w reconciler \<Rightarrow> 'w \<Rightarrow> 'w control_process \<Rightarrow> bool" where
  "control_traced A r w c \<longleftrightarrow>
     cp_rounds c = 0 \<and> cp_main c \<in> {CBanner, CRound} \<and> (\<exists>f \<in> A. cp_world c = f w) \<and>
       cp_out c = (if cp_main c = CBanner then [] else [control_banner r]) \<or>
     cp_main c \<noteq> CBanner \<and>
       (\<exists>f fs g. f \<in> A \<and> set fs \<subseteq> A \<and> g \<in> A \<and> cp_rounds c = Suc (length fs) \<and> cp_out c = control_banner r # fst (Run r fs (f w)) \<and>
         cp_world c = g (snd (Run r fs (f w))))"

lemma Run_snoc:
  "Run r (fs @ [g]) w = (case Run r fs w of (out, w1) \<Rightarrow> (case run_round r (g w1) of (out', w2) \<Rightarrow> (out @ out', w2)))"
  by (induction fs arbitrary: w) (simp_all add: case_prod_beta)

lemma control_traced_start: "closed_actions A \<Longrightarrow> control_traced A r w (control_start w)"
  by (auto simp: control_traced_def control_start_def closed_actions_def intro: bexI [of _ id])

lemma tracedI:
  assumes "f \<in> A" "set fs \<subseteq> A" "g \<in> A" "cp_rounds c = Suc (length fs)" "cp_out c = control_banner r # fst (Run r fs (f w))"
    "cp_world c = g (snd (Run r fs (f w)))" "cp_main c \<noteq> CBanner"
  shows "control_traced A r w c"
  unfolding control_traced_def using assms by blast

lemma tracedE:
  assumes "control_traced A r w c" "cp_rounds c \<noteq> 0"
  obtains f fs g where "f \<in> A" "set fs \<subseteq> A" "g \<in> A" "cp_rounds c = Suc (length fs)"
    "cp_out c = control_banner r # fst (Run r fs (f w))" "cp_world c = g (snd (Run r fs (f w)))" "cp_main c \<noteq> CBanner"
  using assms unfolding control_traced_def by auto

lemma traced_round:
  assumes A: "closed_actions A" and "control_traced A r w c" "cp_main c = CRound" "run_round r (cp_world c) = (out, w')"
  shows "control_traced A r w (c\<lparr>cp_out := cp_out c @ out, cp_world := w', cp_rounds := Suc (cp_rounds c), cp_main := CSelect\<rparr>)"
    (is "control_traced A r w ?c")
proof (cases "cp_rounds c = 0")
  case True
  then obtain f where f: "f \<in> A" "cp_world c = f w" "cp_out c = [control_banner r]"
    using assms by (auto simp: control_traced_def)
  with True assms(4) A show ?thesis
    by (intro tracedI [of f A "[]" id ?c r w]) (simp_all add: closed_actions_def)
next
  case False
  with assms(2) obtain f fs g where f: "f \<in> A" "set fs \<subseteq> A" "g \<in> A" "cp_rounds c = Suc (length fs)"
    "cp_out c = control_banner r # fst (Run r fs (f w))" "cp_world c = g (snd (Run r fs (f w)))"
    by (rule tracedE)
  with assms(4) A show ?thesis
    by (intro tracedI [of f A "fs @ [g]" id ?c r w]) (simp_all add: Run_snoc case_prod_beta closed_actions_def)
qed

lemma traced_others:
  assumes A: "closed_actions A" "f \<in> A" and "control_traced A r w c"
  shows "control_traced A r w (c\<lparr>cp_world := f (cp_world c)\<rparr>)"
proof (cases "cp_rounds c = 0")
  case True
  then obtain f0 where "f0 \<in> A" "cp_world c = f0 w" using assms by (auto simp: control_traced_def)
  with A assms(3) True show ?thesis
    by (auto simp: control_traced_def closed_actions_def intro!: bexI [of _ "f \<circ> f0"])
next
  case False
  with assms(3) obtain f1 fs g where "f1 \<in> A" "set fs \<subseteq> A" "g \<in> A" "cp_rounds c = Suc (length fs)"
    "cp_out c = control_banner r # fst (Run r fs (f1 w))" "cp_world c = g (snd (Run r fs (f1 w)))"
    "cp_main c \<noteq> CBanner"
    by (rule tracedE)
  with A show ?thesis by (intro tracedI [of f1 A fs "f \<circ> g" _ r w]) (simp_all add: closed_actions_def)
qed

lemma control_step_traced:
  assumes A: "closed_actions A" and "control_step A r c c'" "control_traced A r w c"
  shows "control_traced A r w c'"
proof -
  have "control_main r c c' \<Longrightarrow> ?thesis"
    by (erule control_mainE) (use assms(3) traced_round [OF A assms(3)] in \<open>auto simp: control_traced_def\<close>)
  moreover have "control_env A c c' \<Longrightarrow> ?thesis"
    by (erule control_envE) (use assms(3) traced_others [OF A _ assms(3)] in \<open>auto simp: control_traced_def\<close>)
  ultimately show ?thesis using assms(2) unfolding control_step_def by blast
qed

lemma control_run_traced: "control_run A r (control_start w) c \<Longrightarrow> closed_actions A \<Longrightarrow> control_traced A r w c"
  by (induction rule: rtranclp_induct) (auto intro: control_traced_start control_step_traced)

text \<open>
  A round needs the start or a tick, and the main goroutine goes on to its end once there are neither
  ticks nor anything else to wait for.
\<close>

definition control_pending :: "'w control_process \<Rightarrow> nat" where
  "control_pending c = (if cp_tick c then 1 else 0) + (if cp_main c \<in> {CBanner, CRound} then 1 else 0)"

definition control_rank :: "'w control_process \<Rightarrow> int" where
  "control_rank c =
     (case cp_main c of CBanner \<Rightarrow> 4 | CRound \<Rightarrow> 3 | CSelect \<Rightarrow> 2 | CReturned \<Rightarrow> 1 | CExited _ \<Rightarrow> 0)
       + (if cp_tick c then 2 else 0) - 2 * int (cp_ticks c)"

definition control_inv :: "'w control_process \<Rightarrow> bool" where
  "control_inv c \<longleftrightarrow>
     cp_rounds c + control_pending c \<le> Suc (cp_ticks c) \<and>
     (cp_main c = CReturned \<longrightarrow> cp_signalled c) \<and> (\<forall>n. cp_main c = CExited n \<longrightarrow> n = 0 \<and> cp_signalled c)"

lemma control_inv_start: "control_inv (control_start w)"
  by (simp add: control_inv_def control_pending_def control_start_def)

lemma control_step_inv: "control_step A r c c' \<Longrightarrow> control_inv c \<Longrightarrow> control_inv c'"
  unfolding control_step_def
  by (elim disjE control_mainE control_envE) (auto simp: control_inv_def control_pending_def split: if_splits)

lemma control_run_inv: "control_run A r (control_start w) c \<Longrightarrow> control_inv c"
  by (induction rule: rtranclp_induct) (auto intro: control_inv_start control_step_inv)

lemma control_main_rank: "control_main r c c' \<Longrightarrow> control_rank c' < control_rank c"
  by (erule control_mainE) (simp_all add: control_rank_def)

lemma control_env_rank: "control_env A c c' \<Longrightarrow> control_rank c' \<le> control_rank c"
  by (erule control_envE) (simp_all add: control_rank_def)

lemma control_progress: "cp_signalled c \<Longrightarrow> (\<forall>n. cp_main c \<noteq> CExited n) \<Longrightarrow> \<exists>c'. control_main r c c'"
  by (cases "cp_main c"; cases "run_round r (cp_world c)") (blast intro: control_main.intros)+

text \<open>
  Claim C16. A controller process does what \<open>Run\<close> does: when it exits, its output is the banner and that of
  the rounds of \<open>Run\<close>, at most one more than there were ticks, and the cluster is as \<open>Run\<close> left it, with nothing
  but actions of others before, between and after the rounds; it was signalled, and its exit code is 0.
\<close>

theorem controller_runs:
  assumes "control_run A r (control_start w) c" "cp_main c = CExited n" "closed_actions A"
  shows "n = 0 \<and> cp_signalled c \<and>
    (\<exists>f fs g. f \<in> A \<and> set fs \<subseteq> A \<and> g \<in> A \<and> (cp_out c, cp_world c) =
       (control_banner r # fst (Run r fs (f w)), g (snd (Run r fs (f w)))) \<and> length fs \<le> cp_ticks c)"
proof -
  have inv: "control_inv c" by (rule control_run_inv [OF assms(1)])
  have traced: "control_traced A r w c" by (rule control_run_traced [OF assms(1,3)])
  with assms(2) obtain f fs g where "f \<in> A" "set fs \<subseteq> A" "g \<in> A" "cp_rounds c = Suc (length fs)"
    "cp_out c = control_banner r # fst (Run r fs (f w))" "cp_world c = g (snd (Run r fs (f w)))"
    by (auto simp: control_traced_def)
  moreover have "cp_rounds c \<le> Suc (cp_ticks c)" "n = 0" "cp_signalled c"
    using inv assms(2) by (simp_all add: control_inv_def)
  ultimately show ?thesis
    by (intro conjI exI [of _ f] exI [of _ fs] exI [of _ g]) simp_all
qed

text \<open>
  Claim C19. Once it was signalled, a controller ends: its main goroutine always can take a step, and
  with \<open>k\<close> further ticks it takes at most \<open>6 + 2 * k\<close> of them.
\<close>

theorem controller_stops:
  assumes "cp_signalled c"
    and "counted (control_main r) (control_env A) n c c'" "cp_ticks c' = cp_ticks c + k"
  shows "n \<le> 6 + 2 * k \<and> ((\<forall>m. cp_main c' \<noteq> CExited m) \<longrightarrow> (\<exists>d. control_main r c' d))"
proof -
  have keeps: "control_main r a b \<or> control_env A a b \<Longrightarrow> cp_signalled a \<Longrightarrow> cp_signalled b" for a b
    by (elim disjE control_mainE control_envE) simp_all
  have "cp_signalled c' \<and> int n + control_rank c' \<le> control_rank c"
    using assms(2,1) by (rule counted_rank) (use keeps control_main_rank control_env_rank in blast)+
  moreover have "- 2 * int (cp_ticks c') \<le> control_rank c'" "control_rank c \<le> 6 - 2 * int (cp_ticks c)"
    by (auto simp: control_rank_def split: control_pc.split)
  ultimately show ?thesis using assms(3) control_progress by auto
qed

text \<open>A controller that is told to stop during its first round.\<close>

lemma control_snoc:
  assumes "control_run A r a b"
  shows run_control_main: "control_main r b c \<Longrightarrow> control_run A r a c"
    and run_control_env: "control_env A b c \<Longrightarrow> control_run A r a c"
  by (rule rtranclp.rtrancl_into_rtrancl [OF assms], simp add: control_step_def)+

lemma control_example:
  obtains c where "control_run A r (control_start w) c" "cp_main c = CExited 0" "cp_ticks c = 0"
proof -
  let ?c1 = "(control_start w)\<lparr>cp_out := [control_banner r], cp_main := CRound\<rparr>"
  let ?c2 = "?c1\<lparr>cp_signalled := True\<rparr>"
  obtain out w' where "run_round r (cp_world ?c2) = (out, w')" by force
  note 3 = round_done [of ?c2 r, OF _ this]
  have "control_run A r (control_start w) (control_start w)" by simp
  then have "control_run A r (control_start w) ?c1"
    by (rule run_control_main) (use watching [of "control_start w" r] in \<open>simp add: control_start_def\<close>)
  then have "control_run A r (control_start w) ?c2"
    by (rule run_control_env) (rule control_signal)
  then have "control_run A r (control_start w)
      (?c2\<lparr>cp_out := cp_out ?c2 @ out, cp_world := w', cp_rounds := Suc (cp_rounds ?c2), cp_main := CSelect\<rparr>)"
    by (rule run_control_main) (rule 3, simp)
  note run_control_main [OF this take_done]
  then have "control_run A r (control_start w)
      (?c2\<lparr>cp_out := cp_out ?c2 @ out, cp_world := w', cp_rounds := Suc (cp_rounds ?c2), cp_main := CReturned\<rparr>)"
    by (simp add: control_start_def)
  note run_control_main [OF this control_exits]
  then have "control_run A r (control_start w)
      (?c2\<lparr>cp_out := cp_out ?c2 @ out, cp_world := w', cp_rounds := Suc (cp_rounds ?c2), cp_main := CExited 0\<rparr>)"
    by (simp add: control_start_def)
  then show ?thesis by (rule that) (simp_all add: control_start_def)
qed

text \<open>With nobody else at the cluster the controller does just its round.\<close>

theorem controller_runs_witness:
  "\<exists>c :: world control_process. cp_main c = CExited 0 \<and> cp_signalled c \<and>
    (cp_out c, cp_world c) =
      (control_banner example_rc # fst (Run example_rc [] claimed_world), snd (Run example_rc [] claimed_world))"
proof -
  obtain c where c: "control_run {id} example_rc (control_start claimed_world) c" "cp_main c = CExited 0" "cp_ticks c = 0"
    by (rule control_example)
  have "closed_actions {id}" by (simp add: closed_actions_def)
  from controller_runs [OF c(1,2) this] obtain f fs g where f: "cp_signalled c" "length fs \<le> cp_ticks c"
    "f = id" "g = id" "(cp_out c, cp_world c) =
      (control_banner example_rc # fst (Run example_rc fs (f claimed_world)), g (snd (Run example_rc fs (f claimed_world))))"
    by auto
  with c(3) have "fs = []" by simp
  with f c(2) show ?thesis by (intro exI [of _ c]) simp
qed

theorem controller_stops_witness:
  "\<exists>d. control_main example_rc ((control_start claimed_world)\<lparr>cp_signalled := True\<rparr>) d"
  using controller_stops [OF _ none_taken, of "(control_start claimed_world)\<lparr>cp_signalled := True\<rparr>" 0]
  by (simp add: control_start_def)

end
