(* ===== verification/Cask_Lifecycle.thy ===== *)
theory Cask_Lifecycle
  imports Cask_Controller Cask_Terminal
begin

text \<open>
  The controller and the terminal gateway on a cluster that does what it is asked: a session
  that was created gets its Pod, is reported as running once the Pod runs, is then open to its
  owner's terminal, and stays as it is.
\<close>

subsection \<open>A cluster that answers\<close>

text \<open>
  \<open>view\<close> gives the sessions of the namespace that are not being deleted, \<open>pods\<close> its Pods.
  What is asked of a cluster: a read gives what is there; a status patch replaces the status, read
  back as \<open>stored_status\<close> describes; a patch of the finalizers replaces these; a Pod that does not
  exist can be created; and each changes nothing else.
\<close>

definition reliable_cluster ::
    "'w cluster \<Rightarrow> string \<Rightarrow> ('w \<Rightarrow> string \<Rightarrow> AgentSession option) \<Rightarrow> ('w \<Rightarrow> string \<Rightarrow> Pod option) \<Rightarrow> bool" where
  "reliable_cluster K ns view pods \<longleftrightarrow>
     (\<forall>w n s. view w n = Some s \<longrightarrow>
        s_Name s = n \<and> m_DeletionTimestamp (s_Meta s) = None \<and>
        (\<exists>u. k_Get K ns n w = (Inr u, w) \<and> FromUnstructured K (Some u) = Inr s)) \<and>
     (\<forall>w n s st. view w n = Some s \<longrightarrow> printable_status st \<longrightarrow>
        st_CreatedAt st \<noteq> None \<longrightarrow> st_ExpiresAt st \<noteq> None \<longrightarrow>
        (\<exists>u w'. k_Patch K ns n (status_patch st) [''status''] w = (Inr u, w') \<and>
           view w' = (view w)(n \<mapsto> s\<lparr>s_Status := stored_status st\<rparr>) \<and> pods w' = pods w)) \<and>
     (\<forall>w n s fs. view w n = Some s \<longrightarrow>
        (\<exists>u w'. k_Patch K ns n (finalizers_patch fs) [] w = (Inr u, w') \<and>
           view w' = (view w)(n \<mapsto> s\<lparr>s_Meta := (s_Meta s)\<lparr>m_Finalizers := fs\<rparr>\<rparr>) \<and> pods w' = pods w)) \<and>
     (\<forall>w n p. pods w n = Some p \<longrightarrow> k_PodGet K ns n w = (Inr p, w)) \<and>
     (\<forall>w n. pods w n = None \<longrightarrow> (\<exists>e. k_PodGet K ns n w = (Inl e, w) \<and> IsNotFound e)) \<and>
     (\<forall>w p. pods w (pod_Name p) = None \<longrightarrow>
        (\<exists>p' w'. k_PodCreate K ns p w = (Inr p', w') \<and>
           pods w' = (pods w)(pod_Name p \<mapsto> p') \<and> view w' = view w))"

lemma cluster_read:
  assumes "reliable_cluster K ns view pods" "view w n = Some s"
  shows "\<exists>u. k_Get K ns n w = (Inr u, w) \<and> FromUnstructured K (Some u) = Inr s"
    and "s_Name s = n" and "m_DeletionTimestamp (s_Meta s) = None"
  using assms unfolding reliable_cluster_def by blast+

lemma cluster_status:
  assumes "reliable_cluster K ns view pods" "view w n = Some s" "printable_status st"
    "st_CreatedAt st \<noteq> None" "st_ExpiresAt st \<noteq> None"
  shows "\<exists>u w'. k_Patch K ns n (status_patch st) [''status''] w = (Inr u, w') \<and>
    view w' = (view w)(n \<mapsto> s\<lparr>s_Status := stored_status st\<rparr>) \<and> pods w' = pods w"
  using assms unfolding reliable_cluster_def by blast

lemma cluster_finalizers:
  assumes "reliable_cluster K ns view pods" "view w n = Some s"
  shows "\<exists>u w'. k_Patch K ns n (finalizers_patch fs) [] w = (Inr u, w') \<and>
    view w' = (view w)(n \<mapsto> s\<lparr>s_Meta := (s_Meta s)\<lparr>m_Finalizers := fs\<rparr>\<rparr>) \<and> pods w' = pods w"
  using assms unfolding reliable_cluster_def by blast

lemma cluster_pods:
  assumes "reliable_cluster K ns view pods"
  shows "pods w n = Some p \<Longrightarrow> k_PodGet K ns n w = (Inr p, w)"
    and "pods w n = None \<Longrightarrow> \<exists>e. k_PodGet K ns n w = (Inl e, w) \<and> IsNotFound e"
    and "pods w (pod_Name pod) = None \<Longrightarrow>
      \<exists>p' w'. k_PodCreate K ns pod w = (Inr p', w') \<and> pods w' = (pods w)(pod_Name pod \<mapsto> p') \<and> view w' = view w"
  using assms unfolding reliable_cluster_def by blast+

subsection \<open>The rounds\<close>

text \<open>
  A session as the API server creates it: with both times in its status, in a form that can be
  written; its profile resolves and needs no runtime class that is missing; and its time is not up.
\<close>

definition ready_session :: "'w reconciler \<Rightarrow> AgentSession \<Rightarrow> bool" where
  "ready_session r s \<longleftrightarrow>
     printable_status (s_Status s) \<and> st_CreatedAt (s_Status s) \<noteq> None \<and> st_ExpiresAt (s_Status s) \<noteq> None \<and>
     (\<exists>p. session_profile r s = Inr p \<and> (\<forall>w. CheckRuntimeClass (rc_Cluster r) p w = (None, w))) \<and>
     (\<forall>w. \<not> expired s (rc_now r w))"

definition claimed :: "AgentSession \<Rightarrow> AgentSession" where
  "claimed s =
     (if hasFinalizer (m_Finalizers (s_Meta s)) Finalizer then s
      else s\<lparr>s_Meta := (s_Meta s)\<lparr>m_Finalizers := m_Finalizers (s_Meta s) @ [Finalizer]\<rparr>\<rparr>)"

definition provisioning :: "AgentSession \<Rightarrow> AgentSessionStatus" where
  "provisioning s = (s_Status s)\<lparr>st_Phase := PhaseProvisioning, st_PodName := PodName (s_Name s),
     st_ContainerName := ContainerName, st_TerminalReady := False\<rparr>"

definition running :: "AgentSession \<Rightarrow> AgentSessionStatus" where
  "running s = (s_Status s)\<lparr>st_PodName := PodName (s_Name s), st_ContainerName := ContainerName,
     st_Phase := PhaseRunning, st_TerminalReady := True\<rparr>"

lemma ensureStatusTimes_id:
  "st_CreatedAt st \<noteq> None \<Longrightarrow> st_ExpiresAt st \<noteq> None \<Longrightarrow> ensureStatusTimes s st t = st"
  by (cases st) (auto simp: ensureStatusTimes_def Let_def)

lemma new_status_times:
  assumes "ready_session r s"
  shows "printable_status (provisioning s)" "st_CreatedAt (provisioning s) \<noteq> None" "st_ExpiresAt (provisioning s) \<noteq> None"
    "printable_status (running s)" "st_CreatedAt (running s) \<noteq> None" "st_ExpiresAt (running s) \<noteq> None"
  using assms by (simp_all add: ready_session_def provisioning_def running_def printable_status_def)

lemma create_pod_provisioning:
  "k_PodCreate (rc_Cluster r) (rc_namespace r) (BuildPod (rc_Mac r) s (rc_config r) p (k_Now (rc_Cluster r) w)) w =
     (Inr pod, w') \<Longrightarrow>
   create_pod r s p w = rc_patch_status r (s_Name s) (ensureStatusTimes s (provisioning s) (rc_now r w')) w'"
  by (simp add: create_pod_def provisioning_def Let_def)

lemma report_pod_running:
  "pod_Phase p = ''Running'' \<Longrightarrow>
   report_pod r s p w = rc_patch_status r (s_Name s) (ensureStatusTimes s (running s) (rc_now r w)) w"
  by (simp add: report_pod_def running_def Let_def)

text \<open>Reading the session, and claiming it with the finalizer, before the branches of a reconciliation.\<close>

lemma reconcile_claims:
  assumes rel: "reliable_cluster (rc_Cluster r) (rc_namespace r) view pods"
    and s: "view w n = Some s" and ready: "ready_session r s"
  shows "\<exists>w'. Reconcile r n w = provision r s w' \<and> view w' = (view w)(n \<mapsto> claimed s) \<and> pods w' = pods w"
proof -
  obtain u where u: "k_Get (rc_Cluster r) (rc_namespace r) n w = (Inr u, w)"
    "FromUnstructured (rc_Cluster r) (Some u) = Inr s"
    using cluster_read(1) [OF rel s] by blast
  note name = cluster_read(2,3) [OF rel s]
  have live: "\<not> expired s (rc_now r w')" for w' using ready by (simp add: ready_session_def)
  show ?thesis
  proof (cases "hasFinalizer (m_Finalizers (s_Meta s)) Finalizer")
    case True
    with u name live s show ?thesis
      by (intro exI [of _ w]) (simp add: Reconcile_def claimed_def fun_upd_idem)
  next
    case False
    obtain v w' where "k_Patch (rc_Cluster r) (rc_namespace r) n
        (finalizers_patch (m_Finalizers (s_Meta s) @ [Finalizer])) [] w = (Inr v, w')"
      "view w' = (view w)(n \<mapsto> claimed s)" "pods w' = pods w"
      using cluster_finalizers [OF rel s] False unfolding claimed_def by fastforce
    with False u name live show ?thesis
      by (intro exI [of _ w']) (simp add: Reconcile_def rc_patch_finalizers_def PatchFinalizers_def patch_error_def)
  qed
qed

lemma claimed_simps [simp]:
  "s_Name (claimed s) = s_Name s" "s_Spec (claimed s) = s_Spec s" "s_Status (claimed s) = s_Status s"
  "m_Namespace (s_Meta (claimed s)) = m_Namespace (s_Meta s)"
  "hasFinalizer (m_Finalizers (s_Meta (claimed s))) Finalizer"
  by (simp_all add: claimed_def hasFinalizer_def)

lemma reconcile_creates:
  assumes rel: "reliable_cluster (rc_Cluster r) (rc_namespace r) view pods"
    and s: "view w n = Some s" and ready: "ready_session r s" and none: "pods w (PodName n) = None"
  shows "\<exists>w' pod. Reconcile r n w = (None, w') \<and> pods w' = (pods w)(PodName n \<mapsto> pod) \<and>
    view w' = (view w)(n \<mapsto> (claimed s)\<lparr>s_Status := stored_status (provisioning s)\<rparr>)"
proof -
  obtain w1 where w1: "Reconcile r n w = provision r s w1" "view w1 = (view w)(n \<mapsto> claimed s)" "pods w1 = pods w"
    using reconcile_claims [OF rel s ready] by blast
  obtain p where p: "session_profile r s = Inr p" "\<And>w. CheckRuntimeClass (rc_Cluster r) p w = (None, w)"
    using ready by (auto simp: ready_session_def)
  obtain e where e: "k_PodGet (rc_Cluster r) (rc_namespace r) (PodName n) w1 = (Inl e, w1)" "IsNotFound e"
    using cluster_pods(2) [OF rel] none w1(3) by metis
  let ?pod = "BuildPod (rc_Mac r) s (rc_config r) p (k_Now (rc_Cluster r) w1)"
  have name: "s_Name s = n" using cluster_read(2) [OF rel s] .
  then have "pod_Name ?pod = PodName n" by (simp add: BuildPod_spec)
  with none w1(3) obtain p' w2 where c: "k_PodCreate (rc_Cluster r) (rc_namespace r) ?pod w1 = (Inr p', w2)"
    "pods w2 = (pods w1)(PodName n \<mapsto> p')" "view w2 = view w1"
    using cluster_pods(3) [OF rel, of w1 ?pod] by metis
  have s2: "view w2 n = Some (claimed s)" using c(3) w1(2) by simp
  obtain u w3 where st: "k_Patch (rc_Cluster r) (rc_namespace r) n (status_patch (provisioning s)) [''status''] w2 = (Inr u, w3)"
    "view w3 = (view w2)(n \<mapsto> (claimed s)\<lparr>s_Status := stored_status (provisioning s)\<rparr>)" "pods w3 = pods w2"
    using cluster_status [OF rel s2 new_status_times(1-3) [OF ready]] by blast
  have "ensureStatusTimes s (provisioning s) t = provisioning s" for t
    using new_status_times(2,3) [OF ready] by (rule ensureStatusTimes_id)
  then have "provision r s w1 = (None, w3)"
    using p e create_pod_provisioning [OF c(1)] st(1) name
    by (simp add: provision_def session_profile_def rc_patch_status_def PatchStatus_def patch_error_def)
  with w1 c st show ?thesis by (intro exI [of _ w3] exI [of _ p']) simp
qed

lemma reconcile_reports:
  assumes rel: "reliable_cluster (rc_Cluster r) (rc_namespace r) view pods"
    and s: "view w n = Some s" and ready: "ready_session r s"
    and pod: "pods w (PodName n) = Some p" "pod_Phase p = ''Running''"
  shows "\<exists>w'. Reconcile r n w = (None, w') \<and> pods w' = pods w \<and>
    view w' = (view w)(n \<mapsto> (claimed s)\<lparr>s_Status := stored_status (running s)\<rparr>)"
proof -
  obtain w1 where w1: "Reconcile r n w = provision r s w1" "view w1 = (view w)(n \<mapsto> claimed s)" "pods w1 = pods w"
    using reconcile_claims [OF rel s ready] by blast
  obtain q where q: "session_profile r s = Inr q" "\<And>w. CheckRuntimeClass (rc_Cluster r) q w = (None, w)"
    using ready by (auto simp: ready_session_def)
  have g: "k_PodGet (rc_Cluster r) (rc_namespace r) (PodName n) w1 = (Inr p, w1)"
    using cluster_pods(1) [OF rel] pod(1) w1(3) by metis
  have name: "s_Name s = n" using cluster_read(2) [OF rel s] .
  have s1: "view w1 n = Some (claimed s)" using w1(2) by simp
  obtain u w2 where st: "k_Patch (rc_Cluster r) (rc_namespace r) n (status_patch (running s)) [''status''] w1 = (Inr u, w2)"
    "view w2 = (view w1)(n \<mapsto> (claimed s)\<lparr>s_Status := stored_status (running s)\<rparr>)" "pods w2 = pods w1"
    using cluster_status [OF rel s1 new_status_times(4-6) [OF ready]] by blast
  have "ensureStatusTimes s (running s) t = running s" for t
    using new_status_times(5,6) [OF ready] by (rule ensureStatusTimes_id)
  then have "provision r s w1 = (None, w2)"
    using q g report_pod_running [OF pod(2), of r s w1] st(1) name
    by (simp add: provision_def session_profile_def rc_patch_status_def PatchStatus_def patch_error_def)
  with w1 st show ?thesis by (intro exI [of _ w2]) simp
qed

subsection \<open>A session comes up and stays up\<close>

lemma printable_stored: "printable_status st \<Longrightarrow> printable_status (stored_status st)"
proof -
  have "Unix (whole_seconds t) = Unix t" for t by (simp add: whole_seconds_def Unix_def)
  then have "printable_time (whole_seconds t) = printable_time t" for t
    by (simp add: printable_time_def whole_seconds_def)
  then show "printable_status st \<Longrightarrow> printable_status (stored_status st)"
    by (auto simp: printable_status_def stored_status_def split: option.splits)
qed

lemma stored_idem: "stored_status (stored_status st) = stored_status st"
proof -
  have "whole_seconds (whole_seconds t) = whole_seconds t" for t
    by (simp add: whole_seconds_def Unix_def)
  then show ?thesis
    by (cases "st_CreatedAt st"; cases "st_ExpiresAt st")
      (simp_all add: stored_status_def defaultString_def)
qed

lemma running_stored:
  "running ((claimed s)\<lparr>s_Status := stored_status (provisioning s)\<rparr>) = stored_status (running s)"
  "running (s\<lparr>s_Status := stored_status (running s)\<rparr>) = stored_status (running s)"
  by (simp_all add: running_def provisioning_def stored_status_def defaultString_def ContainerName_def)

text \<open>The time of a session is not up either when its expiry was cut to seconds.\<close>

definition in_time :: "'w reconciler \<Rightarrow> AgentSession \<Rightarrow> bool" where
  "in_time r s \<longleftrightarrow>
     (\<forall>w e. st_ExpiresAt (s_Status s) = Some e \<longrightarrow> nanos (rc_now r w) \<le> nanos (whole_seconds e))"

lemma ready_stored:
  assumes "ready_session r s" "in_time r s" "s_Spec s' = s_Spec s"
    and "s_Status s' = stored_status st" "printable_status st"
    and "st_CreatedAt st = st_CreatedAt (s_Status s)" "st_ExpiresAt st = st_ExpiresAt (s_Status s)"
  shows "ready_session r s'"
proof -
  obtain e where e: "st_ExpiresAt (s_Status s) = Some e" using assms(1) by (auto simp: ready_session_def)
  with assms(4,7) have "st_ExpiresAt (s_Status s') = Some (whole_seconds e)" by (simp add: stored_status_def)
  moreover have "nanos (rc_now r w) \<le> nanos (whole_seconds e)" for w using assms(2) e by (simp add: in_time_def)
  ultimately have "\<not> expired s' (rc_now r w)" for w
    by (simp add: expired_def expiryTime_def After_def not_less)
  moreover have "session_profile r s' = session_profile r s" by (simp add: session_profile_def assms(3))
  moreover have "printable_status (s_Status s')" using assms(4,5) printable_stored by simp
  moreover have "st_CreatedAt (s_Status s') \<noteq> None" "st_ExpiresAt (s_Status s') \<noteq> None"
    using assms(1,4,6,7) by (auto simp: ready_session_def stored_status_def)
  ultimately show ?thesis
    using assms(1) by (simp add: ready_session_def)
qed

lemma claimed_idem [simp]: "claimed (claimed s) = claimed s"
  by (simp add: claimed_def hasFinalizer_def)

lemma claimed_status [simp]: "claimed (s\<lparr>s_Status := st\<rparr>) = (claimed s)\<lparr>s_Status := st\<rparr>"
  by (simp add: claimed_def)

definition settled :: "AgentSession \<Rightarrow> AgentSession" where
  "settled s = (claimed s)\<lparr>s_Status := stored_status (running s)\<rparr>"

lemma settled_simps [simp]:
  "s_Name (settled s) = s_Name s" "s_UserID (settled s) = s_UserID s" "s_Spec (settled s) = s_Spec s"
  "m_Namespace (s_Meta (settled s)) = m_Namespace (s_Meta s)"
  "st_Phase (s_Status (settled s)) = PhaseRunning"
  by (simp_all add: settled_def running_def stored_status_def)

lemma stages_ready:
  assumes "ready_session r s" "in_time r s"
  shows "ready_session r ((claimed s)\<lparr>s_Status := stored_status (provisioning s)\<rparr>)"
    and "ready_session r (settled s)"
  by (rule ready_stored [OF assms, where st = "provisioning s"],
      simp_all add: new_status_times [OF assms(1)], simp_all add: provisioning_def)
    (rule ready_stored [OF assms, where st = "running s"],
      simp_all add: settled_def new_status_times [OF assms(1)], simp_all add: running_def)

text \<open>Once the Pod runs: one round reports it, and the next changes nothing.\<close>

lemma reconcile_settles:
  assumes rel: "reliable_cluster (rc_Cluster r) (rc_namespace r) view pods"
    and ready: "ready_session r s" "in_time r s"
    and s1: "view w n = Some ((claimed s)\<lparr>s_Status := stored_status (provisioning s)\<rparr>)"
    and pod: "pods w (PodName n) = Some p" "pod_Phase p = ''Running''"
  shows "\<exists>w3 w4. Reconcile r n w = (None, w3) \<and> view w3 n = Some (settled s) \<and> pods w3 = pods w \<and>
    Reconcile r n w3 = (None, w4) \<and> view w4 = view w3 \<and> pods w4 = pods w3"
proof -
  obtain w3 where w3: "Reconcile r n w = (None, w3)" "pods w3 = pods w" "view w3 = (view w)(n \<mapsto> settled s)"
    using reconcile_reports [OF rel s1 stages_ready(1) [OF ready] pod]
    by (auto simp: running_stored(1) stored_idem settled_def)
  have s3: "view w3 n = Some (settled s)" "pods w3 (PodName n) = Some p" using w3 pod(1) by simp_all
  obtain w4 where "Reconcile r n w3 = (None, w4)" "pods w4 = pods w3" "view w4 = (view w3)(n \<mapsto> settled s)"
    using reconcile_reports [OF rel s3(1) stages_ready(2) [OF ready] s3(2) pod(2)] running_stored(2) [of "claimed s"]
    by (auto simp: stored_idem running_def settled_def)
  with w3 s3(1) show ?thesis by (auto simp: fun_upd_idem)
qed

lemma serve_settled:
  assumes rel: "reliable_cluster K ns view pods" and v: "view w n = Some (settled s)"
    and g: "gw_Resolver g = Some (kube_Get K ns)" "gw_Start g = Some start" "gw_Upgrade g = (\<lambda>_ _ w. (True, w))"
  shows "Serve g q (s_UserID s) n w =
    (case start \<lparr>er_Namespace = m_Namespace (s_Meta s), er_PodName = PodName n,
        er_ContainerName = ContainerName, er_Command = DefaultCommand (sp_Tool (s_Spec s))\<rparr> w of
       (Inl _, w') \<Rightarrow> (ExecFailed, w') | (Inr stream, w') \<Rightarrow> (Started stream, w'))"
proof -
  have "s_Name s = n" using cluster_read(2) [OF rel v] by simp
  moreover have "kube_Get K ns n w = (Inr (settled s), w)"
    using cluster_read(1) [OF rel v] by (auto simp: kube_Get_def)
  ultimately show ?thesis
    using g by (simp add: Serve_def exec_request_def settled_def running_def stored_status_def defaultString_def
        ContainerName_def PodName_def)
qed

text \<open>
  What follows once the Pod of the session runs: a round reports it as running, the gateway then starts
  the owner's terminal in that Pod, and a further round leaves all sessions and Pods as they are.
\<close>

definition up_once_running ::
    "'w reconciler \<Rightarrow> ('w \<Rightarrow> string \<Rightarrow> AgentSession option) \<Rightarrow> ('w \<Rightarrow> string \<Rightarrow> Pod option) \<Rightarrow>
     ('w, 's) gateway \<Rightarrow> (ExecRequest \<Rightarrow> 'w \<Rightarrow> (kerr + 's) \<times> 'w) \<Rightarrow> request \<Rightarrow>
     string \<Rightarrow> AgentSession \<Rightarrow> 'w \<Rightarrow> bool" where
  "up_once_running r view pods g start q n s w1 \<longleftrightarrow>
     (\<forall>w2 p. view w2 = view w1 \<longrightarrow> pods w2 (PodName n) = Some p \<longrightarrow> pod_Phase p = ''Running'' \<longrightarrow>
       (\<exists>w3 s3 w4. Reconcile r n w2 = (None, w3) \<and> view w3 n = Some s3 \<and> s_Spec s3 = s_Spec s \<and>
         st_Phase (s_Status s3) = PhaseRunning \<and> pods w3 = pods w2 \<and>
         Serve g q (s_UserID s) n w3 =
           (case start \<lparr>er_Namespace = m_Namespace (s_Meta s), er_PodName = PodName n,
               er_ContainerName = ContainerName, er_Command = DefaultCommand (sp_Tool (s_Spec s))\<rparr> w3 of
              (Inl _, w') \<Rightarrow> (ExecFailed, w') | (Inr stream, w') \<Rightarrow> (Started stream, w')) \<and>
         Reconcile r n w3 = (None, w4) \<and> view w4 = view w3 \<and> pods w4 = pods w3))"

text \<open>
  Claim C28. On a cluster that does what it is asked, while its time is not up, a new session comes up:
  the first round creates its Pod; the next one after the Pod runs reports it as running;
  from then on the terminal gateway starts the owner's terminal in that Pod, and further
  rounds leave all sessions as they are.
\<close>

theorem session_comes_up:
  assumes rel: "reliable_cluster (rc_Cluster r) (rc_namespace r) view pods"
    and s: "view w n = Some s" and ready: "ready_session r s" "in_time r s"
    and none: "pods w (PodName n) = None"
    and g: "gw_Resolver g = Some (kube_Get (rc_Cluster r) (rc_namespace r))" "gw_Start g = Some start"
      "gw_Upgrade g = (\<lambda>_ _ w. (True, w))"
  shows "\<exists>w1 pod. Reconcile r n w = (None, w1) \<and> pods w1 = (pods w)(PodName n \<mapsto> pod) \<and>
    up_once_running r view pods g start q n s w1"
proof -
  obtain w1 pod where w1: "Reconcile r n w = (None, w1)" "pods w1 = (pods w)(PodName n \<mapsto> pod)"
    "view w1 n = Some ((claimed s)\<lparr>s_Status := stored_status (provisioning s)\<rparr>)"
    using reconcile_creates [OF rel s ready(1) none] by auto
  have "up_once_running r view pods g start q n s w1"
    unfolding up_once_running_def
  proof (intro allI impI)
    fix w2 p
    assume w2: "view w2 = view w1" "pods w2 (PodName n) = Some p" "pod_Phase p = ''Running''"
    have "view w2 n = Some ((claimed s)\<lparr>s_Status := stored_status (provisioning s)\<rparr>)" using w1(3) w2(1) by simp
    from reconcile_settles [OF rel ready this w2(2,3)] obtain w3 w4 where
      w3: "Reconcile r n w2 = (None, w3)" "view w3 n = Some (settled s)" "pods w3 = pods w2"
      "Reconcile r n w3 = (None, w4)" "view w4 = view w3" "pods w4 = pods w3"
      by (elim exE conjE)
    with serve_settled [OF rel w3(2) g] show "\<exists>w3 s3 w4. Reconcile r n w2 = (None, w3) \<and> view w3 n = Some s3 \<and> s_Spec s3 = s_Spec s \<and>
         st_Phase (s_Status s3) = PhaseRunning \<and> pods w3 = pods w2 \<and>
         Serve g q (s_UserID s) n w3 =
           (case start \<lparr>er_Namespace = m_Namespace (s_Meta s), er_PodName = PodName n,
               er_ContainerName = ContainerName, er_Command = DefaultCommand (sp_Tool (s_Spec s))\<rparr> w3 of
              (Inl _, w') \<Rightarrow> (ExecFailed, w') | (Inr stream, w') \<Rightarrow> (Started stream, w')) \<and>
         Reconcile r n w3 = (None, w4) \<and> view w4 = view w3 \<and> pods w4 = pods w3"
      by (intro exI [of _ w3] exI [of _ "settled s"] exI [of _ w4]) simp
  qed
  with w1(1,2) show ?thesis by blast
qed

subsection \<open>The in-memory cluster is such a cluster\<close>

definition test_view :: "world \<Rightarrow> string \<Rightarrow> AgentSession option" where
  "test_view w n =
     (case map_of (w_objects w) n of
        None \<Rightarrow> None
      | Some u \<Rightarrow>
          (case FromUnstructured test_cluster (Some u) of
             Inl _ \<Rightarrow> None
           | Inr s \<Rightarrow> if s_Name s = n \<and> jget (metadata u) ''deletionTimestamp'' = JNull then Some s else None))"

lemma test_viewE:
  assumes "test_view w n = Some s"
  obtains u where "map_of (w_objects w) n = Some u" "FromUnstructured test_cluster (Some u) = Inr s"
    "s_Name s = n" "jget (metadata u) ''deletionTimestamp'' = JNull"
  using assms by (auto simp: test_view_def split: option.splits sum.splits if_splits)

lemma test_view_update:
  assumes "FromUnstructured test_cluster (Some u) = Inr s" "s_Name s = n"
    "jget (metadata u) ''deletionTimestamp'' = JNull"
  shows "test_view (w\<lparr>w_objects := AList.update n u (w_objects w)\<rparr>) = (test_view w)(n \<mapsto> s)"
  using assms by (auto simp: test_view_def update_conv fun_eq_iff)

lemma merge_plain:
  assumes "distinct (map fst p)" "\<forall>v \<in> snd ` set p. \<forall>o'. v \<noteq> JObject o' \<and> v \<noteq> JNull"
  shows "map_of (merge_fields m p) k = (case map_of p k of None \<Rightarrow> map_of m k | Some v \<Rightarrow> Some v)"
  using assms
proof (induction p arbitrary: m)
  case (Cons kv p)
  obtain k' v where kv: "kv = (k', v)" by force
  have v: "v \<noteq> JNull" "\<And>o'. v \<noteq> JObject o'" using Cons.prems(2) kv by auto
  then have "merge_value x v = v" for x by (cases v) auto
  moreover from v have "merge_fields m ((k', v) # p) = merge_fields (jset m k' (merge_value (jget m k') v)) p"
    by (cases v) auto
  moreover have "map_of p k' = None" using Cons.prems(1) kv by (simp add: map_of_eq_None_iff)
  moreover have "map_of (merge_fields m' p) k = (case map_of p k of None \<Rightarrow> map_of m' k | Some v \<Rightarrow> Some v)" for m'
    using Cons.prems by (intro Cons.IH) auto
  ultimately show ?case by (auto simp: kv jset_def update_conv split: option.splits)
qed simp

lemma StatusFromMap_merged:
  assumes "printable_status st" "st_CreatedAt st \<noteq> None" "st_ExpiresAt st \<noteq> None"
  shows "StatusFromMap (merge_fields m (StatusToMap st)) = stored_status st"
proof -
  obtain c e where ce: "st_CreatedAt st = Some c" "st_ExpiresAt st = Some e" using assms(2,3) by auto
  have "map_of (merge_fields m (StatusToMap st)) k =
      (case map_of (StatusToMap st) k of None \<Rightarrow> map_of m k | Some v \<Rightarrow> Some v)" for k
    by (rule merge_plain) (auto simp: StatusToMap_def time_field_def ce)
  then have "k \<in> fst ` set (StatusToMap st) \<Longrightarrow>
      jget (merge_fields m (StatusToMap st)) k = jget (StatusToMap st) k" for k
    by (auto simp: jget_def map_of_eq_None_iff split: option.splits)
  then have "StatusFromMap (merge_fields m (StatusToMap st)) = StatusFromMap (StatusToMap st)"
    by (simp add: StatusFromMap_def StatusToMap_def time_field_def ce)
  then show ?thesis using assms(1) by (simp add: StatusFromMap_StatusToMap)
qed

lemma test_NestedMap: "k_NestedMap test_cluster = t_NestedMap"
  by (simp add: test_cluster_def)

lemma test_status:
  assumes u: "FromUnstructured test_cluster (Some u) = Inr s"
    and st: "printable_status st" "st_CreatedAt st \<noteq> None" "st_ExpiresAt st \<noteq> None"
  shows "FromUnstructured test_cluster (Some (merge_fields u (status_patch st))) = Inr (s\<lparr>s_Status := stored_status st\<rparr>)"
    and "metadata (merge_fields u (status_patch st)) = metadata u"
proof -
  let ?old = "case jget u ''status'' of JObject m \<Rightarrow> m | _ \<Rightarrow> []"
  have m: "merge_fields u (status_patch st) = jset u ''status'' (JObject (merge_fields ?old (StatusToMap st)))"
    by (simp add: status_patch_def)
  then show md: "metadata (merge_fields u (status_patch st)) = metadata u"
    by (simp add: metadata_def jset_def jget_def update_conv)
  have "t_NestedMap (merge_fields u (status_patch st)) ''spec'' = t_NestedMap u ''spec''"
    "t_NestedMap (merge_fields u (status_patch st)) ''status'' = Inr (Some (merge_fields ?old (StatusToMap st)))"
    unfolding m by (simp_all add: t_NestedMap_def jset_def update_conv)
  moreover have "k_Name test_cluster (merge_fields u (status_patch st)) = k_Name test_cluster u"
    "k_Namespace test_cluster (merge_fields u (status_patch st)) = k_Namespace test_cluster u"
    "k_UID test_cluster (merge_fields u (status_patch st)) = k_UID test_cluster u"
    "k_Labels test_cluster (merge_fields u (status_patch st)) = k_Labels test_cluster u"
    "k_Finalizers test_cluster (merge_fields u (status_patch st)) = k_Finalizers test_cluster u"
    "k_CreationTimestamp test_cluster (merge_fields u (status_patch st)) = k_CreationTimestamp test_cluster u"
    "k_DeletionTimestamp test_cluster (merge_fields u (status_patch st)) = k_DeletionTimestamp test_cluster u"
    by (simp_all only: test_cluster_def cluster.simps md)
  ultimately show "FromUnstructured test_cluster (Some (merge_fields u (status_patch st))) = Inr (s\<lparr>s_Status := stored_status st\<rparr>)"
    using u StatusFromMap_merged [OF st, of ?old]
    by (auto simp: FromUnstructured_def Let_def test_NestedMap split: sum.splits option.splits)
qed

lemma test_finalizers:
  assumes u: "FromUnstructured test_cluster (Some u) = Inr s"
  shows "FromUnstructured test_cluster (Some (merge_fields u (finalizers_patch fs))) =
      Inr (s\<lparr>s_Meta := (s_Meta s)\<lparr>m_Finalizers := fs\<rparr>\<rparr>)"
    and "jget (metadata (merge_fields u (finalizers_patch fs))) ''deletionTimestamp'' =
      jget (metadata u) ''deletionTimestamp''"
proof -
  have m: "merge_fields u (finalizers_patch fs) = t_set ''finalizers'' (JArray (map JString fs)) u"
    by (simp add: finalizers_patch_def t_set_def metadata_def)
  show d: "jget (metadata (merge_fields u (finalizers_patch fs))) ''deletionTimestamp'' =
      jget (metadata u) ''deletionTimestamp''"
    unfolding m by (simp add: jset_def jget_def update_conv)
  have "t_NestedMap (merge_fields u (finalizers_patch fs)) ''spec'' = t_NestedMap u ''spec''"
    "t_NestedMap (merge_fields u (finalizers_patch fs)) ''status'' = t_NestedMap u ''status''"
    unfolding m by (simp_all add: t_NestedMap_def t_set_def jset_def update_conv)
  moreover have "jget (metadata (merge_fields u (finalizers_patch fs))) k = jget (metadata u) k" if "k \<noteq> ''finalizers''" for k
    using that unfolding m by (simp add: jset_def jget_def update_conv)
  then have "k_Name test_cluster (merge_fields u (finalizers_patch fs)) = k_Name test_cluster u"
    "k_Namespace test_cluster (merge_fields u (finalizers_patch fs)) = k_Namespace test_cluster u"
    "k_UID test_cluster (merge_fields u (finalizers_patch fs)) = k_UID test_cluster u"
    "k_Labels test_cluster (merge_fields u (finalizers_patch fs)) = k_Labels test_cluster u"
    "k_CreationTimestamp test_cluster (merge_fields u (finalizers_patch fs)) = k_CreationTimestamp test_cluster u"
    "k_DeletionTimestamp test_cluster (merge_fields u (finalizers_patch fs)) = k_DeletionTimestamp test_cluster u"
    by (simp_all add: test_cluster_def)
  moreover have "k_Finalizers test_cluster (merge_fields u (finalizers_patch fs)) = fs"
    unfolding m by (simp add: test_cluster_def t_strings_def jset_def jget_def update_conv comp_def)
  ultimately show "FromUnstructured test_cluster (Some (merge_fields u (finalizers_patch fs))) =
      Inr (s\<lparr>s_Meta := (s_Meta s)\<lparr>m_Finalizers := fs\<rparr>\<rparr>)"
    using u by (auto simp: FromUnstructured_def Let_def test_NestedMap split: sum.splits option.splits)
qed

lemma test_patch:
  assumes "map_of (w_objects w) n = Some u" "jget (metadata (merge_fields u p)) ''deletionTimestamp'' = JNull"
  shows "k_Patch test_cluster ns n p sub w =
    (Inr (merge_fields u p), w\<lparr>w_objects := AList.update n (merge_fields u p) (w_objects w)\<rparr>)"
  using assms by (simp add: test_cluster_def t_Patch_def t_remove_if_done_def update_conv)

lemma test_view_deletion: "test_view w n = Some s \<Longrightarrow> m_DeletionTimestamp (s_Meta s) = None"
  by (erule test_viewE)
    (auto simp: FromUnstructured_def Let_def test_cluster_def parseTimePtr_def split: sum.splits option.splits)

lemma test_cluster_reliable: "reliable_cluster test_cluster ns test_view (\<lambda>w. map_of (w_pods w))"
proof -
  have get: "s_Name s = n \<and> m_DeletionTimestamp (s_Meta s) = None \<and>
      (\<exists>u. k_Get test_cluster ns n w = (Inr u, w) \<and> FromUnstructured test_cluster (Some u) = Inr s)"
    if v: "test_view w n = Some s" for w n s
    using v test_view_deletion [OF v] by (auto elim!: test_viewE simp: test_cluster_def)
  have status: "\<exists>u w'. k_Patch test_cluster ns n (status_patch st) [''status''] w = (Inr u, w') \<and>
      test_view w' = (test_view w)(n \<mapsto> s\<lparr>s_Status := stored_status st\<rparr>) \<and> map_of (w_pods w') = map_of (w_pods w)"
    if v: "test_view w n = Some s" and st: "printable_status st" "st_CreatedAt st \<noteq> None" "st_ExpiresAt st \<noteq> None" for w n s st
  proof -
    obtain u where u: "map_of (w_objects w) n = Some u" "FromUnstructured test_cluster (Some u) = Inr s"
      "s_Name s = n" "jget (metadata u) ''deletionTimestamp'' = JNull"
      using v by (rule test_viewE)
    note t = test_status [OF u(2) st]
    show ?thesis using u test_patch [OF u(1)] test_view_update [OF t(1)] t(2) by simp
  qed
  have fin: "\<exists>u w'. k_Patch test_cluster ns n (finalizers_patch fs) [] w = (Inr u, w') \<and>
      test_view w' = (test_view w)(n \<mapsto> s\<lparr>s_Meta := (s_Meta s)\<lparr>m_Finalizers := fs\<rparr>\<rparr>) \<and> map_of (w_pods w') = map_of (w_pods w)"
    if v: "test_view w n = Some s" for w n s fs
  proof -
    obtain u where u: "map_of (w_objects w) n = Some u" "FromUnstructured test_cluster (Some u) = Inr s"
      "s_Name s = n" "jget (metadata u) ''deletionTimestamp'' = JNull"
      using v by (rule test_viewE)
    note t = test_finalizers [OF u(2), of fs]
    show ?thesis using u test_patch [OF u(1)] test_view_update [OF t(1)] t(2) by simp
  qed
  have pods: "map_of (w_pods w) n = Some p \<Longrightarrow> k_PodGet test_cluster ns n w = (Inr p, w)"
    "map_of (w_pods w) n = None \<Longrightarrow> \<exists>e. k_PodGet test_cluster ns n w = (Inl e, w) \<and> IsNotFound e" for w n p
    by (simp_all add: test_cluster_def t_missing_def)
  have new: "\<exists>p' w'. k_PodCreate test_cluster ns p w = (Inr p', w') \<and>
      map_of (w_pods w') = (map_of (w_pods w))(pod_Name p \<mapsto> p') \<and> test_view w' = test_view w" for w p
    by (simp add: test_cluster_def update_conv' test_view_def fun_eq_iff)
  show ?thesis
    unfolding reliable_cluster_def using get status fin pods new by simp
qed

definition new_world :: world where
  "new_world = example_world example_session []"

definition new_session :: AgentSession where
  "new_session = (case test_view new_world ''sess-1'' of Some s \<Rightarrow> s | None \<Rightarrow> example_session)"

definition pod_runs :: "world \<Rightarrow> world" where
  "pod_runs w = w\<lparr>w_pods := [(PodName ''sess-1'', running_pod)]\<rparr>"

definition cluster_gateway :: "(world, ExecRequest) gateway" where
  "cluster_gateway =
     \<lparr>gw_Resolver = Some (kube_Get (rc_Cluster example_rc) (rc_namespace example_rc)),
      gw_Start = Some (\<lambda>req w. (Inr req, w)), gw_CheckOrigin = None,
      gw_Upgrade = (\<lambda>check r w. (True, w)), gw_Timeout = 0\<rparr>"

lemma new_world_reads: "case test_view new_world ''sess-1'' of None \<Rightarrow> False | Some s \<Rightarrow> True"
  by code_simp

lemma new_session_ready:
  "printable_status (s_Status new_session)"
  "map_option nanos (st_CreatedAt (s_Status new_session)) = Some (1700000000 * 1000000000)"
  "map_option nanos (st_ExpiresAt (s_Status new_session)) = Some (1700007200 * 1000000000)"
  "session_profile example_rc new_session = Inr zero_profile"
  "pod_Phase running_pod = ''Running''"
  by code_simp+

theorem session_comes_up_witness:
  "\<exists>w1 w3 w4 s3. Reconcile example_rc ''sess-1'' new_world = (None, w1) \<and>
    Reconcile example_rc ''sess-1'' (pod_runs w1) = (None, w3) \<and>
    test_view w3 ''sess-1'' = Some s3 \<and> st_Phase (s_Status s3) = PhaseRunning \<and>
    Reconcile example_rc ''sess-1'' w3 = (None, w4) \<and> test_view w4 = test_view w3 \<and>
    Serve cluster_gateway (example_request ''GET'' [] ''x'') (s_UserID new_session) ''sess-1'' w3 =
      (Started \<lparr>er_Namespace = m_Namespace (s_Meta new_session), er_PodName = PodName ''sess-1'',
        er_ContainerName = ContainerName, er_Command = DefaultCommand (sp_Tool (s_Spec new_session))\<rparr>, w3)"
proof -
  have c: "rc_Cluster example_rc = test_cluster" "rc_now example_rc w = UnixTime 1700000100" for w
    by (simp_all add: example_rc_def rc_now_def)
  have rel: "reliable_cluster (rc_Cluster example_rc) (rc_namespace example_rc) test_view (\<lambda>w. map_of (w_pods w))"
    unfolding c by (rule test_cluster_reliable)
  have v: "test_view new_world ''sess-1'' = Some new_session"
    using new_world_reads by (simp add: new_session_def split: option.splits)
  obtain e where e: "st_ExpiresAt (s_Status new_session) = Some e" "nanos e = 1700007200 * 1000000000"
    using new_session_ready(3) by auto
  have none: "map_of (w_pods new_world) (PodName ''sess-1'') = None"
    by (simp add: new_world_def example_world_def)
  have time: "in_time example_rc new_session"
    using e by (simp add: in_time_def c UnixTime_def whole_seconds_def Unix_def)
  have ready: "ready_session example_rc new_session"
    using e new_session_ready(1,2,4)
    by (auto simp: ready_session_def c CheckRuntimeClass_def zero_profile_def expired_def expiryTime_def
        After_def UnixTime_def)
  have g: "gw_Resolver cluster_gateway = Some (kube_Get (rc_Cluster example_rc) (rc_namespace example_rc))"
    "gw_Start cluster_gateway = Some (\<lambda>req w. (Inr req, w))" "gw_Upgrade cluster_gateway = (\<lambda>_ _ w. (True, w))"
    by (simp_all add: cluster_gateway_def)
  obtain w1 where w1: "Reconcile example_rc ''sess-1'' new_world = (None, w1)"
    and up: "up_once_running example_rc test_view (\<lambda>w. map_of (w_pods w)) cluster_gateway (\<lambda>req w. (Inr req, w))
      (example_request ''GET'' [] ''x'') ''sess-1'' new_session w1"
    using session_comes_up [OF rel v ready time none g] by blast
  have "test_view (pod_runs w1) = test_view w1"
    "map_of (w_pods (pod_runs w1)) (PodName ''sess-1'') = Some running_pod"
    by (simp_all add: pod_runs_def test_view_def fun_eq_iff)
  with up new_session_ready(5) obtain w3 s3 w4 where "Reconcile example_rc ''sess-1'' (pod_runs w1) = (None, w3)"
    "test_view w3 ''sess-1'' = Some s3" "st_Phase (s_Status s3) = PhaseRunning"
    "Serve cluster_gateway (example_request ''GET'' [] ''x'') (s_UserID new_session) ''sess-1'' w3 =
      (Started \<lparr>er_Namespace = m_Namespace (s_Meta new_session), er_PodName = PodName ''sess-1'',
        er_ContainerName = ContainerName, er_Command = DefaultCommand (sp_Tool (s_Spec new_session))\<rparr>, w3)"
    "Reconcile example_rc ''sess-1'' w3 = (None, w4)" "test_view w4 = test_view w3"
    unfolding up_once_running_def by (simp only: prod.case sum.case) (elim allE impE exE conjE, assumption+)
  with w1 show ?thesis by (intro exI conjI)
qed

end
