(* ===== verification/Cask_Ending.thy ===== *)
theory Cask_Ending
  imports Cask_Lifecycle Cask_Programs
begin

text \<open>
  The end of a session across the API server, the model proxy, the terminal gateway and the controller,
  on a cluster that deletes what it is asked to: what the owner's request to delete a session brings
  about, and what the expiry of a session does.
\<close>

subsection \<open>A cluster that deletes\<close>

text \<open>
  \<open>there\<close> gives the sessions of the namespace, those that are being deleted included, \<open>pods\<close> the Pods that
  are not being deleted. What is asked of a cluster, after the Kubernetes documentation of finalizers:
  a read gives what is there; deleting a session that has a finalizer only marks it with a time; one
  that is marked goes when its last finalizer does, and is then not found; and a Pod that is deleted is
  no longer among \<open>pods\<close>.
\<close>

definition marked :: "gtime \<Rightarrow> AgentSession \<Rightarrow> AgentSession" where
  "marked t s = s\<lparr>s_Meta := (s_Meta s)\<lparr>m_DeletionTimestamp := Some t\<rparr>\<rparr>"

definition deleting_cluster ::
    "'w cluster \<Rightarrow> string \<Rightarrow> ('w \<Rightarrow> string \<Rightarrow> AgentSession option) \<Rightarrow> ('w \<Rightarrow> string \<Rightarrow> Pod option) \<Rightarrow> bool" where
  "deleting_cluster K ns there pods \<longleftrightarrow>
     (\<forall>w n s. there w n = Some s \<longrightarrow>
        s_Name s = n \<and> (\<exists>u. k_Get K ns n w = (Inr u, w) \<and> FromUnstructured K (Some u) = Inr s)) \<and>
     (\<forall>w n s. there w n = Some s \<longrightarrow> m_Finalizers (s_Meta s) \<noteq> [] \<longrightarrow>
        (\<exists>t w'. k_Delete K ns n w = (None, w') \<and> there w' = (there w)(n \<mapsto> marked t s) \<and> pods w' = pods w)) \<and>
     (\<forall>w n s. there w n = Some s \<longrightarrow> m_DeletionTimestamp (s_Meta s) \<noteq> None \<longrightarrow>
        (\<exists>u e w'. k_Patch K ns n (finalizers_patch []) [] w = (Inr u, w') \<and>
           k_Get K ns n w' = (Inl e, w') \<and> IsNotFound e \<and>
           there w' = (there w)(n := None) \<and> pods w' = pods w)) \<and>
     (\<forall>w n. \<exists>r w'. k_PodDelete K ns n w = (r, w') \<and> pods w' = (pods w)(n := None) \<and> there w' = there w)"

lemma deleting_read:
  assumes "deleting_cluster K ns there pods" "there w n = Some s"
  shows "s_Name s = n" "kube_Get K ns n w = (Inr s, w)"
    "\<exists>u. k_Get K ns n w = (Inr u, w) \<and> FromUnstructured K (Some u) = Inr s"
  using assms unfolding deleting_cluster_def kube_Get_def by fastforce+

lemma deleting_mark:
  assumes "deleting_cluster K ns there pods" "there w n = Some s" "m_Finalizers (s_Meta s) \<noteq> []"
  shows "\<exists>t w'. k_Delete K ns n w = (None, w') \<and> there w' = (there w)(n \<mapsto> marked t s) \<and> pods w' = pods w"
  using assms unfolding deleting_cluster_def by blast

lemma deleting_release:
  assumes "deleting_cluster K ns there pods" "there w n = Some s" "m_DeletionTimestamp (s_Meta s) \<noteq> None"
  shows "\<exists>u e w'. k_Patch K ns n (finalizers_patch []) [] w = (Inr u, w') \<and>
    k_Get K ns n w' = (Inl e, w') \<and> IsNotFound e \<and> there w' = (there w)(n := None) \<and> pods w' = pods w"
  using assms unfolding deleting_cluster_def by blast

lemma deleting_pod:
  assumes "deleting_cluster K ns there pods"
  shows "\<exists>r w'. k_PodDelete K ns n w = (r, w') \<and> pods w' = (pods w)(n := None) \<and> there w' = there w"
  using assms unfolding deleting_cluster_def by blast

lemma deletePod_deletes:
  assumes "deleting_cluster (rc_Cluster r) (rc_namespace r) there pods"
  shows "\<exists>e w'. deletePod r n w = (e, w') \<and> pods w' = (pods w)(PodName n := None) \<and> there w' = there w"
proof -
  obtain e w' where "k_PodDelete (rc_Cluster r) (rc_namespace r) (PodName n) w = (e, w')"
    "pods w' = (pods w)(PodName n := None)" "there w' = there w"
    using deleting_pod [OF assms] by blast
  then show ?thesis by (cases e) (auto simp: deletePod_def)
qed

subsection \<open>Nobody serves a session that is being deleted\<close>

lemma marked_simps [simp]:
  "s_Name (marked t s) = s_Name s" "s_UserID (marked t s) = s_UserID s" "s_Spec (marked t s) = s_Spec s"
  "s_Status (marked t s) = s_Status s" "m_Finalizers (s_Meta (marked t s)) = m_Finalizers (s_Meta s)"
  "m_DeletionTimestamp (s_Meta (marked t s)) = Some t"
  by (simp_all add: marked_def)

lemma dead_session_rejected:
  assumes "kube_Get K ns n w = (Inr s, w)" "\<not> session_live s (px_Now p w)"
    and "px_Sessions p = Some (resolve_session K ns)"
  shows "fst (authenticate p q w) \<noteq> Some n"
proof
  assume "fst (authenticate p q w) = Some n"
  then obtain w' where "authenticate p q w = (Some n, w')" by (cases "authenticate p q w") auto
  from authenticate_SomeD [OF this] assms show False by (auto simp: resolve_session_def)
qed

lemma marked_not_live: "\<not> session_live (marked t s) now"
  by (simp add: session_live_def)

text \<open>What the watcher of a terminal reads of a session, and what it makes of it.\<close>

definition watcher_stops :: "'w cluster \<Rightarrow> string \<Rightarrow> string \<Rightarrow> 'w \<Rightarrow> bool" where
  "watcher_stops K ns n w = session_stopped (map_sum id Some (fst (kube_Get K ns n w)))"

lemma watcher_stops_read:
  "kube_Get K ns n w = (Inr s, w) \<Longrightarrow> watcher_stops K ns n w = session_stopped (Inr (Some s))"
  by (simp add: watcher_stops_def)

text \<open>The round of the controller in which it finds a session marked.\<close>

lemma reconcile_removes:
  assumes del: "deleting_cluster (rc_Cluster r) (rc_namespace r) there pods"
    and s: "there w n = Some s" "m_DeletionTimestamp (s_Meta s) \<noteq> None"
    and fin: "removeFinalizer (m_Finalizers (s_Meta s)) Finalizer = []"
  shows "\<exists>w' e. Reconcile r n w = (None, w') \<and> there w' = (there w)(n := None) \<and>
    pods w' = (pods w)(PodName n := None) \<and> k_Get (rc_Cluster r) (rc_namespace r) n w' = (Inl e, w') \<and> IsNotFound e"
proof -
  obtain u where u: "k_Get (rc_Cluster r) (rc_namespace r) n w = (Inr u, w)"
    "FromUnstructured (rc_Cluster r) (Some u) = Inr s"
    using deleting_read(3) [OF del s(1)] by blast
  have name: "s_Name s = n" using deleting_read(1) [OF del s(1)] .
  obtain x w1 where w1: "deletePod r n w = (x, w1)" "pods w1 = (pods w)(PodName n := None)" "there w1 = there w"
    using deletePod_deletes [OF del] by blast
  then have "there w1 n = Some s" using s(1) by simp
  from deleting_release [OF del this s(2)] obtain v e w2 where
    w2: "k_Patch (rc_Cluster r) (rc_namespace r) n (finalizers_patch []) [] w1 = (Inr v, w2)"
      "k_Get (rc_Cluster r) (rc_namespace r) n w2 = (Inl e, w2)" "IsNotFound e"
      "there w2 = (there w1)(n := None)" "pods w2 = pods w1"
    by blast
  have "Reconcile r n w = (None, w2)"
    using u s(2) fin w1(1) w2(1)
    by (simp add: Reconcile_def cleanup_def name rc_patch_finalizers_def PatchFinalizers_def patch_error_def)
  with w1 w2 show ?thesis by auto
qed

lemma reconcile_gone:
  assumes "k_Get (rc_Cluster r) (rc_namespace r) n w = (Inl e, w)" "IsNotFound e"
  shows "Reconcile r n w = (None, w)"
  using assms by (simp add: Reconcile_def)

subsection \<open>Deleting a session\<close>

lemma kube_store_ops: "so_Get (kube_store K ns) = kube_Get K ns" "so_Delete (kube_store K ns) = kube_Delete K ns"
  by (simp_all add: kube_store_def)

lemma kube_Get_gone: "k_Get K ns n w = (Inl e, w) \<Longrightarrow> kube_Get K ns n w = (Inl e, w)"
  by (simp add: kube_Get_def)

text \<open>
  Claim C10. A deletion takes effect, on a cluster that deletes what it is asked to: the owner of a session
  that the controller has claimed gets the answer 200 to a DELETE of it; from then on the model proxy does not
  accept a token for the session, and the watcher of a terminal closes it; the next round of the controller
  removes its Pod and the session, and nothing else, without an error; then the session is not found for its owner,
  and a further round for it does nothing.
\<close>

theorem deletion_takes_effect:
  assumes del: "deleting_cluster (rc_Cluster r) (rc_namespace r) there pods"
    and s: "there w n = Some s" "m_Finalizers (s_Meta s) = [Finalizer]"
    and sv: "sv_Store sv = Some (kube_store (rc_Cluster r) (rc_namespace r))"
    and px: "px_Sessions p = Some (resolve_session (rc_Cluster r) (rc_namespace r))"
    and n: "route_name n"
    and q: "rq_Method q = ''DELETE''" "rq_EscapedPath q = ''/api/v1/sessions/'' @ n" "rq_Path q = rq_EscapedPath q"
      "userFromRequest q = Some (s_UserID s)"
    and g: "rq_Method g = ''GET''" "rq_EscapedPath g = ''/api/v1/sessions/'' @ n" "rq_Path g = rq_EscapedPath g"
      "userFromRequest g = Some (s_UserID s)"
  shows "\<exists>w1 w2.
    Handler sv q w = (FieldsReply StatusOK [(''id'', JString n), (''deleted'', JBool True)], w1) \<and>
    fst (authenticate p c w1) \<noteq> Some n \<and> watcher_stops (rc_Cluster r) (rc_namespace r) n w1 \<and>
    Reconcile r n w1 = (None, w2) \<and>
    there w2 = (there w)(n := None) \<and> pods w2 = (pods w)(PodName n := None) \<and>
    Handler sv g w2 = (http_Error ''session not found'' StatusNotFound, w2) \<and> Reconcile r n w2 = (None, w2)"
proof -
  let ?K = "rc_Cluster r" and ?ns = "rc_namespace r"
  obtain t w1 where w1: "k_Delete ?K ?ns n w = (None, w1)" "there w1 = (there w)(n \<mapsto> marked t s)" "pods w1 = pods w"
    using deleting_mark [OF del s(1)] s(2) by auto
  have s1: "there w1 n = Some (marked t s)" using w1(2) by simp
  note read = deleting_read(2) [OF del s1]
  have "removeFinalizer [Finalizer] Finalizer = []" by (simp add: removeFinalizer_def)
  then obtain w2 e where w2: "Reconcile r n w1 = (None, w2)" "there w2 = (there w1)(n := None)"
    "pods w2 = (pods w1)(PodName n := None)" "k_Get ?K ?ns n w2 = (Inl e, w2)" "IsNotFound e"
    using reconcile_removes [OF del s1] s(2) by auto
  have "Handler sv q w = deleteSession sv q (s_UserID s) n w"
    by (rule session_path_routes(2) [OF n q(2,3,4,1)])
  then have reply: "Handler sv q w = (FieldsReply StatusOK [(''id'', JString n), (''deleted'', JBool True)], w1)"
    using deleting_read(2) [OF del s(1)] w1(1)
    by (simp add: deleteSession_def with_store_def sv kube_store_ops kube_Delete_def)
  have "Handler sv g w2 = getSession sv g (s_UserID s) n w2"
    by (rule session_path_routes(1) [OF n g(2,3,4,1)])
  then have gone: "Handler sv g w2 = (http_Error ''session not found'' StatusNotFound, w2)"
    by (simp add: getSession_def with_store_def sv kube_store_ops kube_Get_gone [OF w2(4)])
  have "fst (authenticate p c w1) \<noteq> Some n"
    by (rule dead_session_rejected [OF read marked_not_live px])
  moreover have "watcher_stops ?K ?ns n w1" by (simp add: watcher_stops_read [OF read] session_stopped_def)
  ultimately show ?thesis
    using reply w2 gone reconcile_gone [OF w2(4,5)] w1(2,3) by (intro exI [of _ w1] exI [of _ w2]) simp
qed

subsection \<open>The expiry of a session\<close>

text \<open>
  What the expiry of a session needs of a cluster. \<open>view\<close> gives the sessions that are not being
  deleted and \<open>pods\<close> the Pods that are not being deleted, of which nothing is said about reads: a Pod
  that ends gracefully may be read for as long as that takes. A read of a session gives what is
  there; a status patch replaces the status, read back as \<open>stored_status\<close> describes; a Pod that is deleted
  is no longer among \<open>pods\<close>, whatever the answer; and each changes nothing else.
\<close>

definition expiring_cluster ::
    "'w cluster \<Rightarrow> string \<Rightarrow> ('w \<Rightarrow> string \<Rightarrow> AgentSession option) \<Rightarrow> ('w \<Rightarrow> string \<Rightarrow> Pod option) \<Rightarrow> bool" where
  "expiring_cluster K ns view pods \<longleftrightarrow>
     (\<forall>w n s. view w n = Some s \<longrightarrow>
        s_Name s = n \<and> m_DeletionTimestamp (s_Meta s) = None \<and>
        (\<exists>u. k_Get K ns n w = (Inr u, w) \<and> FromUnstructured K (Some u) = Inr s)) \<and>
     (\<forall>w n s st. view w n = Some s \<longrightarrow> printable_status st \<longrightarrow>
        st_CreatedAt st \<noteq> None \<longrightarrow> st_ExpiresAt st \<noteq> None \<longrightarrow>
        (\<exists>u w'. k_Patch K ns n (status_patch st) [''status''] w = (Inr u, w') \<and>
           view w' = (view w)(n \<mapsto> s\<lparr>s_Status := stored_status st\<rparr>) \<and> pods w' = pods w)) \<and>
     (\<forall>w n. \<exists>r w'. k_PodDelete K ns n w = (r, w') \<and> pods w' = (pods w)(n := None) \<and> view w' = view w)"

lemma expiring_read:
  assumes "expiring_cluster K ns view pods" "view w n = Some s"
  shows "\<exists>u. k_Get K ns n w = (Inr u, w) \<and> FromUnstructured K (Some u) = Inr s"
    and "s_Name s = n" and "m_DeletionTimestamp (s_Meta s) = None"
  using assms unfolding expiring_cluster_def by blast+

lemma expiring_status:
  assumes "expiring_cluster K ns view pods" "view w n = Some s" "printable_status st"
    "st_CreatedAt st \<noteq> None" "st_ExpiresAt st \<noteq> None"
  shows "\<exists>u w'. k_Patch K ns n (status_patch st) [''status''] w = (Inr u, w') \<and>
    view w' = (view w)(n \<mapsto> s\<lparr>s_Status := stored_status st\<rparr>) \<and> pods w' = pods w"
  using assms unfolding expiring_cluster_def by blast

lemma expiring_pod:
  assumes "expiring_cluster K ns view pods"
  shows "\<exists>r w'. k_PodDelete K ns n w = (r, w') \<and> pods w' = (pods w)(n := None) \<and> view w' = view w"
  using assms unfolding expiring_cluster_def by blast

lemma reliable_expiring:
  assumes "reliable_cluster K ns view pods"
    and "\<And>w n. \<exists>r w'. k_PodDelete K ns n w = (r, w') \<and> pods w' = (pods w)(n := None) \<and> view w' = view w"
  shows "expiring_cluster K ns view pods"
  unfolding expiring_cluster_def
  using cluster_read [OF assms(1)] cluster_status [OF assms(1)] assms(2) by blast

text \<open>The round of the controller in which it finds the time of a session up.\<close>

lemma reconcile_expires:
  assumes rel: "expiring_cluster (rc_Cluster r) (rc_namespace r) view pods"
    and s: "view w n = Some s" "hasFinalizer (m_Finalizers (s_Meta s)) Finalizer" "printable_status (s_Status s)"
      "st_CreatedAt (s_Status s) \<noteq> None" "st_ExpiresAt (s_Status s) \<noteq> None"
    and up: "expired s (rc_now r w)"
  shows "\<exists>w1 st. Reconcile r n w = (None, w1) \<and> pods w1 = (pods w)(PodName n := None) \<and>
    view w1 = (view w)(n \<mapsto> s\<lparr>s_Status := stored_status st\<rparr>) \<and> st_Phase st = PhaseExpired"
proof -
  let ?K = "rc_Cluster r" and ?ns = "rc_namespace r"
  obtain x w1 where w1: "k_PodDelete ?K ?ns (PodName n) w = (x, w1)" "pods w1 = (pods w)(PodName n := None)" "view w1 = view w"
    using expiring_pod [OF rel] by blast
  define st where "st = (s_Status s)\<lparr>st_Phase := PhaseExpired, st_Reason := ReasonExpired,
    st_Message := ''session ttl expired'', st_TerminalReady := False\<rparr>"
  have st: "printable_status st" "st_CreatedAt st \<noteq> None" "st_ExpiresAt st \<noteq> None"
    using s(3-5) by (simp_all add: st_def printable_status_def)
  have v1: "view w1 n = Some s" using s(1) w1(3) by simp
  obtain v w2 where w2: "k_Patch ?K ?ns n (status_patch st) [''status''] w1 = (Inr v, w2)"
    "view w2 = (view w1)(n \<mapsto> s\<lparr>s_Status := stored_status st\<rparr>)" "pods w2 = pods w1"
    using expiring_status [OF rel v1 st] by blast
  obtain u where u: "k_Get ?K ?ns n w = (Inr u, w)" "FromUnstructured ?K (Some u) = Inr s"
    using expiring_read(1) [OF rel s(1)] by blast
  have "\<exists>y. deletePod r n w = (y, w1)" using w1(1) by (cases x) (auto simp: deletePod_def)
  then have "expire_session r s w = (None, w2)"
    using w2(1) ensureStatusTimes_id [OF st(2,3)] expiring_read(2) [OF rel s(1)]
    by (auto simp: expire_session_def st_def [symmetric] Let_def rc_patch_status_def PatchStatus_def patch_error_def)
  then have "Reconcile r n w = (None, w2)"
    using u s(2) up expiring_read(3) [OF rel s(1)] by (simp add: Reconcile_def)
  then show ?thesis using w1(2,3) w2(2,3) by (intro exI [of _ w2] exI [of _ st]) (simp add: st_def)
qed

text \<open>
  Claim C11. An expiry takes effect, on a cluster whose sessions are read and patched as asked
  and whose Pods, once deleted, are on their way out. Take a session that is not being deleted, that the
  controller has claimed with its finalizer, and whose status records its creation and its expiry. Once its
  recorded expiry is past, the model proxy accepts no token for it; the next round of the controller deletes
  its Pod and makes it Expired, and nothing else; after that the proxy still rejects it, whatever its
  clock then says, the terminal gateway refuses its owner and the watcher closes a terminal that is open.
\<close>

theorem expiry_takes_effect:
  assumes rel: "expiring_cluster (rc_Cluster r) (rc_namespace r) view pods"
    and s: "view w n = Some s" "hasFinalizer (m_Finalizers (s_Meta s)) Finalizer" "printable_status (s_Status s)"
      "st_CreatedAt (s_Status s) \<noteq> None" "st_ExpiresAt (s_Status s) \<noteq> None"
    and up: "expired s (rc_now r w)"
    and px: "px_Sessions p = Some (resolve_session (rc_Cluster r) (rc_namespace r))" "px_Now p w = rc_now r w"
    and g: "gw_Resolver g = Some (kube_Get (rc_Cluster r) (rc_namespace r))" "gw_Start g = Some start"
  shows "fst (authenticate p c w) \<noteq> Some n \<and>
    (\<exists>w1 s1. Reconcile r n w = (None, w1) \<and> pods w1 = (pods w)(PodName n := None) \<and>
      view w1 = (view w)(n \<mapsto> s1) \<and> s_Spec s1 = s_Spec s \<and> st_Phase (s_Status s1) = PhaseExpired \<and>
      fst (authenticate p c w1) \<noteq> Some n \<and> watcher_stops (rc_Cluster r) (rc_namespace r) n w1 \<and>
      Serve g q (s_UserID s) n w1 = (Refused (http_Error ''session not ready'' StatusConflict), w1))"
proof
  let ?K = "rc_Cluster r" and ?ns = "rc_namespace r"
  have get: "kube_Get ?K ?ns n x = (Inr t, x)" if "view x n = Some t" for x t
    using expiring_read(1) [OF rel that] by (auto simp: kube_Get_def)
  obtain e where e: "st_ExpiresAt (s_Status s) = Some e" using s(5) by auto
  have "\<not> session_live s (px_Now p w)"
    using up e by (simp add: session_live_def px(2) expired_def expiryTime_def After_def Before_def)
  then show "fst (authenticate p c w) \<noteq> Some n" by (rule dead_session_rejected [OF get [OF s(1)] _ px(1)])
  obtain w1 st where w1: "Reconcile r n w = (None, w1)" "pods w1 = (pods w)(PodName n := None)"
    "view w1 = (view w)(n \<mapsto> s\<lparr>s_Status := stored_status st\<rparr>)" "st_Phase st = PhaseExpired"
    using reconcile_expires [OF rel s up] by blast
  let ?s = "s\<lparr>s_Status := stored_status st\<rparr>"
  have s1: "view w1 n = Some ?s" using w1(3) by simp
  have phase: "st_Phase (s_Status ?s) = PhaseExpired" using w1(4) by (simp add: stored_status_def)
  then have "\<not> session_live ?s (px_Now p w1)" by (simp add: session_live_def)
  then have "fst (authenticate p c w1) \<noteq> Some n" by (rule dead_session_rejected [OF get [OF s1] _ px(1)])
  moreover have "watcher_stops ?K ?ns n w1"
    using phase by (simp add: watcher_stops_read [OF get [OF s1]] session_stopped_def)
  moreover have "Serve g q (s_UserID s) n w1 = (Refused (http_Error ''session not ready'' StatusConflict), w1)"
    using get [OF s1] phase by (simp add: Serve_def g) (simp add: cask_defs)
  ultimately show "\<exists>w1 s1. Reconcile r n w = (None, w1) \<and> pods w1 = (pods w)(PodName n := None) \<and>
      view w1 = (view w)(n \<mapsto> s1) \<and> s_Spec s1 = s_Spec s \<and> st_Phase (s_Status s1) = PhaseExpired \<and>
      fst (authenticate p c w1) \<noteq> Some n \<and> watcher_stops ?K ?ns n w1 \<and>
      Serve g q (s_UserID s) n w1 = (Refused (http_Error ''session not ready'' StatusConflict), w1)"
    using w1(1-3) phase by (intro exI [of _ w1] exI [of _ ?s]) simp
qed

subsection \<open>The in-memory cluster is such a cluster\<close>

text \<open>Its sessions, as long as its clock gives a time that can be written.\<close>

definition test_there :: "world \<Rightarrow> string \<Rightarrow> AgentSession option" where
  "test_there w n =
     (if printable_time (UTC (w_now w)) then
        (case map_of (w_objects w) n of
           None \<Rightarrow> None
         | Some u \<Rightarrow>
             (case FromUnstructured test_cluster (Some u) of
                Inl _ \<Rightarrow> None
              | Inr s \<Rightarrow> if s_Name s = n then Some s else None))
      else None)"

lemma test_thereE:
  assumes "test_there w n = Some s"
  obtains u where "map_of (w_objects w) n = Some u" "FromUnstructured test_cluster (Some u) = Inr s"
    "s_Name s = n" "printable_time (UTC (w_now w))"
  using assms by (auto simp: test_there_def split: option.splits sum.splits if_splits)

lemma test_there_update:
  assumes "FromUnstructured test_cluster (Some u) = Inr s" "s_Name s = n" "printable_time (UTC (w_now w))"
  shows "test_there (w\<lparr>w_objects := AList.update n u (w_objects w)\<rparr>) = (test_there w)(n \<mapsto> s)"
  using assms by (auto simp: test_there_def update_conv fun_eq_iff)

lemma test_there_delete:
  "test_there (w\<lparr>w_objects := AList.delete n (AList.update n u (w_objects w))\<rparr>) = (test_there w)(n := None)"
  by (auto simp: test_there_def update_conv delete_conv fun_eq_iff)

lemma test_marked:
  assumes u: "FromUnstructured test_cluster (Some u) = Inr s" and x: "parseTimePtr x = Some t"
  shows "FromUnstructured test_cluster (Some (t_set ''deletionTimestamp'' (JString x) u)) = Inr (marked t s)"
proof -
  let ?u = "t_set ''deletionTimestamp'' (JString x) u"
  have "t_NestedMap ?u ''spec'' = t_NestedMap u ''spec''" "t_NestedMap ?u ''status'' = t_NestedMap u ''status''"
    by (simp_all add: t_NestedMap_def t_set_def jset_def update_conv)
  moreover have "jget (metadata ?u) k = jget (metadata u) k" if "k \<noteq> ''deletionTimestamp''" for k
    using that by (simp add: jset_def jget_def update_conv)
  then have "k_Name test_cluster ?u = k_Name test_cluster u" "k_Namespace test_cluster ?u = k_Namespace test_cluster u"
    "k_UID test_cluster ?u = k_UID test_cluster u" "k_Labels test_cluster ?u = k_Labels test_cluster u"
    "k_Finalizers test_cluster ?u = k_Finalizers test_cluster u"
    "k_CreationTimestamp test_cluster ?u = k_CreationTimestamp test_cluster u"
    by (simp_all add: test_cluster_def)
  moreover have "k_DeletionTimestamp test_cluster ?u = Some t"
    using x by (simp add: test_cluster_def jset_def jget_def update_conv)
  ultimately show ?thesis
    using u by (auto simp: FromUnstructured_def Let_def test_NestedMap marked_def split: sum.splits option.splits)
qed

lemma test_fields:
  assumes "FromUnstructured test_cluster (Some u) = Inr s"
  shows "t_strings (jget (metadata u) ''finalizers'') = m_Finalizers (s_Meta s)"
    "m_DeletionTimestamp (s_Meta s) \<noteq> None \<Longrightarrow> jget (metadata u) ''deletionTimestamp'' \<noteq> JNull"
  using assms
  by (auto simp: FromUnstructured_def Let_def test_cluster_def parseTimePtr_def split: sum.splits option.splits)

lemma test_mark:
  assumes "test_there w n = Some s" "m_Finalizers (s_Meta s) \<noteq> []"
  shows "\<exists>t w'. k_Delete test_cluster ns n w = (None, w') \<and> test_there w' = (test_there w)(n \<mapsto> marked t s) \<and>
    w_pods w' = w_pods w"
proof -
  obtain u where u: "map_of (w_objects w) n = Some u" "FromUnstructured test_cluster (Some u) = Inr s"
    "s_Name s = n" "printable_time (UTC (w_now w))"
    using assms(1) by (rule test_thereE)
  let ?x = "FormatRFC3339 (UTC (w_now w))"
  let ?u = "t_set ''deletionTimestamp'' (JString ?x) u" and ?t = "whole_seconds (UTC (w_now w))"
  let ?w = "w\<lparr>w_objects := AList.update n ?u (w_objects w)\<rparr>"
  have "t_strings (jget (metadata ?u) ''finalizers'') \<noteq> []"
    using assms(2) test_fields(1) [OF u(2)] by (simp add: jset_def jget_def update_conv)
  then have "k_Delete test_cluster ns n w = (None, ?w)"
    using u(1) by (simp add: test_cluster_def t_Delete_def t_remove_if_done_def update_conv)
  moreover have "test_there ?w = (test_there w)(n \<mapsto> marked ?t s)"
    using test_marked [OF u(2) parseTimePtr_Format [OF u(4)]] u(3,4) by (intro test_there_update) simp_all
  ultimately show ?thesis by (intro exI [of _ ?t] exI [of _ ?w]) simp
qed

lemma test_release:
  assumes "test_there w n = Some s" "m_DeletionTimestamp (s_Meta s) \<noteq> None"
  shows "\<exists>u e w'. k_Patch test_cluster ns n (finalizers_patch []) [] w = (Inr u, w') \<and>
    k_Get test_cluster ns n w' = (Inl e, w') \<and> IsNotFound e \<and> test_there w' = (test_there w)(n := None) \<and>
    w_pods w' = w_pods w"
proof -
  obtain u where u: "map_of (w_objects w) n = Some u" "FromUnstructured test_cluster (Some u) = Inr s"
    using assms(1) by (rule test_thereE)
  let ?u = "merge_fields u (finalizers_patch [])"
  let ?w = "w\<lparr>w_objects := AList.delete n (AList.update n ?u (w_objects w))\<rparr>"
  have "jget (metadata ?u) ''deletionTimestamp'' \<noteq> JNull"
    using test_finalizers(2) [OF u(2), of "[]"] test_fields(2) [OF u(2) assms(2)] by simp
  moreover have "t_strings (jget (metadata ?u) ''finalizers'') = []"
    using test_fields(1) [OF test_finalizers(1) [OF u(2), of "[]"]] by simp
  ultimately have "k_Patch test_cluster ns n (finalizers_patch []) [] w = (Inr ?u, ?w)"
    using u(1) by (simp add: test_cluster_def t_Patch_def t_remove_if_done_def update_conv)
  moreover have "k_Get test_cluster ns n ?w = (Inl t_missing, ?w)" "IsNotFound t_missing"
    by (simp_all add: test_cluster_def t_missing_def delete_conv)
  ultimately show ?thesis
    using test_there_delete by (intro exI [of _ ?u] exI [of _ t_missing] exI [of _ ?w]) simp
qed

lemma test_pod_deleted:
  "\<exists>r w'. k_PodDelete test_cluster ns n w = (r, w') \<and> map_of (w_pods w') = (map_of (w_pods w))(n := None) \<and>
    test_there w' = test_there w \<and> test_view w' = test_view w"
  by (simp add: test_cluster_def delete_conv' test_there_def test_view_def fun_eq_iff)

lemma test_cluster_deletes: "deleting_cluster test_cluster ns test_there (\<lambda>w. map_of (w_pods w))"
proof -
  have "s_Name s = n \<and> (\<exists>u. k_Get test_cluster ns n w = (Inr u, w) \<and> FromUnstructured test_cluster (Some u) = Inr s)"
    if v: "test_there w n = Some s" for w n s
    using v by (auto elim!: test_thereE simp: test_cluster_def)
  moreover have "\<exists>t w'. k_Delete test_cluster ns n w = (None, w') \<and> test_there w' = (test_there w)(n \<mapsto> marked t s) \<and>
      map_of (w_pods w') = map_of (w_pods w)"
    if "test_there w n = Some s" "m_Finalizers (s_Meta s) \<noteq> []" for w n s
    using test_mark [OF that, of ns] by (elim exE conjE) (intro exI conjI, assumption+, simp)
  moreover have "\<exists>u e w'. k_Patch test_cluster ns n (finalizers_patch []) [] w = (Inr u, w') \<and>
      k_Get test_cluster ns n w' = (Inl e, w') \<and> IsNotFound e \<and> test_there w' = (test_there w)(n := None) \<and>
      map_of (w_pods w') = map_of (w_pods w)"
    if "test_there w n = Some s" "m_DeletionTimestamp (s_Meta s) \<noteq> None" for w n s
    using test_release [OF that, of ns] by (elim exE conjE) (intro exI conjI, assumption+, simp)
  moreover have "\<exists>r w'. k_PodDelete test_cluster ns n w = (r, w') \<and>
      map_of (w_pods w') = (map_of (w_pods w))(n := None) \<and> test_there w' = test_there w" for w n
    using test_pod_deleted [of ns n w] by blast
  ultimately show ?thesis unfolding deleting_cluster_def by (intro conjI allI impI) blast+
qed

subsection \<open>Concrete endings\<close>

text \<open>A session that the controller has claimed, with its Pod, an API server, a proxy and a gateway.\<close>

definition ending_world :: world where
  "ending_world = claimed_world\<lparr>w_pods := [(PodName ''sess-1'', running_pod)]\<rparr>"

definition ending_session :: AgentSession where
  "ending_session = (case test_there ending_world ''sess-1'' of Some s \<Rightarrow> s | None \<Rightarrow> example_session)"

definition ending_server :: "world server" where
  "ending_server = kube_server\<lparr>sv_Store := Some (kube_store (rc_Cluster example_rc) (rc_namespace example_rc))\<rparr>"

definition ending_proxy :: "gtime \<Rightarrow> world proxy" where
  "ending_proxy now =
     \<lparr>px_Mac = (\<lambda>k s. s), px_Tokens = \<lparr>tm_Secret = ''s'', tm_TTL = 0\<rparr>,
      px_Sessions = Some (resolve_session (rc_Cluster example_rc) (rc_namespace example_rc)),
      px_UpstreamURL = [], px_UpstreamKey = [], px_Now = (\<lambda>_. now),
      px_Do = (\<lambda>_ w. (Inl (OtherError []), w)), px_ReadBody = (\<lambda>_. None)\<rparr>"

definition ending_request :: "string \<Rightarrow> request" where
  "ending_request method = example_request method ''/api/v1/sessions/sess-1'' ''user:dev-user''"

definition ending_call :: request where
  "ending_call = example_request ''POST'' []
     (GenerateUntil (\<lambda>k s. s) \<lparr>tm_Secret = ''s'', tm_TTL = 0\<rparr> ''sess-1'' (UnixTime 1900000000))"

lemma ending_session_fields:
  "case test_there ending_world ''sess-1'' of None \<Rightarrow> False | Some s \<Rightarrow>
     m_Finalizers (s_Meta s) = [Finalizer] \<and> s_UserID s = ''dev-user'' \<and> printable_status (s_Status s) \<and>
     st_CreatedAt (s_Status s) \<noteq> None \<and> st_ExpiresAt (s_Status s) \<noteq> None \<and> expired s (UnixTime 1800000000) \<and>
     session_live s (UnixTime 1700000100)"
  by code_simp

lemma ending_users: "userFromRequest (ending_request ''GET'') = Some ''dev-user''"
  "userFromRequest (ending_request ''DELETE'') = Some ''dev-user''"
  by code_simp+

lemma ending_name: "route_name ''sess-1''"
  by code_simp

lemma ending_session_unmarked:
  "case map_of (w_objects ending_world) ''sess-1'' of None \<Rightarrow> False
   | Some u \<Rightarrow> jget (metadata u) ''deletionTimestamp'' = JNull"
  by code_simp

lemma ending_session_there:
  "test_there ending_world ''sess-1'' = Some ending_session" "m_Finalizers (s_Meta ending_session) = [Finalizer]"
  "s_UserID ending_session = ''dev-user''"
  using ending_session_fields by (auto simp: ending_session_def split: option.splits)

lemma ending_read: "kube_Get test_cluster ns ''sess-1'' ending_world = (Inr ending_session, ending_world)"
proof (rule deleting_read(2))
  show "deleting_cluster test_cluster ns test_there (\<lambda>w. map_of (w_pods w))" by (rule test_cluster_deletes)
  show "test_there ending_world ''sess-1'' = Some ending_session" by (rule ending_session_there(1))
qed

lemma ending_accepted:
  "fst (authenticate (ending_proxy (UnixTime 1700000100)) ending_call ending_world) = Some ''sess-1''"
proof -
  define m where "m = \<lparr>tm_Secret = ''s'', tm_TTL = 0\<rparr>"
  define now where "now = UnixTime 1700000100"
  define token where "token = GenerateUntil (\<lambda>k s. s) m ''sess-1'' (UnixTime 1900000000)"
  have header: "hdr_Get (rq_Header ending_call) ''Authorization'' = ''Bearer '' @ token"
    by (simp add: ending_call_def example_request_def hdr_Get_def hdr_values_def canonical_names token_def m_def)
  have trim: "HasPrefix (''Bearer '' @ token) ''Bearer ''" "TrimPrefix (''Bearer '' @ token) ''Bearer '' = token"
    by (rule HasPrefix_append, rule TrimPrefix_append)
  have valid: "ValidateWithExpiry (\<lambda>k s. s) m now token = (''sess-1'', UnixTime 1900000000, True)"
    using GenerateUntil_validates [of "''sess-1''" "UnixTime 1900000000" m m "\<lambda>k s. s" now]
    by (simp add: token_def now_def UnixTime_def Unix_def)
  have get: "resolve_session test_cluster (rc_namespace example_rc) ''sess-1'' ending_world =
      (Inr (Some ending_session), ending_world)"
    by (simp add: resolve_session_def ending_read)
  have live: "session_live ending_session now"
    using ending_session_fields ending_session_there(1) by (simp add: now_def)
  have "rc_Cluster example_rc = test_cluster" by (simp add: example_rc_def)
  then have p: "px_Mac (ending_proxy now) = (\<lambda>k s. s)" "px_Tokens (ending_proxy now) = m"
    "px_Now (ending_proxy now) w = now"
    "px_Sessions (ending_proxy now) = Some (resolve_session test_cluster (rc_namespace example_rc))" for w
    by (simp_all add: ending_proxy_def m_def)
  show ?thesis
    unfolding authenticate_def Let_def now_def [symmetric] p header trim(2) valid
    using trim(1) by (simp only: prod.case option.case get sum.case live if_True simp_thms if_False fst_conv not_True_eq_False)
qed

text \<open>The proxy accepted the token before, and the session had its Pod.\<close>

theorem deletion_takes_effect_witness:
  "fst (authenticate (ending_proxy (UnixTime 1700000100)) ending_call ending_world) = Some ''sess-1'' \<and>
   (\<exists>w1 w2.
     Handler ending_server (ending_request ''DELETE'') ending_world =
       (FieldsReply StatusOK [(''id'', JString ''sess-1''), (''deleted'', JBool True)], w1) \<and>
     fst (authenticate (ending_proxy (UnixTime 1700000100)) ending_call w1) \<noteq> Some ''sess-1'' \<and>
     Reconcile example_rc ''sess-1'' w1 = (None, w2) \<and> w_pods w2 = [] \<and>
     Handler ending_server (ending_request ''GET'') w2 =
       (http_Error ''session not found'' StatusNotFound, w2))"
proof -
  have c: "rc_Cluster example_rc = test_cluster" by (simp add: example_rc_def)
  have del: "deleting_cluster (rc_Cluster example_rc) (rc_namespace example_rc) test_there (\<lambda>w. map_of (w_pods w))"
    unfolding c by (rule test_cluster_deletes)
  have sv: "sv_Store ending_server = Some (kube_store (rc_Cluster example_rc) (rc_namespace example_rc))"
    by (simp add: ending_server_def)
  have px: "px_Sessions (ending_proxy now) = Some (resolve_session (rc_Cluster example_rc) (rc_namespace example_rc))" for now
    by (simp add: ending_proxy_def)
  have q: "rq_Method (ending_request m) = m" "rq_EscapedPath (ending_request m) = ''/api/v1/sessions/'' @ ''sess-1''"
    "rq_Path (ending_request m) = rq_EscapedPath (ending_request m)" for m
    by (simp_all add: ending_request_def example_request_def)
  have u: "userFromRequest (ending_request ''GET'') = Some (s_UserID ending_session)"
    "userFromRequest (ending_request ''DELETE'') = Some (s_UserID ending_session)"
    using ending_users ending_session_there(3) by simp_all
  from deletion_takes_effect [OF del ending_session_there(1,2) sv px ending_name q u(2) q u(1)]
  obtain w1 w2 where w: "Handler ending_server (ending_request ''DELETE'') ending_world =
      (FieldsReply StatusOK [(''id'', JString ''sess-1''), (''deleted'', JBool True)], w1)"
    "fst (authenticate (ending_proxy (UnixTime 1700000100)) ending_call w1) \<noteq> Some ''sess-1''"
    "Reconcile example_rc ''sess-1'' w1 = (None, w2)"
    "map_of (w_pods w2) = (map_of (w_pods ending_world))(PodName ''sess-1'' := None)"
    "Handler ending_server (ending_request ''GET'') w2 = (http_Error ''session not found'' StatusNotFound, w2)"
    by blast
  from w(4) have "map_of (w_pods w2) = Map.empty" by (simp add: ending_world_def fun_eq_iff)
  then have "w_pods w2 = []" by simp
  with w ending_accepted show ?thesis by blast
qed

theorem expiry_takes_effect_witness:
  "\<exists>w1 s1. Reconcile late_rc ''sess-1'' ending_world = (None, w1) \<and> w_pods w1 = [] \<and>
     test_view w1 ''sess-1'' = Some s1 \<and> st_Phase (s_Status s1) = PhaseExpired \<and>
     fst (authenticate (ending_proxy (UnixTime 1800000000)) ending_call w1) \<noteq> Some ''sess-1'' \<and>
     watcher_stops (rc_Cluster late_rc) (rc_namespace late_rc) ''sess-1'' w1"
proof -
  have c: "rc_Cluster late_rc = test_cluster" "rc_now late_rc w = UnixTime 1800000000"
    "rc_namespace late_rc = rc_namespace example_rc" "rc_Cluster late_rc = rc_Cluster example_rc" for w
    by (simp_all add: late_rc_def example_rc_def rc_now_def rc_namespace_def rc_config_def)
  have rel: "expiring_cluster (rc_Cluster late_rc) (rc_namespace late_rc) test_view (\<lambda>w. map_of (w_pods w))"
    unfolding c(1) by (rule reliable_expiring [OF test_cluster_reliable]) (use test_pod_deleted in blast)
  have v: "test_view ending_world ''sess-1'' = Some ending_session"
    using ending_session_there(1) ending_session_unmarked
    by (auto simp: test_view_def elim!: test_thereE)
  have s: "hasFinalizer (m_Finalizers (s_Meta ending_session)) Finalizer" "printable_status (s_Status ending_session)"
    "st_CreatedAt (s_Status ending_session) \<noteq> None" "st_ExpiresAt (s_Status ending_session) \<noteq> None"
    "expired ending_session (rc_now late_rc ending_world)"
    using ending_session_fields ending_session_there(1) by (simp_all add: hasFinalizer_def c(2))
  have px: "px_Sessions (ending_proxy now) = Some (resolve_session (rc_Cluster late_rc) (rc_namespace late_rc))"
    "px_Now (ending_proxy (UnixTime 1800000000)) ending_world = rc_now late_rc ending_world" for now
    by (simp_all add: ending_proxy_def c(2-4))
  have g: "gw_Resolver cluster_gateway = Some (kube_Get (rc_Cluster late_rc) (rc_namespace late_rc))"
    "gw_Start cluster_gateway = Some (\<lambda>req w. (Inr req, w))"
    by (simp_all add: cluster_gateway_def c(3,4))
  from expiry_takes_effect [OF rel v s px g, of ending_call]
  obtain w1 s1 where w: "Reconcile late_rc ''sess-1'' ending_world = (None, w1)"
    "map_of (w_pods w1) = (map_of (w_pods ending_world))(PodName ''sess-1'' := None)"
    "test_view w1 = (test_view ending_world)(''sess-1'' \<mapsto> s1)" "st_Phase (s_Status s1) = PhaseExpired"
    "fst (authenticate (ending_proxy (UnixTime 1800000000)) ending_call w1) \<noteq> Some ''sess-1''"
    "watcher_stops (rc_Cluster late_rc) (rc_namespace late_rc) ''sess-1'' w1"
    by blast
  from w(2) have "map_of (w_pods w1) = Map.empty" by (simp add: ending_world_def fun_eq_iff)
  then have "w_pods w1 = []" by simp
  with w show ?thesis by (intro exI [of _ w1] exI [of _ s1]) simp
qed

end
