(* ===== verification/Spec2Isabelle.thy ===== *)
theory Spec2Isabelle
  imports Cask_Serve Cask_Ending
begin

text \<open>
  A model of Agent Cask, a Kubernetes control plane for agent sessions, with the properties
  that make its components correct.

  \<^bold>\<open>The program.\<close> A user creates a session with \<open>caskctl\<close> or the HTTP API. The API server stores
  it as an \<open>AgentSession\<close> object; the controller polls these objects, gives each session a Pod
  with a signed session token, reports the Pod in the status and ends the session when its time is
  up or it is deleted; the terminal gateway of the API server connects the owner to the Pod; and
  the model proxy lets the Pod reach a model with the session token in place of the provider's
  key. The components share nothing but the objects in the cluster and the secret of the tokens.

  \<^bold>\<open>How it is modelled.\<close> A struct is a record, an enumeration or sum a datatype, an \<open>int64\<close> a 64-bit word, a
  string the list of its bytes, a map an association list whose order is the order of a
  \<open>range\<close> loop. Stateful code takes the world it acts on and returns it; an error is a value
  of \<open>kerr + 'a\<close>. Code that is not in the repository is a parameter: the cluster
  (\<open>'w cluster\<close>), the HTTP transport, the keyed hash of the tokens, the JSON text format,
  the clock, the source of random bytes, the upgrade to a WebSocket.

  \<^bold>\<open>The theories\<close>, in the order they build on each other.

  \<^item> \<open>Cask_Prelude\<close>, \<open>Cask_Strings\<close>, \<open>Cask_Encode\<close>, \<open>Cask_Time\<close>, \<open>Cask_Http\<close>, \<open>Cask_Json\<close>,
    \<open>Cask_Url\<close>, \<open>Cask_UrlValue\<close>, \<open>Cask_Flags\<close>, \<open>Cask_Table\<close>: what the program uses of Go's standard library (\<open>strings\<close>, \<open>strconv\<close>,
    \<open>encoding/hex\<close> and \<open>base64\<close>, \<open>time\<close>, \<open>net/http\<close> headers, values of type \<open>any\<close> and the decoding of
    structs, \<open>net/url\<close>, \<open>path\<close>, \<open>flag\<close>, \<open>text/tabwriter\<close>), with the round trips the proofs need.
  \<^item> \<open>Cask_Types\<close>: \<open>api/v1alpha1/types.go\<close>, the resource and the validation of its specification.
  \<^item> \<open>Cask_Redact\<close>: \<open>internal/redact/redact.go\<close>. The two regular expressions are written as
    functions; the lemmas show that no credential of their form is left, and that the value of a
    credential variable is the marker and nothing else.
  \<^item> \<open>Cask_Cluster\<close>, \<open>Cask_TestCluster\<close>: the interface to Kubernetes as a record of operations that may
    fail and change the world in any way, its recording version, and a small concrete cluster on which
    witnesses are evaluated.
  \<^item> \<open>Cask_Isolation\<close>: \<open>internal/isolation/isolation.go\<close>.
  \<^item> \<open>Cask_Kube\<close>, \<open>Cask_Store\<close>: \<open>internal/kube/client.go\<close> and \<open>internal/api/memory_store.go\<close>. The store
    interface of the API is the locale \<open>session_store\<close>, extended to \<open>reliable_store\<close>; the
    Kubernetes store interprets the first over any cluster, the in-memory store both.
  \<^item> \<open>Cask_Token\<close>, \<open>Cask_Proxy\<close>: \<open>internal/modelproxy/token.go\<close> and \<open>proxy.go\<close>.
  \<^item> \<open>Cask_Api\<close>: \<open>internal/api/server.go\<close>, its handlers and routes. Isolation between users and the
    life cycle of a session are proved in the store locales.
  \<^item> \<open>Cask_Controller\<close>: \<open>internal/controller/controller.go\<close>. The calls a reconciliation makes are
    compared with the inductive relation \<open>reconcile_script\<close>, the protocol it implements, which names the
    world each call is made in, the clock reading that decides on expiry and the Pod that is read. The
    environment of a Pod and the status that is written are spelled out variable by variable and
    field by field.
  \<^item> \<open>Cask_Terminal\<close>, \<open>Cask_Streams\<close>, \<open>Cask_Gateway\<close>: \<open>internal/terminal/gateway.go\<close> and \<open>kubernetes.go\<close>.
    The first has admission, commands and control messages; the second the interface
    \<open>ExecStream\<close> as the locale \<open>exec_stream\<close> with its two implementations; the third the session
    loop as a step relation in which the handler, the output goroutine, the watcher and the
    backend interleave freely, with its invariant, its refinement of two ordered
    links (queues that keep every message sent and every chunk put out until it is taken in order, and may
    lose them only once the link is shut) and the bound on the steps of a session that stops, proved in the
    locale \<open>terminal_session\<close>, which both streams interpret, and its extension \<open>linked_session\<close>.
    The copying of the output goes on after a cancelled exec call has returned, so a late
    write meets a closed channel and panics (\<open>late_output_panics\<close>).
  \<^item> \<open>Cask_Client\<close>, \<open>Cask_Cli\<close>: \<open>internal/cli/config.go\<close>, \<open>client.go\<close> and \<open>run.go\<close>: the
    configuration, the calls, the commands with their tables and the local terminal, the URL of a terminal connection.
  \<^item> \<open>Cask_Programs\<close>, \<open>Cask_Serve\<close>: the four programs under \<open>cmd/\<close>; the first has what each makes of its environment
    and arguments, what two users can learn from each other at the API server it builds without a cluster, and
    who may open a terminal; the second how the servers listen, shut down and exit, and how the
    controller runs its rounds, as transition systems of their goroutines, connections and signals. That
    the network makes listening fail is a step of the network and not of the program.
  \<^item> \<open>Cask_Lifecycle\<close>: the controller and the gateway on a cluster that does what it is asked
    (\<open>reliable_cluster\<close>): a new session comes up and stays up; the concrete cluster is such a one.
  \<^item> \<open>Cask_Ending\<close>: the same for the end of a session (\<open>deleting_cluster\<close>, \<open>expiring_cluster\<close>; neither
    says that a deleted Pod is gone at once): what a deletion and an expiry bring about
    in the API server, the model proxy, the gateway and the controller.
  \<^item> This theory: properties that span the controller and the model proxy, and the command line, the
    API and the store.

  \<^bold>\<open>Machine integers and text.\<close> A duration is a 64-bit word; a time is its distance from the epoch in nanoseconds and
  unbounded, as a \<open>time.Time\<close> holds its seconds apart, but the seconds that \<open>time.Unix\<close> is given
  wrap as they do there. JSON numbers pass through \<open>float64\<close>, and JSON strings with bytes that are not
  UTF-8 come out with the replacement character. \<open>ParseRFC3339\<close> is \<open>time.Parse\<close> for that layout, with what it lets pass:
  hours of one digit, a comma before the fraction, any offset that fits its ranges.

  \<^bold>\<open>Bounds.\<close> Loops are structural recursion or have a measure; nothing runs on fuel. The control loop of
  the controller is the function \<open>Run\<close> on what others do between its rounds, and in \<open>Cask_Serve\<close> a transition system
  that may run for ever, whose runs are those of \<open>Run\<close>. So may a terminal session and a server; once they are told
  to stop, ten steps of the handler and the output goroutine, and six of the server, are enough, and the
  controller takes at most six and two for each further tick.

  \<^bold>\<open>Not modelled.\<close> The texts of the errors of \<open>flag\<close>, \<open>net/url\<close> and \<open>encoding/json\<close>; timeouts and read
  deadlines other than as a wait or a read that ends at some moment; the mutex of the in-memory store and of the
  connection, whose operations are single steps; partial writes, but for the table of sessions; the test fixture
  \<open>FakeRuntimeClass\<close>.
\<close>

section \<open>Properties that span components\<close>

subsection \<open>From the controller to the model proxy\<close>

definition pod_token :: "Pod \<Rightarrow> string option" where
  "pod_token pod =
     map_of (concat (map (\<lambda>c. map (\<lambda>e. (ev_Name e, ev_Value e)) (c_Env c)) (ps_Containers (pod_Spec pod))))
       ''CASK_SESSION_TOKEN''"

lemma pod_token_BuildPod:
  "pod_token (BuildPod mac s cfg profile clock) =
     Some (GenerateUntil mac \<lparr>tm_Secret = cf_TokenSecret cfg, tm_TTL = 0\<rparr> (s_Name s) (token_expiry s clock))"
  by (simp add: pod_token_def BuildPod_fields pod_env_def)

lemma session_secrets_agree:
  assumes "controller_main pf mac [] = Starts r" "proxy_main pf su [] = Starts pp"
  shows "tm_secret \<lparr>tm_Secret = cf_TokenSecret (rc_config r), tm_TTL = 0\<rparr> = tm_secret (px_Tokens (pp_Proxy pp))"
  using controller_started [OF assms(1)] proxy_started [OF assms(2)] by auto

text \<open>
  Claim C9. The token that the controller puts into the Pod of a session whose name has no dot authenticates
  exactly that session at the model proxy of the same installation, both programs started without
  arguments, in one environment and with one keyed hash: if the proxy finds the session
  live, it accepts the token before the expiry of the token, truncated to seconds, and not from then
  on. The expiry is a time that Go can tell apart from all others: its seconds since the year 1 fit
  into 64 bits. (The token of a session with a dot in its name is never accepted:
  \<open>token_dotted_name\<close>.)
\<close>

theorem pod_token_accepted:
  assumes "controller_main pf mac [] = Starts r" "proxy_main pf su [] = Starts pp" "ps_Mac su = mac"
    and "CHR ''.'' \<notin> set (s_Name s)"
    and "- (2 ^ 63) \<le> Unix (token_expiry s clock)" "Unix (token_expiry s clock) < 2 ^ 63 - 62135596800"
    and "pod_token (BuildPod mac s (rc_config r) profile clock) = Some token"
    and "hdr_Get (rq_Header q) ''Authorization'' = ''Bearer '' @ token"
    and "kube_Get (pp_Cluster pp) (pp_Namespace pp) (s_Name s) w = (Inr s', w')"
    and "session_live s' (ps_Now su w')"
  shows "fst (authenticate (pp_Proxy pp) q w) =
    (if nanos (ps_Now su w) < Unix (token_expiry s clock) * 1000000000 then Some (s_Name s) else None)"
proof -
  have p: "px_Mac (pp_Proxy pp) = mac" "px_Now (pp_Proxy pp) = ps_Now su"
    "px_Sessions (pp_Proxy pp) = Some (resolve_session (pp_Cluster pp) (pp_Namespace pp))"
    using proxy_started [OF assms(2)] assms(3) by auto
  have "token = GenerateUntil mac \<lparr>tm_Secret = cf_TokenSecret (rc_config r), tm_TTL = 0\<rparr>
      (s_Name s) (token_expiry s clock)"
    using assms(7) by (simp add: pod_token_BuildPod)
  with GenerateUntil_validates [OF assms(4-6) session_secrets_agree [OF assms(1,2)]] p
  have "ValidateWithExpiry (px_Mac (pp_Proxy pp)) (px_Tokens (pp_Proxy pp)) (ps_Now su w) token =
      (if nanos (ps_Now su w) < Unix (token_expiry s clock) * 1000000000
       then (s_Name s, UnixTime (Unix (token_expiry s clock)), True)
       else ([], UnixTime (Unix (token_expiry s clock)), False))" by simp
  moreover have "HasPrefix (hdr_Get (rq_Header q) ''Authorization'') ''Bearer ''"
    "TrimPrefix (hdr_Get (rq_Header q) ''Authorization'') ''Bearer '' = token"
    unfolding assms(8) by (rule HasPrefix_append, rule TrimPrefix_append)
  ultimately show ?thesis using p assms(9,10)
    by (simp add: authenticate_def Let_def resolve_session_def)
qed

lemma example_installation:
  obtains r pp where "controller_main example_platform (\<lambda>k s. s) [] = Starts r"
    "proxy_main example_platform example_surroundings [] = Starts pp"
    "pp_Cluster pp = test_cluster" "pp_Namespace pp = DefaultSessionNamespace"
proof -
  obtain r where r: "controller_main example_platform (\<lambda>k s. s) [] = Starts r"
    using example_starts(1) by blast
  obtain pp where pp: "proxy_main example_platform example_surroundings [] = Starts pp"
    using example_starts(2) by blast
  from proxy_started [OF pp] have "pp_Cluster pp = test_cluster" "pp_Namespace pp = DefaultSessionNamespace"
    by (auto simp: example_platform_def envDefault_def)
  with r pp show ?thesis by (rule that)
qed

lemma example_live:
  "case kube_Get test_cluster DefaultSessionNamespace ''sess-1'' (example_world example_session []) of
     (Inl _, _) \<Rightarrow> False
   | (Inr s', w') \<Rightarrow> session_live s' (w_now w')"
  by code_simp

lemma example_token_expiry: "Unix (token_expiry example_session (UnixTime 0)) = 1700007200"
  by code_simp

theorem pod_token_accepted_witness:
  "\<exists>r pp token. controller_main example_platform (\<lambda>k s. s) [] = Starts r \<and>
     proxy_main example_platform example_surroundings [] = Starts pp \<and>
     pod_token (BuildPod (\<lambda>k s. s) example_session (rc_config r) zero_profile (UnixTime 0)) = Some token \<and>
     fst (authenticate (pp_Proxy pp)
       (example_request ''POST'' ''/internal/model-proxy/v1/chat/completions'' token)
       (example_world example_session [])) = Some ''sess-1''"
proof -
  obtain r pp where i: "controller_main example_platform (\<lambda>k s. s) [] = Starts r"
    "proxy_main example_platform example_surroundings [] = Starts pp"
    "pp_Cluster pp = test_cluster" "pp_Namespace pp = DefaultSessionNamespace"
    by (rule example_installation)
  obtain token where token:
    "pod_token (BuildPod (\<lambda>k s. s) example_session (rc_config r) zero_profile (UnixTime 0)) = Some token"
    by (simp add: pod_token_BuildPod)
  obtain s' w' where g: "kube_Get test_cluster DefaultSessionNamespace ''sess-1'' (example_world example_session []) =
      (Inr s', w')" "session_live s' (w_now w')"
    using example_live by (auto split: prod.splits sum.splits)
  have n: "s_Name example_session = ''sess-1''" by (simp add: example_session_def)
  have m: "ps_Mac example_surroundings = (\<lambda>k s. s)" "ps_Now example_surroundings = w_now"
    by (simp_all add: example_surroundings_def)
  have h: "hdr_Get (rq_Header (example_request ''POST'' ''/internal/model-proxy/v1/chat/completions'' token))
      ''Authorization'' = ''Bearer '' @ token"
    by (simp add: example_request_def hdr_Get_def hdr_values_def canonical_names)
  have "fst (authenticate (pp_Proxy pp)
      (example_request ''POST'' ''/internal/model-proxy/v1/chat/completions'' token)
      (example_world example_session [])) =
    (if nanos (ps_Now example_surroundings (example_world example_session [])) <
        Unix (token_expiry example_session (UnixTime 0)) * 1000000000 then Some (s_Name example_session) else None)"
    using g by (intro pod_token_accepted [OF i(1,2) m(1) _ _ _ token h])
      (simp_all add: n i m example_token_expiry)
  moreover have "nanos (ps_Now example_surroundings (example_world example_session [])) <
      Unix (token_expiry example_session (UnixTime 0)) * 1000000000"
    unfolding example_token_expiry by (simp add: m example_world_def UnixTime_def)
  ultimately show ?thesis using i(1,2) token by (auto simp: n)
qed

subsection \<open>From the command line through the API to the store\<close>

text \<open>
  The API server as the transport of a command-line client: the request a call arrives as at a
  server whose address is \<open>base\<close>, and the bytes of each reply (\<open>http.Error\<close> and the JSON
  encoder end the text with a newline).
\<close>

definition arriving :: "string \<Rightarrow> http_call \<Rightarrow> request" where
  "arriving base call =
     (let path = drop (length base) (hc_URL call) in
      \<lparr>rq_Method = hc_Method call, rq_EscapedPath = path,
       rq_Path = (case unescape path of None \<Rightarrow> path | Some p \<Rightarrow> p),
       rq_Header = hc_Header call, rq_Body = (case hc_Body call of None \<Rightarrow> [] | Some b \<Rightarrow> b)\<rparr>)"

definition reply_bytes :: "(json \<Rightarrow> string) \<Rightarrow> reply \<Rightarrow> (int \<times> string) option" where
  "reply_bytes encode rep =
     (case rep of
        TextReply st text \<Rightarrow> Some (st, text @ newline)
      | FieldsReply st fs \<Rightarrow> Some (st, encode (JObject fs) @ newline)
      | SessionReply st r \<Rightarrow> Some (st, encode (response_json r) @ newline)
      | ItemsReply st rs \<Rightarrow> Some (st, encode (JObject [(''items'', JArray (map response_json rs))]) @ newline)
      | _ \<Rightarrow> None)"

definition api_transport ::
    "string \<Rightarrow> (json \<Rightarrow> string) \<Rightarrow> 'w server \<Rightarrow> http_call \<Rightarrow> 'w \<Rightarrow> (kerr + int \<times> (kerr + string)) \<times> 'w" where
  "api_transport base encode sv call w =
     (case Handler sv (arriving base call) w of
        (rep, w) \<Rightarrow>
          (case reply_bytes encode rep of
             None \<Rightarrow> (Inl (OtherError ''no plain answer''), w)
           | Some (st, body) \<Rightarrow> (Inr (st, Inr body), w)))"

lemma session_path_route: "route_name n \<Longrightarrow> session_path n = ''/api/v1/sessions/'' @ n"
  by (simp add: session_path_def PathEscape_plain route_name_def)

definition api_client ::
    "string \<Rightarrow> string \<Rightarrow> (json \<Rightarrow> string) \<Rightarrow> (string \<Rightarrow> json option) \<Rightarrow> 'w server \<Rightarrow> 'w client" where
  "api_client base token encode decode sv =
     \<lparr>cl_Config = \<lparr>cc_APIServer = base, cc_Token = token\<rparr>, cl_Do = api_transport base encode sv,
      cl_Marshal = encode, cl_Unmarshal = decode\<rparr>"

lemma user_token:
  assumes "hdr_Get (rq_Header r) ''Authorization'' = ''Bearer '' @ ''user:'' @ u"
    and "TrimSpace (''user:'' @ u) = ''user:'' @ u" "u \<noteq> []"
  shows "userFromRequest r = Some u"
proof -
  have "HasPrefix (''user:'' @ u) ''user:''" "TrimPrefix (''user:'' @ u) ''user:'' = u"
    "HasPrefix (''Bearer '' @ ''user:'' @ u) ''Bearer ''"
    "TrimPrefix (''Bearer '' @ ''user:'' @ u) ''Bearer '' = ''user:'' @ u"
    by (rule HasPrefix_append TrimPrefix_append)+
  then show ?thesis
    unfolding userFromRequest_def Let_def assms(1) using assms(2,3) by (simp del: append.simps)
qed

lemma reply_status_texts: "TrimSpace (''forbidden'' @ newline) = ''forbidden''"
  by code_simp

text \<open>
  Claim C24. The command line and the API agree on a session: with the token of a user,
  \<open>caskctl session get\<close> of a name that passes through URLs gives the twelve fields the
  API makes of the stored session when the user owns it, and the error \<open>forbidden\<close>
  with nothing of the session when not; and asking leaves the world as reading the store
  left it.
\<close>

theorem cli_get_through_api:
  assumes "route_name n" "TrimRight base ''/'' = base" "url_Parse_User (base @ session_path n) \<noteq> None"
    and "TrimSpace (''user:'' @ u) = ''user:'' @ u" "u \<noteq> []"
    and "sv_Store sv = Some S" "so_Get S n w = (Inr s, w')"
    and "body = encode (response_json (responseFromSession s False)) @ newline"
    and "decode body = Some (response_json (responseFromSession s False))"
  shows "client_Get (api_client base (''user:'' @ u) encode decode sv) n w =
    (if s_UserID s = u then Inr (session_of (responseFromSession s False), body)
     else Inl (ApiError ''forbidden''), w')"
proof -
  define c where "c = api_client base (''user:'' @ u) encode decode sv"
  let ?call = "\<lparr>hc_Method = ''GET'', hc_URL = base @ session_path n, hc_Header = client_header c None,
    hc_Body = None\<rparr>"
  let ?r = "arriving base ?call"
  have c: "cl_Do c = api_transport base encode sv" "cl_Unmarshal c = decode"
    by (simp_all add: c_def api_client_def)
  have url: "client_url c (session_path n) = base @ session_path n"
    using assms(2) by (simp add: client_url_def c_def api_client_def)
  have "CHR ''%'' \<notin> set (session_path n)"
    using route_name_absent [OF assms(1)] by (simp add: session_path_route [OF assms(1)])
  then have r: "rq_EscapedPath ?r = ''/api/v1/sessions/'' @ n" "rq_Path ?r = rq_EscapedPath ?r"
    "rq_Method ?r = ''GET''" "rq_Header ?r = client_header c None"
    using unescape_no_percent [of "session_path n"]
    by (simp_all add: arriving_def Let_def session_path_route [OF assms(1)])
  have "hdr_Get (rq_Header ?r) ''Authorization'' = ''Bearer '' @ ''user:'' @ u"
    unfolding r(4) client_header_token by (simp add: c_def api_client_def)
  then have "userFromRequest ?r = Some u" using assms(4,5) by (rule user_token)
  then have "Handler sv ?r w = getSession sv ?r u n w"
    by (rule session_path_routes(1) [OF assms(1) r(1,2) _ r(3)])
  then have "api_transport base encode sv ?call w =
      (if s_UserID s = u then Inr (200, Inr body) else Inr (403, Inr (''forbidden'' @ newline)), w')"
    using assms(6-8)
    by (simp add: api_transport_def getSession_def with_store_def reply_bytes_def http_Error_def cask_defs)
  then have "client_do c ''GET'' (session_path n) None w =
      (if s_UserID s = u then Inr body else Inl (ApiError ''forbidden''), w')"
    using assms(3) reply_status_texts by (simp add: client_do_def Let_def url c)
  then show ?thesis
    using assms(9) unmarshal_response unfolding c_def [symmetric]
    by (simp add: client_Get_def doSession_def c)
qed

theorem cli_get_through_api_witness:
  "fst (client_Get (api_client ''http://cask'' ''user:mallory'' (\<lambda>_. ''{}'')
      (\<lambda>_. Some (response_json (responseFromSession (clone example_session) False)))
      (example_server None)) ''sess-1'' example_store) = Inl (ApiError ''forbidden'')"
proof -
  have get: "so_Get memory_store ''sess-1'' example_store = (Inr (clone example_session), example_store)"
    by (simp add: memory_store_def ms_Get_def example_store_def example_session_def)
  have "route_name ''sess-1''"
    by (simp add: route_name_def plain_char_def alphanumeric_def code_def)
  moreover have "TrimRight ''http://cask'' ''/'' = ''http://cask''"
    "url_Parse_User (''http://cask'' @ session_path ''sess-1'') \<noteq> None"
    "TrimSpace (''user:'' @ ''mallory'') = ''user:'' @ ''mallory''" "''mallory'' \<noteq> []"
    by code_simp+
  moreover have "sv_Store (example_server None) = Some memory_store" by (simp add: example_server_def)
  ultimately have "client_Get (api_client ''http://cask'' (''user:'' @ ''mallory'') (\<lambda>_. ''{}'')
      (\<lambda>_. Some (response_json (responseFromSession (clone example_session) False)))
      (example_server None)) ''sess-1'' example_store =
    (if s_UserID (clone example_session) = ''mallory''
     then Inr (session_of (responseFromSession (clone example_session) False), ''{}'' @ newline)
     else Inl (ApiError ''forbidden''), example_store)"
    by (rule cli_get_through_api [OF _ _ _ _ _ _ get]) simp_all
  then show ?thesis by (simp add: example_session_def sample_spec_def)
qed

end
